(* ===== verification/Prelude.thy ===== *)
theory Prelude
  imports Main "HOL-Library.Word" "HOL-Library.Product_Lexorder"
begin

text \<open>
  Shared vocabulary of the DetSim development: machine integers, C++ exceptions as values,
  the ordered map that models \<open>std::map\<close>, and the little lemmas on lists, options and words
  that the component theories use.

  \<^item> A C++ \<open>int\<close>, \<open>long\<close> or \<open>ssize_t\<close> is an \<open>int\<close> (bit operations on \<open>int\<close> are two's complement);
    a \<open>uint8_t\<close>, \<open>uint16_t\<close>, \<open>uint32_t\<close> or \<open>uint64_t\<close> is a word of that width; a \<open>size_t\<close> that
    only counts the elements of a container is a \<open>nat\<close>.
  \<^item> A thrown exception is a value of \<open>exn\<close>. An operation that can throw returns
    \<open>(exn + 'a) \<times> 's\<close>: the outcome together with the state as it is when the operation leaves,
    so that a theorem can say what a throwing operation has already changed.
  \<^item> \<open>Undefined_behaviour\<close> marks a path on which the C++ would dereference an end iterator or a
    null pointer; the component theories prove such paths unreachable.
\<close>

section \<open>Machine integers and exceptions\<close>

type_synonym u8 = "8 word"
type_synonym u16 = "16 word"
type_synonym u32 = "32 word"
type_synonym u64 = "64 word"
type_synonym byte = u8

datatype exn =
    Runtime_error string
  | Invalid_argument string
  | Length_error string
  | Overflow_error string
  | Out_of_range
  | Undefined_behaviour

type_synonym ('s, 'a) outcome = "(exn + 'a) \<times> 's"

text \<open>Sequencing of computations that may throw.\<close>

fun andthen :: "exn + 'a \<Rightarrow> ('a \<Rightarrow> exn + 'b) \<Rightarrow> exn + 'b" where
  "andthen (Inl e) f = Inl e"
| "andthen (Inr x) f = f x"

lemma andthen_Inr: "andthen r f = Inr y \<longleftrightarrow> (\<exists>x. r = Inr x \<and> f x = Inr y)"
  by (cases r) auto

lemma andthen_cong [fundef_cong]:
  "r = r' \<Longrightarrow> (\<And>x. r' = Inr x \<Longrightarrow> f x = g x) \<Longrightarrow> andthen r f = andthen r' g"
  by (cases r) auto

named_theorems omap_simps \<open>equations of the ordered map\<close>

lemma option_ifI: "(\<And>x. m = Some x \<longleftrightarrow> x = v \<and> P) \<Longrightarrow> m = (if P then Some v else None)"
  by (cases m) auto

section \<open>Ordered maps\<close>

text \<open>
  \<open>std::map\<close> iterates in key order, and DetSim relies on that order for determinism. It is an
  association list, sorted by key; \<open>map_of\<close> is \<open>find\<close>, \<open>om_put\<close> is insertion or assignment,
  \<open>om_emplace\<close> is \<open>emplace\<close> (it keeps a value that is already there), \<open>om_del\<close> is \<open>erase\<close>, and the list itself is the iteration order.
\<close>

type_synonym ('k, 'v) omap = "('k \<times> 'v) list"

fun om_put :: "'k::linorder \<Rightarrow> 'v \<Rightarrow> ('k, 'v) omap \<Rightarrow> ('k, 'v) omap" where
  "om_put k v [] = [(k, v)]"
| "om_put k v ((k', v') # m) =
     (if k < k' then (k, v) # (k', v') # m
      else if k = k' then (k, v) # m
      else (k', v') # om_put k v m)"

definition om_emplace :: "'k::linorder \<Rightarrow> 'v \<Rightarrow> ('k, 'v) omap \<Rightarrow> ('k, 'v) omap" where
  "om_emplace k v m = (case map_of m k of None \<Rightarrow> om_put k v m | Some _ \<Rightarrow> m)"

definition om_del :: "'k \<Rightarrow> ('k, 'v) omap \<Rightarrow> ('k, 'v) omap" where
  "om_del k m = filter (\<lambda>(k', _). k' \<noteq> k) m"

definition om_ok :: "('k::linorder, 'v) omap \<Rightarrow> bool" where
  "om_ok m \<longleftrightarrow> sorted_wrt (<) (map fst m)"

definition om_mem :: "'k \<Rightarrow> ('k, 'v) omap \<Rightarrow> bool" where
  "om_mem k m \<longleftrightarrow> map_of m k \<noteq> None"

definition om_count :: "('v \<Rightarrow> bool) \<Rightarrow> ('k, 'v) omap \<Rightarrow> nat" where
  "om_count P m = length (filter (\<lambda>(_, v). P v) m)"

lemma map_of_om_put [simp, omap_simps]: "map_of (om_put k v m) = (map_of m)(k \<mapsto> v)"
  by (induction k v m rule: om_put.induct) (auto simp: fun_eq_iff)

lemma map_of_om_del [simp, omap_simps]: "map_of (om_del k m) = (map_of m)(k := None)"
  by (induction m) (auto simp: om_del_def fun_eq_iff)

lemma om_ok_Nil [simp, omap_simps]: "om_ok []"
  by (simp add: om_ok_def)

lemma om_ok_Cons [simp, omap_simps]:
  "om_ok ((k, v) # m) \<longleftrightarrow> (\<forall>k' \<in> fst ` set m. k < k') \<and> om_ok m"
  by (auto simp: om_ok_def)

lemma fst_om_put: "fst ` set (om_put k v m) = insert k (fst ` set m)"
  by (induction k v m rule: om_put.induct) auto

lemma om_ok_put [simp]: "om_ok m \<Longrightarrow> om_ok (om_put k v m)"
  by (induction k v m rule: om_put.induct) (auto simp: fst_om_put)

lemma om_ok_emplace [simp]: "om_ok m \<Longrightarrow> om_ok (om_emplace k v m)"
  by (simp add: om_emplace_def split: option.split)

lemma map_of_om_emplace [omap_simps]:
  "map_of (om_emplace k v m) = (map_of m)(k \<mapsto> (case map_of m k of None \<Rightarrow> v | Some w \<Rightarrow> w))"
  by (auto simp: om_emplace_def split: option.split)

lemma om_ok_del [simp]: "om_ok m \<Longrightarrow> om_ok (om_del k m)"
  by (induction m) (auto simp: om_del_def)

lemma om_ok_distinct: "om_ok m \<Longrightarrow> distinct (map fst m)"
  by (simp add: om_ok_def strict_sorted_iff)

lemma om_mem_iff: "om_mem k m \<longleftrightarrow> k \<in> fst ` set m"
  by (simp add: om_mem_def map_of_eq_None_iff)

lemma om_lookup_iff: "om_ok m \<Longrightarrow> map_of m k = Some v \<longleftrightarrow> (k, v) \<in> set m"
  by (metis map_of_eq_Some_iff om_ok_distinct)

lemma om_above: "\<forall>x \<in> set m. k < fst x \<Longrightarrow> map_of m k' = Some v \<Longrightarrow> k < k'"
  by (metis fst_conv map_of_SomeD)

lemma om_put_id: "om_ok m \<Longrightarrow> map_of m k = Some v \<Longrightarrow> om_put k v m = m"
proof (induction m)
  case (Cons p m)
  obtain k' v' where p: "p = (k', v')" by (cases p)
  show ?case
  proof (cases "k = k'")
    case False
    with Cons.prems p have "map_of m k = Some v" "om_ok m" by auto
    moreover from this have "k' < k"
      using Cons.prems(1) p by (auto intro: om_above)
    ultimately show ?thesis using Cons.IH p by auto
  qed (use Cons.prems p in auto)
qed simp

text \<open>Two sorted maps with the same lookups are the same map: the order adds nothing.\<close>

lemma om_ext: "om_ok m \<Longrightarrow> om_ok m' \<Longrightarrow> map_of m = map_of m' \<Longrightarrow> m = m'"
proof (induction m arbitrary: m')
  case Nil
  then have "map_of m' = Map.empty" by simp
  then show ?case by (simp add: map_of_eq_empty_iff)
next
  case (Cons p m)
  obtain k v where p: "p = (k, v)" by (cases p)
  obtain k' v' t where m': "m' = (k', v') # t"
    using fun_cong [OF Cons.prems(3), of k] p by (cases m') auto
  have lk: "map_of m k = None" and lk': "map_of t k' = None"
    using Cons.prems(1,2) p m' by (auto simp: map_of_eq_None_iff)
  have "k = k'"
  proof (rule ccontr)
    assume ne: "k \<noteq> k'"
    have "map_of t k = Some v"
      using fun_cong [OF Cons.prems(3), of k] p m' ne by simp
    then have "k' < k" using Cons.prems(2) m' by (auto intro: om_above)
    moreover have "map_of m k' = Some v'"
      using fun_cong [OF Cons.prems(3), of k'] p m' ne by (simp split: if_splits)
    then have "k < k'" using Cons.prems(1) p by (auto intro: om_above)
    ultimately show False by simp
  qed
  moreover have "v = v'"
    using fun_cong [OF Cons.prems(3), of k] p m' \<open>k = k'\<close> by simp
  moreover have "map_of m = map_of t"
  proof
    fix x
    show "map_of m x = map_of t x"
      using fun_cong [OF Cons.prems(3), of x] p m' \<open>k = k'\<close> lk lk' by (cases "x = k") auto
  qed
  then have "m = t" using Cons.IH [of t] Cons.prems p m' by simp
  ultimately show ?case using p m' by simp
qed

lemma om_put_put: "om_put k v (om_put k v' m) = om_put k v m"
  by (induction k v' m rule: om_put.induct) auto

lemma om_put_twist: "om_ok m \<Longrightarrow> a \<noteq> b \<Longrightarrow> om_put a x (om_put b y m) = om_put b y (om_put a x m)"
  by (rule om_ext) (simp_all add: fun_upd_twist)

lemma om_del_absent: "\<not> om_mem k m \<Longrightarrow> om_del k m = m"
  by (force simp: om_mem_iff om_del_def filter_id_conv)

lemma om_mem_del: "om_mem q (om_del p m) \<longleftrightarrow> q \<noteq> p \<and> om_mem q m"
  by (simp add: om_mem_def)

lemma om_mem_put: "om_mem q (om_put p n m) \<longleftrightarrow> q = p \<or> om_mem q m"
  by (simp add: om_mem_def)

lemma om_memI: "map_of m k = Some v \<Longrightarrow> om_mem k m"
  by (simp add: om_mem_def)

lemma om_ok_hd_least:
  assumes "om_ok m" "m \<noteq> []" "map_of m k = Some v"
  shows "fst (hd m) \<le> k"
proof -
  from assms(2) obtain x xs where m: "m = x # xs" by (cases m) auto
  from assms(3) have "(k, v) \<in> set m" by (rule map_of_SomeD)
  with assms(1) m show ?thesis by (force simp: om_ok_def)
qed

lemma om_ok_last_greatest:
  assumes "om_ok m" "m \<noteq> []" "map_of m k = Some v"
  shows "k \<le> fst (last m)"
proof -
  from assms(2) obtain xs x where m: "m = xs @ [x]" by (cases m rule: rev_cases) auto
  from assms(3) have "(k, v) \<in> set m" by (rule map_of_SomeD)
  with assms(1) m show ?thesis
    by (force simp: om_ok_def sorted_wrt_append)
qed

lemma om_put_notin: "map_of m k = None \<Longrightarrow> length (om_put k v m) = Suc (length m)"
  by (induction k v m rule: om_put.induct) (auto split: if_splits)

lemma om_put_in: "om_ok m \<Longrightarrow> map_of m k = Some w \<Longrightarrow> length (om_put k v m) = length m"
proof (induction k v m rule: om_put.induct)
  case (2 k v k' v' m)
  then show ?case using om_above [of m k' k w] by (auto split: if_splits)
qed simp

lemma om_count_put:
  "om_ok m \<Longrightarrow> om_count P (om_put k v m) + (case map_of m k of Some w \<Rightarrow> of_bool (P w) | None \<Rightarrow> 0)
     = om_count P m + of_bool (P v)"
proof (induction k v m rule: om_put.induct)
  case (2 k v k' v' m)
  consider "k < k'" | "k = k'" | "k' < k" by (rule linorder_cases)
  then show ?case
  proof cases
    case 1
    with "2.prems" have "map_of m k = None" by (force simp: map_of_eq_None_iff)
    with 1 show ?thesis by (auto simp: om_count_def)
  next
    case 3
    with 2 show ?thesis by (auto simp: om_count_def split: option.splits)
  qed (auto simp: om_count_def)
qed (auto simp: om_count_def)

lemma om_count_put_new:
  "om_ok m \<Longrightarrow> map_of m k = None \<Longrightarrow> om_count P (om_put k v m) = om_count P m + of_bool (P v)"
  using om_count_put [of m P k v] by simp

lemma om_count_pos: "om_ok m \<Longrightarrow> map_of m k = Some v \<Longrightarrow> P v \<Longrightarrow> 0 < om_count P m"
  by (auto simp: om_count_def filter_empty_conv dest!: map_of_SomeD)

lemma om_count_0: "om_ok m \<Longrightarrow> om_count P m = 0 \<longleftrightarrow> (\<forall>k v. map_of m k = Some v \<longrightarrow> \<not> P v)"
  by (auto simp: om_count_def filter_empty_conv om_lookup_iff)

subsection \<open>The map interface\<close>

text \<open>
  What the clients of \<open>std::map\<close> rely on, as an interface: lookups after an insertion and after
  an erasure, and that both keep the representation sorted. The components use the facts below
  through the interpretation at the association lists above.
\<close>

locale ordered_map =
  fixes get :: "'m \<Rightarrow> 'k::linorder \<Rightarrow> 'v option"
    and put :: "'k \<Rightarrow> 'v \<Rightarrow> 'm \<Rightarrow> 'm"
    and del :: "'k \<Rightarrow> 'm \<Rightarrow> 'm"
    and ok :: "'m \<Rightarrow> bool"
  assumes get_put: "get (put k v m) = (get m)(k \<mapsto> v)"
    and get_del: "get (del k m) = (get m)(k := None)"
    and ok_put: "ok m \<Longrightarrow> ok (put k v m)"
    and ok_del: "ok m \<Longrightarrow> ok (del k m)"
    and map_ext: "ok m \<Longrightarrow> ok m' \<Longrightarrow> get m = get m' \<Longrightarrow> m = m'"
begin

lemma put_put: "ok m \<Longrightarrow> put k v (put k w m) = put k v m"
  by (rule map_ext) (simp_all add: ok_put get_put)

lemma put_comm: "ok m \<Longrightarrow> k \<noteq> k' \<Longrightarrow> put k v (put k' v' m) = put k' v' (put k v m)"
  by (rule map_ext) (simp_all add: ok_put get_put fun_upd_twist)

lemma del_put: "ok m \<Longrightarrow> get m k = None \<Longrightarrow> del k (put k v m) = m"
  by (rule map_ext) (simp_all add: ok_put ok_del get_put get_del fun_upd_idem)

lemma put_same: "ok m \<Longrightarrow> get m k = Some v \<Longrightarrow> put k v m = m"
  by (rule map_ext) (simp_all add: ok_put get_put fun_upd_idem)

lemma del_absent: "ok m \<Longrightarrow> get m k = None \<Longrightarrow> del k m = m"
  by (rule map_ext) (simp_all add: ok_del get_del fun_upd_idem)

end

interpretation om: ordered_map map_of om_put om_del om_ok
  by unfold_locales (simp_all, erule (2) om_ext)

end
