(* ===== verification/Frontier.thy ===== *)
theory Frontier
  imports Prelude
begin

text \<open>
  The search frontier of the parallel explorer: \<open>src/src/core/search/frontier.h\<close> and
  \<open>frontier.cpp\<close>, class \<open>Frontier\<close>. The coordinator admits states, leases them to workers,
  commits the reported successors and requeues the leases of lost workers. Every mutating
  operation returns its outcome together with the state it leaves behind.

  The model holds the whole object: the node table, the dispatch indexes \<open>pending_\<close>,
  \<open>bfs_pending_\<close> and \<open>active_layers_\<close>, the phase counts, the counters and the poison flag. The
  callbacks of the priority policy and of the locality scorer are parameters that may throw.
  Memory exhaustion (\<open>std::bad_alloc\<close>) is not an outcome of the modelled operations; what the
  code does once it has set \<open>poisoned_\<close> is modelled.
\<close>

section \<open>Data\<close>

type_synonym state_key = u64
type_synonym worker_id = u64

datatype policy = Dfs | Bfs | Priority

datatype node_phase = Pending | Inflight | Expanded | Terminal | DepthCut | ModelBudget | Failure

datatype result_kind = R_Expanded | R_Terminal | R_DepthCut | R_ModelBudget | R_Failure

datatype status = Running | Complete | Bounded | Failed

record ticket =
  t_state :: state_key
  t_worker :: worker_id
  t_lease_id :: u64
  t_depth :: u64
  t_may_expand :: bool

record expansion =
  e_kind :: result_kind
  e_successors :: "state_key list"
  e_reason :: string

record node =
  n_depth :: u64
  n_phase :: node_phase
  n_sequence :: u64
  n_ticket :: "ticket option"
  n_successors :: "state_key list"
  n_reason :: string

record counters =
  c_admitted :: u64
  c_duplicates :: u64
  c_improvements :: u64
  c_leased :: u64
  c_committed :: u64
  c_requeued :: u64
  c_dispatch_candidates :: u64

type_synonym priority = "state_key \<Rightarrow> u64 \<Rightarrow> exn + int"
type_synonym scorer = "state_key \<Rightarrow> exn + int"

record frontier =
  f_limit :: u64
  f_next_sequence :: u64
  f_next_lease :: u64
  f_policy :: policy
  f_priority :: "priority option"
  f_max_states :: nat
  f_poisoned :: bool
  f_nodes :: "(state_key, node) omap"
  f_pending :: "(u64, state_key) omap"
  f_bfs_pending :: "(u64 \<times> u64, state_key) omap"
  f_active_layers :: "(u64, nat) omap"
  f_phase_counts :: "nat list"
  f_counters :: counters

section \<open>Operations\<close>

definition new_frontier :: "u64 \<Rightarrow> policy \<Rightarrow> priority option \<Rightarrow> nat \<Rightarrow> exn + frontier" where
  "new_frontier depth_limit policy prio max_states =
     (if (policy = Priority) \<noteq> (prio \<noteq> None)
      then Inl (Invalid_argument ''priority callback required only for priority policy'')
      else if max_states = 0 then Inl (Invalid_argument ''frontier capacity must be positive'')
      else Inr \<lparr>f_limit = depth_limit, f_next_sequence = 0, f_next_lease = 0, f_policy = policy,
                f_priority = prio, f_max_states = max_states, f_poisoned = False, f_nodes = [],
                f_pending = [], f_bfs_pending = [], f_active_layers = [],
                f_phase_counts = replicate 7 0,
                f_counters = \<lparr>c_admitted = 0, c_duplicates = 0, c_improvements = 0, c_leased = 0,
                             c_committed = 0, c_requeued = 0, c_dispatch_candidates = 0\<rparr>\<rparr>)"

fun phase_index :: "node_phase \<Rightarrow> nat" where
  "phase_index Pending = 0"
| "phase_index Inflight = 1"
| "phase_index Expanded = 2"
| "phase_index Terminal = 3"
| "phase_index DepthCut = 4"
| "phase_index ModelBudget = 5"
| "phase_index Failure = 6"

definition active_phase :: "node_phase \<Rightarrow> bool" where
  "active_phase p \<longleftrightarrow> p = Pending \<or> p = Inflight"

text \<open>
  \<open>++active_layers_[d]\<close> and \<open>--active_layers_.find(d)->second\<close> with the erasure of an emptied
  layer. The source dereferences the iterator without a test: the index invariant of
  \<open>Frontier_Index\<close> is what excludes an absent layer and a count of zero.
\<close>

definition layer_inc :: "u64 \<Rightarrow> (u64, nat) omap \<Rightarrow> (u64, nat) omap" where
  "layer_inc d m = om_put d (case map_of m d of None \<Rightarrow> 1 | Some c \<Rightarrow> Suc c) m"

definition layer_dec :: "u64 \<Rightarrow> (u64, nat) omap \<Rightarrow> (u64, nat) omap" where
  "layer_dec d m =
     (case map_of m d of
        None \<Rightarrow> m
      | Some c \<Rightarrow> if c - 1 = 0 then om_del d m else om_put d (c - 1) m)"

definition index_add :: "state_key \<Rightarrow> node \<Rightarrow> frontier \<Rightarrow> frontier" where
  "index_add key n f =
     f\<lparr>f_phase_counts := (f_phase_counts f)
         [phase_index (n_phase n) := f_phase_counts f ! phase_index (n_phase n) + 1],
       f_pending := (if n_phase n = Pending then om_emplace (n_sequence n) key (f_pending f)
                    else f_pending f),
       f_bfs_pending := (if n_phase n = Pending \<and> f_policy f = Bfs
                        then om_emplace (n_depth n, n_sequence n) key (f_bfs_pending f)
                        else f_bfs_pending f),
       f_active_layers := (if f_policy f = Bfs \<and> active_phase (n_phase n)
                          then layer_inc (n_depth n) (f_active_layers f)
                          else f_active_layers f)\<rparr>"

definition index_remove :: "node \<Rightarrow> frontier \<Rightarrow> frontier" where
  "index_remove n f =
     f\<lparr>f_phase_counts := (f_phase_counts f)
         [phase_index (n_phase n) := f_phase_counts f ! phase_index (n_phase n) - 1],
       f_pending := (if n_phase n = Pending then om_del (n_sequence n) (f_pending f)
                    else f_pending f),
       f_bfs_pending := (if n_phase n = Pending \<and> f_policy f = Bfs
                        then om_del (n_depth n, n_sequence n) (f_bfs_pending f)
                        else f_bfs_pending f),
       f_active_layers := (if f_policy f = Bfs \<and> active_phase (n_phase n)
                          then layer_dec (n_depth n) (f_active_layers f)
                          else f_active_layers f)\<rparr>"

text \<open>
  \<open>Node\<close> objects are updated in place through a reference into \<open>f_nodes\<close>; here the changed node
  is stored back with \<open>om_put\<close>.
\<close>

definition update_node :: "state_key \<Rightarrow> node \<Rightarrow> node_phase \<Rightarrow> u64 \<Rightarrow> frontier \<Rightarrow> frontier" where
  "update_node key n phase depth f =
     (let f1 = index_remove n f;
          n1 = n\<lparr>n_phase := phase, n_depth := depth\<rparr>
      in index_add key n1 (f1\<lparr>f_nodes := om_put key n1 (f_nodes f1)\<rparr>))"

definition insert_node :: "state_key \<Rightarrow> u64 \<Rightarrow> frontier \<Rightarrow> frontier" where
  "insert_node key distance f =
     (let n = \<lparr>n_depth = distance, n_phase = Pending, n_sequence = f_next_sequence f,
               n_ticket = None, n_successors = [], n_reason = []\<rparr>;
          f1 = f\<lparr>f_next_sequence := f_next_sequence f + 1, f_nodes := om_put key n (f_nodes f)\<rparr>;
          f2 = index_add key n f1
      in f2\<lparr>f_counters := (f_counters f2)\<lparr>c_admitted := c_admitted (f_counters f2) + 1\<rparr>\<rparr>)"

definition count_duplicate :: "frontier \<Rightarrow> frontier" where
  "count_duplicate f =
     f\<lparr>f_counters := (f_counters f)\<lparr>c_duplicates := c_duplicates (f_counters f) + 1\<rparr>\<rparr>"

definition count_improvement :: "frontier \<Rightarrow> frontier" where
  "count_improvement f =
     f\<lparr>f_counters := (f_counters f)\<lparr>c_improvements := c_improvements (f_counters f) + 1\<rparr>\<rparr>"

definition improve_node :: "state_key \<Rightarrow> node \<Rightarrow> u64 \<Rightarrow> frontier \<Rightarrow> frontier" where
  "improve_node key n distance f =
     count_improvement
       (update_node key n (if n_phase n = DepthCut then Pending else n_phase n) distance f)"

text \<open>
  The work list of \<open>propagate\<close> is a vector used as a stack: its back is the head of the list
  here, so pushing the successors from last to first puts them on the stack in their own order.
  What decreases is the sum, over all keys, of the recorded depth (\<open>2 ^ 64\<close> for a key not yet
  recorded), and then the length of the work list.
\<close>

definition key_rank :: "frontier \<Rightarrow> state_key \<Rightarrow> nat" where
  "key_rank f k = (case map_of (f_nodes f) k of None \<Rightarrow> 2 ^ 64 | Some n \<Rightarrow> unat (n_depth n))"

lemma nodes_index_add [simp]: "f_nodes (index_add k n f) = f_nodes f"
  by (simp add: index_add_def)

lemma nodes_index_remove [simp]: "f_nodes (index_remove n f) = f_nodes f"
  by (simp add: index_remove_def)

lemma nodes_update_node:
  "f_nodes (update_node k n p d f) = om_put k (n\<lparr>n_phase := p, n_depth := d\<rparr>) (f_nodes f)"
  by (simp add: update_node_def Let_def)

lemma nodes_insert_node:
  "f_nodes (insert_node k d f) =
     om_put k \<lparr>n_depth = d, n_phase = Pending, n_sequence = f_next_sequence f, n_ticket = None,
               n_successors = [], n_reason = []\<rparr> (f_nodes f)"
  by (simp add: insert_node_def Let_def)

lemma nodes_count_duplicate [simp]: "f_nodes (count_duplicate f) = f_nodes f"
  by (simp add: count_duplicate_def)

lemma nodes_count_improvement [simp]: "f_nodes (count_improvement f) = f_nodes f"
  by (simp add: count_improvement_def)

lemma sum_key_rank_less:
  assumes "key_rank f' k < key_rank f k" and "\<And>x. x \<noteq> k \<Longrightarrow> key_rank f' x = key_rank f x"
  shows "(\<Sum>x \<in> UNIV. key_rank f' x) < (\<Sum>x \<in> UNIV. key_rank f x)"
proof (rule sum_strict_mono_ex1)
  show "\<forall>x \<in> UNIV. key_rank f' x \<le> key_rank f x"
    using assms by (metis less_imp_le order_refl)
  show "\<exists>x \<in> UNIV. key_rank f' x < key_rank f x" using assms(1) by blast
qed simp

lemma unat_u64_bound: "unat (x :: u64) < 18446744073709551616"
  using unsigned_less [of x] by simp

lemma key_rank_insert_node:
  "map_of (f_nodes f) k = None \<Longrightarrow>
     (\<Sum>x \<in> UNIV. key_rank (insert_node k d f) x) < (\<Sum>x \<in> UNIV. key_rank f x)"
  by (rule sum_key_rank_less [of _ k])
     (auto simp: key_rank_def nodes_insert_node unat_u64_bound)

lemma key_rank_improve_node:
  "map_of (f_nodes f) k = Some n \<Longrightarrow> d < n_depth n \<Longrightarrow>
     (\<Sum>x \<in> UNIV. key_rank (improve_node k n d (count_duplicate f)) x) < (\<Sum>x \<in> UNIV. key_rank f x)"
  by (rule sum_key_rank_less [of _ k])
     (auto simp: key_rank_def improve_node_def nodes_update_node word_less_nat_alt)

lemma key_rank_count_duplicate [simp]: "key_rank (count_duplicate f) = key_rank f"
  by (simp add: key_rank_def fun_eq_iff)

function propagate_loop ::
  "(state_key \<times> u64) list \<Rightarrow> frontier \<Rightarrow> (frontier, unit) outcome" where
  "propagate_loop [] f = (Inr (), f)"
| "propagate_loop ((key, distance) # work) f =
     (case map_of (f_nodes f) key of
        None \<Rightarrow>
          if length (f_nodes f) = f_max_states f
          then (Inl (Length_error ''frontier capacity exceeded''), f)
          else if f_next_sequence f = - 1
          then (Inl (Overflow_error ''frontier sequence exhausted''), f)
          else propagate_loop work (insert_node key distance f)
      | Some n \<Rightarrow>
          if n_depth n \<le> distance then propagate_loop work (count_duplicate f)
          else propagate_loop
                 ((if n_phase n = Expanded
                   then map (\<lambda>s. (s, distance + 1)) (n_successors n) else []) @ work)
                 (improve_node key n distance (count_duplicate f)))"
  by pat_completeness auto
termination
  by (relation "measures [\<lambda>(_, f). \<Sum>x \<in> UNIV. key_rank f x, \<lambda>(w, _). length w]")
     (auto simp: key_rank_insert_node key_rank_improve_node not_le)

definition propagate :: "state_key \<Rightarrow> u64 \<Rightarrow> frontier \<Rightarrow> (frontier, unit) outcome" where
  "propagate state depth f = propagate_loop [(state, depth)] f"

definition ensure_healthy :: "frontier \<Rightarrow> exn option" where
  "ensure_healthy f =
     (if f_poisoned f then Some (Runtime_error ''frontier poisoned by allocation failure'')
      else None)"

definition admit :: "state_key \<Rightarrow> u64 \<Rightarrow> frontier \<Rightarrow> (frontier, bool) outcome" where
  "admit state depth f =
     (case ensure_healthy f of
        Some e \<Rightarrow> (Inl e, f)
      | None \<Rightarrow>
          if f_limit f < depth then (Inl (Invalid_argument ''admission beyond depth limit''), f)
          else
            (let found = map_of (f_nodes f) state;
                 changed = (case found of None \<Rightarrow> True | Some n \<Rightarrow> depth < n_depth n)
             in if found = None \<and> length (f_nodes f) = f_max_states f
                then (Inl (Length_error ''frontier capacity exceeded''), f)
                else (case propagate state depth f of
                        (Inl e, f') \<Rightarrow> (Inl e, f')
                      | (Inr _, f') \<Rightarrow> (Inr changed, f'))))"

definition finalize_lease ::
  "worker_id \<Rightarrow> state_key \<Rightarrow> nat \<Rightarrow> frontier \<Rightarrow> (frontier, ticket) outcome" where
  "finalize_lease worker key candidates f =
     (case map_of (f_nodes f) key of
        None \<Rightarrow> (Inl Undefined_behaviour, f)
      | Some n \<Rightarrow>
          if f_next_lease f = - 1
          then (Inl (Overflow_error ''frontier lease IDs exhausted''), f)
          else
            (let l = f_next_lease f + 1;
                 t = \<lparr>t_state = key, t_worker = worker, t_lease_id = l, t_depth = n_depth n,
                      t_may_expand = n_depth n < f_limit f\<rparr>;
                 f1 = update_node key n Inflight (n_depth n) (f\<lparr>f_next_lease := l\<rparr>);
                 n1 = n\<lparr>n_phase := Inflight, n_ticket := Some t\<rparr>;
                 f2 = f1\<lparr>f_nodes := om_put key n1 (f_nodes f1)\<rparr>;
                 c = f_counters f2
             in (Inr t, f2\<lparr>f_counters :=
                   c\<lparr>c_dispatch_candidates := c_dispatch_candidates c + of_nat candidates,
                     c_leased := c_leased c + 1\<rparr>\<rparr>)))"

fun pick_priority ::
  "priority \<Rightarrow> (state_key, node) omap \<Rightarrow> state_key \<Rightarrow> int \<Rightarrow> nat \<Rightarrow> (u64 \<times> state_key) list
     \<Rightarrow> exn + (state_key \<times> nat)" where
  "pick_priority prio nodes sel best candidates [] = Inr (sel, candidates)"
| "pick_priority prio nodes sel best candidates ((_, key) # rest) =
     (case map_of nodes key of
        None \<Rightarrow> Inl Out_of_range
      | Some n \<Rightarrow>
          (case prio key (n_depth n) of
             Inl e \<Rightarrow> Inl e
           | Inr p \<Rightarrow>
               if p < best then pick_priority prio nodes key p (candidates + 1) rest
               else pick_priority prio nodes sel best (candidates + 1) rest))"

definition select_priority :: "frontier \<Rightarrow> exn + (state_key \<times> nat)" where
  "select_priority f =
     (case (f_pending f, f_priority f) of
        ((_, key) # rest, Some prio) \<Rightarrow>
          (case map_of (f_nodes f) key of
             None \<Rightarrow> Inl Out_of_range
           | Some n \<Rightarrow>
               (case prio key (n_depth n) of
                  Inl e \<Rightarrow> Inl e
                | Inr p \<Rightarrow> pick_priority prio (f_nodes f) key p 1 rest))
      | _ \<Rightarrow> Inl Undefined_behaviour)"

definition lease :: "worker_id \<Rightarrow> frontier \<Rightarrow> (frontier, ticket option) outcome" where
  "lease worker f =
     (case ensure_healthy f of
        Some e \<Rightarrow> (Inl e, f)
      | None \<Rightarrow>
          if f_pending f = [] then (Inr None, f)
          else
            (let selection =
               (case f_policy f of
                  Dfs \<Rightarrow> Inr (Some (snd (last (f_pending f)), 1))
                | Bfs \<Rightarrow>
                    (case (f_bfs_pending f, f_active_layers f) of
                       (((d, _), key) # _, (layer, _) # _) \<Rightarrow>
                         if d \<noteq> layer then Inr None else Inr (Some (key, 1))
                     | _ \<Rightarrow> Inl Undefined_behaviour)
                | Priority \<Rightarrow> map_sum id Some (select_priority f))
             in case selection of
                  Inl e \<Rightarrow> (Inl e, f)
                | Inr None \<Rightarrow> (Inr None, f)
                | Inr (Some (key, candidates)) \<Rightarrow>
                    (case finalize_lease worker key candidates f of
                       (Inl e, f') \<Rightarrow> (Inl e, f')
                     | (Inr t, f') \<Rightarrow> (Inr (Some t), f'))))"

fun consider_all ::
  "scorer \<Rightarrow> nat \<Rightarrow> state_key \<Rightarrow> int \<Rightarrow> nat \<Rightarrow> state_key list \<Rightarrow> exn + (state_key \<times> nat)" where
  "consider_all score window sel best candidates [] = Inr (sel, candidates)"
| "consider_all score window sel best candidates (key # rest) =
     (if window \<le> candidates then Inr (sel, candidates)
      else
        (case score key of
           Inl e \<Rightarrow> Inl e
         | Inr s \<Rightarrow>
             if candidates = 0 \<or> best < s
             then consider_all score window key s (candidates + 1) rest
             else consider_all score window sel best (candidates + 1) rest))"

definition lease_scored ::
  "worker_id \<Rightarrow> scorer option \<Rightarrow> nat \<Rightarrow> frontier \<Rightarrow> (frontier, ticket option) outcome" where
  "lease_scored worker scorer window f =
     (case ensure_healthy f of
        Some e \<Rightarrow> (Inl e, f)
      | None \<Rightarrow>
          if f_policy f = Priority then lease worker f
          else
            (case scorer of
               None \<Rightarrow> (Inl (Invalid_argument ''Frontier locality needs a scorer and nonzero window''), f)
             | Some score \<Rightarrow>
                 if window = 0
                 then (Inl (Invalid_argument ''Frontier locality needs a scorer and nonzero window''), f)
                 else if f_pending f = [] then (Inr None, f)
                 else
                   (let candidates =
                      (if f_policy f = Bfs
                       then (case (f_bfs_pending f, f_active_layers f) of
                               (((d, s), key) # rest, (layer, _) # _) \<Rightarrow>
                                 if d \<noteq> layer then Inr None
                                 else Inr (Some (map snd
                                        (takeWhile (\<lambda>((d', _), _). d' = layer) (f_bfs_pending f))))
                             | _ \<Rightarrow> Inl Undefined_behaviour)
                       else Inr (Some (map snd (rev (f_pending f)))))
                    in case candidates of
                         Inl e \<Rightarrow> (Inl e, f)
                       | Inr None \<Rightarrow> (Inr None, f)
                       | Inr (Some keys) \<Rightarrow>
                           (case consider_all score window 0 0 0 keys of
                              Inl e \<Rightarrow> (Inl e, f)
                            | Inr (key, count) \<Rightarrow>
                                (case finalize_lease worker key count f of
                                   (Inl e, f') \<Rightarrow> (Inl e, f')
                                 | (Inr t, f') \<Rightarrow> (Inr (Some t), f'))))))"

fun phase_of_result :: "result_kind \<Rightarrow> node_phase" where
  "phase_of_result R_Expanded = Expanded"
| "phase_of_result R_Terminal = Terminal"
| "phase_of_result R_DepthCut = DepthCut"
| "phase_of_result R_ModelBudget = ModelBudget"
| "phase_of_result R_Failure = Failure"

definition missing_keys :: "frontier \<Rightarrow> state_key list \<Rightarrow> state_key list" where
  "missing_keys f keys = remdups (filter (\<lambda>k. map_of (f_nodes f) k = None) keys)"

text \<open>The checks of \<open>commit\<close>, in source order; \<open>None\<close> when they all pass.\<close>

definition commit_check :: "ticket \<Rightarrow> expansion \<Rightarrow> frontier \<Rightarrow> exn option" where
  "commit_check t e f =
     (case ensure_healthy f of
        Some x \<Rightarrow> Some x
      | None \<Rightarrow>
          (case map_of (f_nodes f) (t_state t) of
             None \<Rightarrow> Some (Invalid_argument ''stale or invalid frontier lease'')
           | Some n \<Rightarrow>
               if n_phase n \<noteq> Inflight
                  \<or> (case n_ticket n of
                       None \<Rightarrow> True
                     | Some u \<Rightarrow> t_worker u \<noteq> t_worker t \<or> t_lease_id u \<noteq> t_lease_id t
                                 \<or> t_depth u \<noteq> t_depth t \<or> t_may_expand u \<noteq> t_may_expand t)
               then Some (Invalid_argument ''stale or invalid frontier lease'')
               else
                 (let phase = phase_of_result (e_kind e)
                  in if (\<not> t_may_expand t \<and> phase = Expanded) \<or> (t_may_expand t \<and> phase = DepthCut)
                     then Some (Invalid_argument ''expansion result incompatible with probe lease'')
                     else if phase \<noteq> Expanded \<and> e_successors e \<noteq> []
                     then Some (Invalid_argument
                            ''incomplete or terminal expansion cannot publish successors'')
                     else if (phase = ModelBudget \<or> phase = Failure) \<and> e_reason e = []
                     then Some (Invalid_argument ''cutoff/failure requires a reason'')
                     else if f_max_states f - length (f_nodes f)
                             < length (missing_keys f (e_successors e))
                     then Some (Length_error ''frontier capacity exceeded'')
                     else if uint (- 1 - f_next_sequence f)
                             < int (length (missing_keys f (e_successors e)))
                     then Some (Overflow_error ''frontier sequence exhausted'')
                     else None)))"

text \<open>
  \<open>for (auto key : node.successors) propagate(key, node.depth + 1);\<close> reads the depth of the
  committed node again before each call.
\<close>

fun propagate_successors ::
  "state_key \<Rightarrow> state_key list \<Rightarrow> frontier \<Rightarrow> (frontier, unit) outcome" where
  "propagate_successors src [] f = (Inr (), f)"
| "propagate_successors src (key # keys) f =
     (case map_of (f_nodes f) src of
        None \<Rightarrow> (Inl Undefined_behaviour, f)
      | Some n \<Rightarrow>
          (case propagate key (n_depth n + 1) f of
             (Inl e, f') \<Rightarrow> (Inl e, f')
           | (Inr _, f') \<Rightarrow> propagate_successors src keys f'))"

definition commit_store :: "ticket \<Rightarrow> expansion \<Rightarrow> frontier \<Rightarrow> frontier" where
  "commit_store t e f =
     (case map_of (f_nodes f) (t_state t) of
        None \<Rightarrow> f
      | Some n \<Rightarrow>
          (let phase = phase_of_result (e_kind e);
               n1 = n\<lparr>n_successors := e_successors e, n_reason := e_reason e\<rparr>;
               p1 = (if phase = DepthCut \<and> n_depth n1 < f_limit f then Pending else phase);
               f1 = update_node (t_state t) n1 p1 (n_depth n1) f;
               n2 = n1\<lparr>n_phase := p1, n_ticket := None\<rparr>
           in f1\<lparr>f_nodes := om_put (t_state t) n2 (f_nodes f1)\<rparr>))"

definition commit :: "ticket \<Rightarrow> expansion \<Rightarrow> frontier \<Rightarrow> (frontier, unit) outcome" where
  "commit t e f =
     (case commit_check t e f of
        Some x \<Rightarrow> (Inl x, f)
      | None \<Rightarrow>
          (case propagate_successors (t_state t) (e_successors e) (commit_store t e f) of
             (Inl x, f') \<Rightarrow> (Inl x, f')
           | (Inr _, f') \<Rightarrow>
               (Inr (), f'\<lparr>f_counters :=
                  (f_counters f')\<lparr>c_committed := c_committed (f_counters f') + 1\<rparr>\<rparr>)))"

fun requeue_worker ::
  "worker_id \<Rightarrow> (state_key \<times> node) list \<Rightarrow> frontier \<Rightarrow> nat \<times> frontier" where
  "requeue_worker worker [] f = (0, f)"
| "requeue_worker worker ((key, n) # rest) f =
     (case n_ticket n of
        Some t \<Rightarrow>
          if t_worker t = worker
          then
            (let f1 = update_node key n Pending (n_depth n) f;
                 n1 = n\<lparr>n_phase := Pending, n_ticket := None\<rparr>;
                 (c, f2) = requeue_worker worker rest (f1\<lparr>f_nodes := om_put key n1 (f_nodes f1)\<rparr>)
             in (Suc c, f2))
          else requeue_worker worker rest f
      | None \<Rightarrow> requeue_worker worker rest f)"

definition worker_lost :: "worker_id \<Rightarrow> frontier \<Rightarrow> (frontier, nat) outcome" where
  "worker_lost worker f =
     (case ensure_healthy f of
        Some e \<Rightarrow> (Inl e, f)
      | None \<Rightarrow>
          (let (count, f1) = requeue_worker worker (f_nodes f) f
           in (Inr count, f1\<lparr>f_counters :=
                 (f_counters f1)\<lparr>c_requeued := c_requeued (f_counters f1) + of_nat count\<rparr>\<rparr>)))"

definition frontier_status :: "frontier \<Rightarrow> status" where
  "frontier_status f =
     (let count = (\<lambda>p. f_phase_counts f ! phase_index p)
      in if f_poisoned f then Failed
         else if count Failure \<noteq> 0 then Failed
         else if count Pending \<noteq> 0 \<or> count Inflight \<noteq> 0 then Running
         else if count DepthCut \<noteq> 0 \<or> count ModelBudget \<noteq> 0 then Bounded
         else Complete)"

end
