(* ===== verification/Frontier_Index.thy ===== *)
theory Frontier_Index
  imports Frontier
begin

text \<open>
  The dispatch indexes of the frontier always agree with its node table: \<open>pending_\<close> and
  \<open>bfs_pending_\<close> hold exactly the pending nodes, \<open>active_layers_\<close> and \<open>phase_counts_\<close> count
  exactly the nodes they claim to count. Each operation that touches a node is a composition
  of \<open>reindex\<close> (remove the old node, add the changed one) and of updates that leave the
  indexed fields alone.
\<close>

section \<open>The index invariant\<close>

definition counts_inv :: "frontier \<Rightarrow> bool" where
  "counts_inv f \<longleftrightarrow> length (f_phase_counts f) = 7 \<and>
     (\<forall>p. f_phase_counts f ! phase_index p = om_count (\<lambda>n. n_phase n = p) (f_nodes f))"

definition pending_inv :: "frontier \<Rightarrow> bool" where
  "pending_inv f \<longleftrightarrow> om_ok (f_pending f) \<and>
     (\<forall>s k. map_of (f_pending f) s = Some k \<longleftrightarrow>
        (\<exists>n. map_of (f_nodes f) k = Some n \<and> n_phase n = Pending \<and> n_sequence n = s))"

definition bfs_inv :: "frontier \<Rightarrow> bool" where
  "bfs_inv f \<longleftrightarrow> om_ok (f_bfs_pending f) \<and>
     (f_policy f = Bfs \<longrightarrow> (\<forall>d s k. map_of (f_bfs_pending f) (d, s) = Some k \<longleftrightarrow>
        (\<exists>n. map_of (f_nodes f) k = Some n \<and> n_phase n = Pending \<and> n_depth n = d \<and>
             n_sequence n = s)))"

definition nonzero :: "nat \<Rightarrow> nat option" where
  "nonzero c = (if c = 0 then None else Some c)"

definition layer_count :: "frontier \<Rightarrow> u64 \<Rightarrow> nat" where
  "layer_count f d = om_count (\<lambda>n. active_phase (n_phase n) \<and> n_depth n = d) (f_nodes f)"

definition layers_inv :: "frontier \<Rightarrow> bool" where
  "layers_inv f \<longleftrightarrow> om_ok (f_active_layers f) \<and>
     (f_policy f = Bfs \<longrightarrow> (\<forall>d. map_of (f_active_layers f) d = nonzero (layer_count f d)))"

definition seq_inv :: "frontier \<Rightarrow> bool" where
  "seq_inv f \<longleftrightarrow>
     (\<forall>k n. map_of (f_nodes f) k = Some n \<longrightarrow> n_sequence n < f_next_sequence f) \<and>
     (\<forall>k k' n n'. map_of (f_nodes f) k = Some n \<longrightarrow> map_of (f_nodes f) k' = Some n' \<longrightarrow>
        n_sequence n = n_sequence n' \<longrightarrow> k = k')"

definition index_inv :: "frontier \<Rightarrow> bool" where
  "index_inv f \<longleftrightarrow> om_ok (f_nodes f) \<and> counts_inv f \<and> pending_inv f \<and> bfs_inv f \<and> layers_inv f \<and>
     seq_inv f"

lemma index_invD:
  assumes "index_inv f"
  shows "om_ok (f_nodes f)" "counts_inv f" "pending_inv f" "bfs_inv f" "layers_inv f" "seq_inv f"
  using assms by (auto simp: index_inv_def)

lemma phase_index_less [simp]: "phase_index p < 7"
  by (cases p) auto

lemma phase_index_inj [simp]: "phase_index p = phase_index q \<longleftrightarrow> p = q"
  by (cases p; cases q) auto

lemma index_inv_new:
  "new_frontier l p pr m = Inr f \<Longrightarrow> index_inv f"
  by (auto simp: new_frontier_def index_inv_def counts_inv_def pending_inv_def bfs_inv_def
        layers_inv_def seq_inv_def om_count_def layer_count_def nonzero_def split: if_splits)

section \<open>Replacing a node\<close>

definition reindex :: "state_key \<Rightarrow> node \<Rightarrow> node \<Rightarrow> frontier \<Rightarrow> frontier" where
  "reindex k n n1 f = index_add k n1 ((index_remove n f)\<lparr>f_nodes := om_put k n1 (f_nodes f)\<rparr>)"

lemma update_node_reindex:
  "update_node k n p d f = reindex k n (n\<lparr>n_phase := p, n_depth := d\<rparr>) f"
  by (simp add: update_node_def reindex_def Let_def)

lemma frame_index_add [simp]:
  "f_next_sequence (index_add k n f) = f_next_sequence f"
  "f_limit (index_add k n f) = f_limit f"
  "f_policy (index_add k n f) = f_policy f"
  "f_max_states (index_add k n f) = f_max_states f"
  "f_next_lease (index_add k n f) = f_next_lease f"
  "f_poisoned (index_add k n f) = f_poisoned f"
  "f_priority (index_add k n f) = f_priority f"
  "f_counters (index_add k n f) = f_counters f"
  by (simp_all add: index_add_def)

lemma frame_index_remove [simp]:
  "f_next_sequence (index_remove n f) = f_next_sequence f"
  "f_limit (index_remove n f) = f_limit f"
  "f_policy (index_remove n f) = f_policy f"
  "f_max_states (index_remove n f) = f_max_states f"
  "f_next_lease (index_remove n f) = f_next_lease f"
  "f_poisoned (index_remove n f) = f_poisoned f"
  "f_priority (index_remove n f) = f_priority f"
  "f_counters (index_remove n f) = f_counters f"
  by (simp_all add: index_remove_def)

lemma frame_reindex [simp]:
  "f_nodes (reindex k n n1 f) = om_put k n1 (f_nodes f)"
  "f_next_sequence (reindex k n n1 f) = f_next_sequence f"
  "f_limit (reindex k n n1 f) = f_limit f"
  "f_policy (reindex k n n1 f) = f_policy f"
  "f_max_states (reindex k n n1 f) = f_max_states f"
  "f_next_lease (reindex k n n1 f) = f_next_lease f"
  "f_poisoned (reindex k n n1 f) = f_poisoned f"
  "f_priority (reindex k n n1 f) = f_priority f"
  "f_counters (reindex k n n1 f) = f_counters f"
  by (simp_all add: reindex_def)

lemma counts_inv_reindex:
  assumes "counts_inv f" "om_ok (f_nodes f)" "map_of (f_nodes f) k = Some n"
  shows "counts_inv (reindex k n n1 f)"
proof -
  have pos: "0 < f_phase_counts f ! phase_index (n_phase n)"
    using assms om_count_pos [of "f_nodes f" k n "\<lambda>m. n_phase m = n_phase n"]
    by (simp add: counts_inv_def)
  have step: "om_count (\<lambda>m. n_phase m = p) (om_put k n1 (f_nodes f)) + of_bool (n_phase n = p)
      = f_phase_counts f ! phase_index p + of_bool (n_phase n1 = p)" for p
    using om_count_put [OF assms(2), of "\<lambda>m. n_phase m = p" k n1] assms(1,3)
    by (simp add: counts_inv_def)
  have "f_phase_counts (reindex k n n1 f) ! phase_index p
      = om_count (\<lambda>m. n_phase m = p) (om_put k n1 (f_nodes f))" for p
    using step [of p] pos assms(1)
    by (auto simp: counts_inv_def reindex_def index_add_def index_remove_def nth_list_update)
  then show ?thesis
    using assms(1) by (simp add: counts_inv_def reindex_def index_add_def index_remove_def)
qed

lemma seq_inv_unique:
  "seq_inv f \<Longrightarrow> map_of (f_nodes f) k = Some n \<Longrightarrow> map_of (f_nodes f) k' = Some n' \<Longrightarrow>
     n_sequence n' = n_sequence n \<Longrightarrow> k' = k"
  unfolding seq_inv_def by metis

lemma pending_inv_reindex:
  assumes "pending_inv f" "seq_inv f" "map_of (f_nodes f) k = Some n"
    and "n_sequence n1 = n_sequence n"
  shows "pending_inv (reindex k n n1 f)"
proof -
  have uniq: "k' = k" if "map_of (f_nodes f) k' = Some n'" "n_sequence n' = n_sequence n" for k' n'
    using assms(2,3) that by (rule seq_inv_unique)
  have there: "map_of (f_pending f) s = Some k' \<longleftrightarrow>
      (\<exists>n. map_of (f_nodes f) k' = Some n \<and> n_phase n = Pending \<and> n_sequence n = s)" for s k'
    using assms(1) unfolding pending_inv_def by blast
  have here: "map_of (f_pending f) (n_sequence n) = (if n_phase n = Pending then Some k else None)"
  proof (rule option_ifI)
    show "map_of (f_pending f) (n_sequence n) = Some k' \<longleftrightarrow> k' = k \<and> n_phase n = Pending" for k'
      using there [of "n_sequence n" k'] uniq [of k'] assms(3) by auto
  qed
  have "map_of (f_pending (reindex k n n1 f)) s = Some k' \<longleftrightarrow>
      (\<exists>m. map_of (om_put k n1 (f_nodes f)) k' = Some m \<and> n_phase m = Pending \<and> n_sequence m = s)"
    for s k'
  proof (cases "s = n_sequence n")
    case True
    then show ?thesis
      using assms(4) here uniq [of k']
      by (auto simp: reindex_def index_add_def index_remove_def map_of_om_emplace split: if_splits)
  next
    case False
    have "map_of (f_pending (reindex k n n1 f)) s = map_of (f_pending f) s"
      using False assms(4) by (simp add: reindex_def index_add_def index_remove_def map_of_om_emplace)
    with False there [of s k'] assms(3,4) show ?thesis by auto
  qed
  moreover have "om_ok (f_pending (reindex k n n1 f))"
    using assms(1) by (simp add: pending_inv_def reindex_def index_add_def index_remove_def)
  ultimately show ?thesis
    unfolding pending_inv_def by simp
qed

lemma bfs_inv_reindex:
  assumes "bfs_inv f" "seq_inv f" "map_of (f_nodes f) k = Some n"
    and "n_sequence n1 = n_sequence n"
  shows "bfs_inv (reindex k n n1 f)"
proof -
  have uniq: "k' = k" if "map_of (f_nodes f) k' = Some n'" "n_sequence n' = n_sequence n" for k' n'
    using assms(2,3) that by (rule seq_inv_unique)
  have "map_of (f_bfs_pending (reindex k n n1 f)) (d, s) = Some k' \<longleftrightarrow>
      (\<exists>m. map_of (om_put k n1 (f_nodes f)) k' = Some m \<and> n_phase m = Pending \<and>
           n_depth m = d \<and> n_sequence m = s)"
    if bfs: "f_policy f = Bfs" for d s k'
  proof -
    have there: "map_of (f_bfs_pending f) (d, s) = Some k' \<longleftrightarrow>
        (\<exists>n. map_of (f_nodes f) k' = Some n \<and> n_phase n = Pending \<and> n_depth n = d \<and>
             n_sequence n = s)" for d s k'
      using assms(1) bfs unfolding bfs_inv_def by blast
    have here: "map_of (f_bfs_pending f) (d, n_sequence n)
        = (if n_phase n = Pending \<and> n_depth n = d then Some k else None)" for d
    proof (rule option_ifI)
      show "map_of (f_bfs_pending f) (d, n_sequence n) = Some k' \<longleftrightarrow>
          k' = k \<and> n_phase n = Pending \<and> n_depth n = d" for k'
        using there [of d "n_sequence n" k'] uniq [of k'] assms(3) by auto
    qed
    show ?thesis
    proof (cases "s = n_sequence n")
      case True
      then show ?thesis
        using assms(4) here [of d] uniq [of k'] bfs
        by (auto simp: reindex_def index_add_def index_remove_def map_of_om_emplace split: if_splits)
    next
      case False
      have "map_of (f_bfs_pending (reindex k n n1 f)) (d, s) = map_of (f_bfs_pending f) (d, s)"
        using False assms(4)
        by (simp add: reindex_def index_add_def index_remove_def map_of_om_emplace)
      with False there [of d s k'] assms(3,4) show ?thesis by auto
    qed
  qed
  moreover have "om_ok (f_bfs_pending (reindex k n n1 f))"
    using assms(1) by (simp add: bfs_inv_def reindex_def index_add_def index_remove_def)
  ultimately show ?thesis
    unfolding bfs_inv_def by simp
qed

lemma map_of_layer_inc:
  "map_of (layer_inc d m) = (map_of m)(d \<mapsto> (case map_of m d of None \<Rightarrow> 1 | Some c \<Rightarrow> Suc c))"
  by (simp add: layer_inc_def)

lemma om_ok_layer_inc [simp]: "om_ok m \<Longrightarrow> om_ok (layer_inc d m)"
  by (simp add: layer_inc_def)

lemma om_ok_layer_dec [simp]: "om_ok m \<Longrightarrow> om_ok (layer_dec d m)"
  by (simp add: layer_dec_def split: option.split)

lemma layer_inc_nonzero:
  "map_of m d = nonzero c \<Longrightarrow> map_of (layer_inc d m) = (map_of m)(d := nonzero (Suc c))"
  by (auto simp: map_of_layer_inc nonzero_def split: if_splits)

lemma layer_dec_nonzero:
  "map_of m d = nonzero (Suc c) \<Longrightarrow> map_of (layer_dec d m) = (map_of m)(d := nonzero c)"
  by (auto simp: layer_dec_def nonzero_def)

lemma layers_inv_reindex:
  assumes "layers_inv f" "om_ok (f_nodes f)" "map_of (f_nodes f) k = Some n"
  shows "layers_inv (reindex k n n1 f)"
proof -
  define a where "a n d \<longleftrightarrow> active_phase (n_phase n) \<and> n_depth n = d" for n :: node and d
  have step: "om_count (\<lambda>m. a m d) (om_put k n1 (f_nodes f)) + of_bool (a n d)
      = om_count (\<lambda>m. a m d) (f_nodes f) + of_bool (a n1 d)" for d
    using om_count_put [OF assms(2), of "\<lambda>m. a m d" k n1] assms(3) by simp
  have pos: "a n d \<Longrightarrow> 0 < om_count (\<lambda>m. a m d) (f_nodes f)" for d
    using om_count_pos [OF assms(2,3), of "\<lambda>m. a m d"] by simp
  have "map_of (f_active_layers (reindex k n n1 f)) d = nonzero (layer_count (reindex k n n1 f) d)"
    if bfs: "f_policy f = Bfs" for d
  proof -
    have old: "map_of (f_active_layers f) d = nonzero (om_count (\<lambda>m. a m d) (f_nodes f))" for d
      using assms(1) bfs by (simp add: layers_inv_def layer_count_def a_def)
    let ?g = "index_remove n f"
    have mid: "map_of (f_active_layers ?g) d
        = nonzero (om_count (\<lambda>m. a m d) (f_nodes f) - of_bool (a n d))" for d
    proof (cases "active_phase (n_phase n)")
      case True
      have "map_of (f_active_layers f) (n_depth n)
          = nonzero (Suc (om_count (\<lambda>m. a m (n_depth n)) (f_nodes f) - 1))"
        using old [of "n_depth n"] pos [of "n_depth n"] True by (simp add: a_def)
      from layer_dec_nonzero [OF this] old [of d] True bfs show ?thesis
        by (auto simp: index_remove_def a_def)
    next
      case False
      with old [of d] show ?thesis by (simp add: index_remove_def a_def)
    qed
    have "map_of (f_active_layers (reindex k n n1 f)) d
        = nonzero (om_count (\<lambda>m. a m d) (f_nodes f) - of_bool (a n d) + of_bool (a n1 d))"
    proof (cases "active_phase (n_phase n1)")
      case True
      have "map_of (f_active_layers ?g) (n_depth n1)
        = nonzero (om_count (\<lambda>m. a m (n_depth n1)) (f_nodes f) - of_bool (a n (n_depth n1)))"
        by (rule mid)
      from layer_inc_nonzero [OF this] mid [of d] True bfs show ?thesis
        by (auto simp: reindex_def index_add_def a_def)
    next
      case False
      with mid [of d] show ?thesis by (simp add: reindex_def index_add_def a_def)
    qed
    moreover have "om_count (\<lambda>m. a m d) (f_nodes f) - of_bool (a n d) + of_bool (a n1 d)
        = layer_count (reindex k n n1 f) d"
      using step [of d] pos [of d] by (auto simp: layer_count_def a_def of_bool_def split: if_splits)
    ultimately show ?thesis by simp
  qed
  moreover have "om_ok (f_active_layers (reindex k n n1 f))"
    using assms(1) by (simp add: layers_inv_def reindex_def index_add_def index_remove_def)
  ultimately show ?thesis
    unfolding layers_inv_def by simp
qed

lemma seq_inv_reindex:
  "seq_inv f \<Longrightarrow> map_of (f_nodes f) k = Some n \<Longrightarrow> n_sequence n1 = n_sequence n \<Longrightarrow>
     seq_inv (reindex k n n1 f)"
  unfolding seq_inv_def by auto

lemma index_inv_reindex:
  "index_inv f \<Longrightarrow> map_of (f_nodes f) k = Some n \<Longrightarrow> n_sequence n1 = n_sequence n \<Longrightarrow>
     index_inv (reindex k n n1 f)"
  by (simp add: index_inv_def counts_inv_reindex pending_inv_reindex bfs_inv_reindex
        layers_inv_reindex seq_inv_reindex)

section \<open>Updates that leave the indexed fields alone\<close>

definition same_index :: "node \<Rightarrow> node \<Rightarrow> bool" where
  "same_index n n1 \<longleftrightarrow> n_phase n1 = n_phase n \<and> n_depth n1 = n_depth n \<and> n_sequence n1 = n_sequence n"

lemma om_count_put_same:
  "om_ok m \<Longrightarrow> map_of m k = Some n \<Longrightarrow> P n = P n1 \<Longrightarrow> om_count P (om_put k n1 m) = om_count P m"
  using om_count_put [of m P k n1] by simp

lemma index_inv_store:
  assumes "index_inv f" "map_of (f_nodes f) k = Some n" "same_index n n1"
  shows "index_inv (f\<lparr>f_nodes := om_put k n1 (f_nodes f)\<rparr>)"
  using assms
  by (auto simp: index_inv_def counts_inv_def pending_inv_def bfs_inv_def layers_inv_def
        layer_count_def seq_inv_def same_index_def om_count_put_same [of "f_nodes f" k n]
        intro: exI)

lemma index_inv_counters [simp]: "index_inv (f\<lparr>f_counters := c\<rparr>) = index_inv f"
  by (simp add: index_inv_def counts_inv_def pending_inv_def bfs_inv_def layers_inv_def
        layer_count_def seq_inv_def)

lemma index_inv_next_lease [simp]: "index_inv (f\<lparr>f_next_lease := l\<rparr>) = index_inv f"
  by (simp add: index_inv_def counts_inv_def pending_inv_def bfs_inv_def layers_inv_def
        layer_count_def seq_inv_def)

section \<open>Inserting a node\<close>

definition fresh_node :: "u64 \<Rightarrow> frontier \<Rightarrow> node" where
  "fresh_node d f = \<lparr>n_depth = d, n_phase = Pending, n_sequence = f_next_sequence f, n_ticket = None,
                     n_successors = [], n_reason = []\<rparr>"

lemma fresh_node_simps [simp]:
  "n_depth (fresh_node d f) = d" "n_phase (fresh_node d f) = Pending"
  "n_sequence (fresh_node d f) = f_next_sequence f" "n_ticket (fresh_node d f) = None"
  "n_successors (fresh_node d f) = []"
  by (simp_all add: fresh_node_def)

definition insert_indexed :: "state_key \<Rightarrow> u64 \<Rightarrow> frontier \<Rightarrow> frontier" where
  "insert_indexed k d f = index_add k (fresh_node d f)
     (f\<lparr>f_next_sequence := f_next_sequence f + 1, f_nodes := om_put k (fresh_node d f) (f_nodes f)\<rparr>)"

lemma insert_node_indexed:
  "\<exists>c. insert_node k d f = (insert_indexed k d f)\<lparr>f_counters := c\<rparr>"
  by (auto simp: insert_node_def insert_indexed_def fresh_node_def Let_def)

lemma frame_insert_indexed [simp]:
  "f_nodes (insert_indexed k d f) = om_put k (fresh_node d f) (f_nodes f)"
  "f_next_sequence (insert_indexed k d f) = f_next_sequence f + 1"
  "f_policy (insert_indexed k d f) = f_policy f"
  by (simp_all add: insert_indexed_def)

lemma seq_fresh:
  assumes "seq_inv f" "map_of (f_nodes f) k = Some n"
  shows "n_sequence n \<noteq> f_next_sequence f"
  using assms unfolding seq_inv_def by (metis less_irrefl)

lemma counts_inv_insert:
  "counts_inv f \<Longrightarrow> om_ok (f_nodes f) \<Longrightarrow> map_of (f_nodes f) k = None \<Longrightarrow>
     counts_inv (insert_indexed k d f)"
  unfolding counts_inv_def
  by (auto simp: om_count_put_new insert_indexed_def index_add_def nth_list_update
      simp del: phase_index.simps)

lemma pending_inv_insert:
  assumes "pending_inv f" "seq_inv f" "map_of (f_nodes f) k = None"
  shows "pending_inv (insert_indexed k d f)"
proof -
  have there: "map_of (f_pending f) s = Some k' \<longleftrightarrow>
      (\<exists>n. map_of (f_nodes f) k' = Some n \<and> n_phase n = Pending \<and> n_sequence n = s)" for s k'
    using assms(1) unfolding pending_inv_def by blast
  have "map_of (f_pending f) (f_next_sequence f) \<noteq> Some k'" for k'
    using there [of "f_next_sequence f" k'] seq_fresh [OF assms(2), of k'] by auto
  then have none: "map_of (f_pending f) (f_next_sequence f) = None" by auto
  have "map_of (f_pending (insert_indexed k d f)) s = Some k' \<longleftrightarrow>
      (\<exists>m. map_of (om_put k (fresh_node d f) (f_nodes f)) k' = Some m \<and> n_phase m = Pending \<and>
           n_sequence m = s)" for s k'
    using none there [of s k'] seq_fresh [OF assms(2), of k'] assms(3)
    by (auto simp: insert_indexed_def index_add_def map_of_om_emplace)
  moreover have "om_ok (f_pending (insert_indexed k d f))"
    using assms(1) by (simp add: pending_inv_def insert_indexed_def index_add_def)
  ultimately show ?thesis unfolding pending_inv_def by simp
qed

lemma bfs_inv_insert:
  assumes "bfs_inv f" "seq_inv f" "map_of (f_nodes f) k = None"
  shows "bfs_inv (insert_indexed k d f)"
proof -
  have "map_of (f_bfs_pending (insert_indexed k d f)) (d', s) = Some k' \<longleftrightarrow>
      (\<exists>m. map_of (om_put k (fresh_node d f) (f_nodes f)) k' = Some m \<and> n_phase m = Pending \<and>
           n_depth m = d' \<and> n_sequence m = s)" if bfs: "f_policy f = Bfs" for d' s k'
  proof -
    have there: "map_of (f_bfs_pending f) (d, s) = Some k' \<longleftrightarrow>
        (\<exists>n. map_of (f_nodes f) k' = Some n \<and> n_phase n = Pending \<and> n_depth n = d \<and>
             n_sequence n = s)" for d s k'
      using assms(1) bfs unfolding bfs_inv_def by blast
    have "map_of (f_bfs_pending f) (d, f_next_sequence f) \<noteq> Some k'" for k'
      using there [of d "f_next_sequence f" k'] seq_fresh [OF assms(2), of k'] by auto
    then have none: "map_of (f_bfs_pending f) (d, f_next_sequence f) = None" by auto
    show ?thesis
      using none there [of d' s k'] seq_fresh [OF assms(2), of k'] assms(3) bfs
      by (auto simp: insert_indexed_def index_add_def map_of_om_emplace)
  qed
  moreover have "om_ok (f_bfs_pending (insert_indexed k d f))"
    using assms(1) by (simp add: bfs_inv_def insert_indexed_def index_add_def)
  ultimately show ?thesis unfolding bfs_inv_def by simp
qed

lemma layers_inv_insert:
  assumes "layers_inv f" "om_ok (f_nodes f)" "map_of (f_nodes f) k = None"
  shows "layers_inv (insert_indexed k d f)"
proof -
  have "map_of (f_active_layers (insert_indexed k d f)) d' = nonzero (layer_count (insert_indexed k d f) d')"
    if bfs: "f_policy f = Bfs" for d'
  proof -
    have old: "map_of (f_active_layers f) d = nonzero (layer_count f d)" for d
      using assms(1) bfs by (simp add: layers_inv_def)
    have "layer_count (insert_indexed k d f) d' = layer_count f d' + of_bool (d = d')"
      using assms(2,3) by (simp add: layer_count_def om_count_put_new active_phase_def)
    with layer_inc_nonzero [OF old [of d]] old [of d'] bfs show ?thesis
      by (auto simp: insert_indexed_def index_add_def active_phase_def)
  qed
  moreover have "om_ok (f_active_layers (insert_indexed k d f))"
    using assms(1) by (simp add: layers_inv_def insert_indexed_def index_add_def)
  ultimately show ?thesis unfolding layers_inv_def by simp
qed

lemma seq_inv_insert:
  assumes "seq_inv f" "f_next_sequence f \<noteq> - 1"
  shows "seq_inv (insert_indexed k d f)"
proof -
  have lt: "s < f_next_sequence f + 1 \<longleftrightarrow> s < f_next_sequence f \<or> s = f_next_sequence f" for s
    using assms(2) by (metis add.commute inc_less_eq_iff not_less word_le_less_eq)
  show ?thesis
    unfolding seq_inv_def
  proof (intro conjI allI impI)
    fix k1 n1 assume "map_of (f_nodes (insert_indexed k d f)) k1 = Some n1"
    then show "n_sequence n1 < f_next_sequence (insert_indexed k d f)"
      using assms(1) by (auto simp: seq_inv_def lt split: if_splits)
  next
    fix k1 k2 n1 n2
    assume "map_of (f_nodes (insert_indexed k d f)) k1 = Some n1"
      "map_of (f_nodes (insert_indexed k d f)) k2 = Some n2" "n_sequence n1 = n_sequence n2"
    then show "k1 = k2"
      using seq_inv_unique [OF assms(1), of k2 n2 k1 n1] seq_fresh [OF assms(1), of k1 n1]
        seq_fresh [OF assms(1), of k2 n2]
      by (auto split: if_splits)
  qed
qed

lemma index_inv_insert_node:
  assumes "index_inv f" "map_of (f_nodes f) k = None" "f_next_sequence f \<noteq> - 1"
  shows "index_inv (insert_node k d f)"
proof -
  have "index_inv (insert_indexed k d f)"
    using assms by (simp add: index_inv_def counts_inv_insert pending_inv_insert bfs_inv_insert
        layers_inv_insert seq_inv_insert)
  then show ?thesis using insert_node_indexed [of k d f] by auto
qed

end
