(* ===== verification/Frontier_Inv.thy ===== *)
theory Frontier_Inv
  imports Frontier_Index
begin

text \<open>
  The invariant of the frontier and its preservation by every operation. Besides the index
  invariant of \<open>Frontier_Index\<close> it says what a node may record (depth, lease and successors by
  phase), that leases have distinct identifiers, and that the recorded depths are relaxed: the
  successors of an expanded node are recorded at most one level deeper. The propagation loop
  is treated as a step relation on its work list, so each part of the invariant is a step
  argument, and the loop itself is related to the steps once.
\<close>

section \<open>The invariant\<close>

definition ticket_ok :: "frontier \<Rightarrow> state_key \<Rightarrow> node \<Rightarrow> ticket \<Rightarrow> bool" where
  "ticket_ok f k n t \<longleftrightarrow> t_state t = k \<and> t_lease_id t \<le> f_next_lease f \<and> n_depth n \<le> t_depth t \<and>
     t_depth t \<le> f_limit f \<and> (t_may_expand t \<longleftrightarrow> t_depth t < f_limit f)"

definition node_ok :: "frontier \<Rightarrow> state_key \<Rightarrow> node \<Rightarrow> bool" where
  "node_ok f k n \<longleftrightarrow> n_depth n \<le> f_limit f \<and>
     (n_phase n = Inflight \<longleftrightarrow> n_ticket n \<noteq> None) \<and>
     (\<forall>t. n_ticket n = Some t \<longrightarrow> ticket_ok f k n t) \<and>
     (n_phase n = Expanded \<longrightarrow> n_depth n < f_limit f) \<and>
     (n_phase n = DepthCut \<longrightarrow> n_depth n = f_limit f) \<and>
     (n_phase n \<noteq> Expanded \<longrightarrow> n_successors n = [])"

definition nodes_ok :: "frontier \<Rightarrow> bool" where
  "nodes_ok f \<longleftrightarrow> (\<forall>k n. map_of (f_nodes f) k = Some n \<longrightarrow> node_ok f k n)"

definition relaxed :: "(state_key \<times> u64) set \<Rightarrow> frontier \<Rightarrow> bool" where
  "relaxed W f \<longleftrightarrow> (\<forall>k n s. map_of (f_nodes f) k = Some n \<longrightarrow> n_phase n = Expanded \<longrightarrow>
     s \<in> set (n_successors n) \<longrightarrow>
     (\<exists>m. map_of (f_nodes f) s = Some m \<and> n_depth m \<le> n_depth n + 1) \<or>
     (\<exists>d. (s, d) \<in> W \<and> d \<le> n_depth n + 1))"

definition lease_inv :: "frontier \<Rightarrow> bool" where
  "lease_inv f \<longleftrightarrow> (\<forall>k k' n n' t t'. map_of (f_nodes f) k = Some n \<longrightarrow> map_of (f_nodes f) k' = Some n' \<longrightarrow>
     n_ticket n = Some t \<longrightarrow> n_ticket n' = Some t' \<longrightarrow> t_lease_id t = t_lease_id t' \<longrightarrow> k = k')"

definition frontier_inv :: "frontier \<Rightarrow> bool" where
  "frontier_inv f \<longleftrightarrow> index_inv f \<and> nodes_ok f \<and> relaxed {} f \<and> lease_inv f \<and>
     length (f_nodes f) \<le> f_max_states f \<and> (f_policy f = Priority \<longleftrightarrow> f_priority f \<noteq> None)"

section \<open>Replacing one node\<close>

lemma node_ok_mono:
  "node_ok f k n \<Longrightarrow> f_limit f' = f_limit f \<Longrightarrow> f_next_lease f \<le> f_next_lease f' \<Longrightarrow> node_ok f' k n"
  by (auto simp: node_ok_def ticket_ok_def intro: order_trans [of _ "f_next_lease f" "f_next_lease f'"])

lemma nodes_ok_put:
  assumes "nodes_ok f" "f_nodes f' = om_put k n1 (f_nodes f)" "node_ok f' k n1"
    and "f_limit f' = f_limit f" "f_next_lease f \<le> f_next_lease f'"
  shows "nodes_ok f'"
  unfolding nodes_ok_def
proof (intro allI impI)
  fix k' n' assume "map_of (f_nodes f') k' = Some n'"
  then show "node_ok f' k' n'"
    using assms node_ok_mono [of f k' n' f'] by (cases "k' = k") (auto simp: nodes_ok_def)
qed

lemma relaxed_put:
  assumes "relaxed W f" "f_nodes f' = om_put k n1 (f_nodes f)"
    and less: "\<And>n. map_of (f_nodes f) k = Some n \<Longrightarrow> n_depth n1 \<le> n_depth n"
    and new: "\<And>s. n_phase n1 = Expanded \<Longrightarrow> s \<in> set (n_successors n1) \<Longrightarrow>
       (\<exists>m. map_of (f_nodes f') s = Some m \<and> n_depth m \<le> n_depth n1 + 1) \<or>
       (\<exists>d. (s, d) \<in> W' \<and> d \<le> n_depth n1 + 1)"
    and work: "\<And>s d. (s, d) \<in> W \<Longrightarrow>
       (s, d) \<in> W' \<or> (\<exists>m. map_of (f_nodes f') s = Some m \<and> n_depth m \<le> d)"
  shows "relaxed W' f'"
  unfolding relaxed_def
proof (intro allI impI)
  fix k' n' s
  assume n': "map_of (f_nodes f') k' = Some n'" "n_phase n' = Expanded" "s \<in> set (n_successors n')"
  show "(\<exists>m. map_of (f_nodes f') s = Some m \<and> n_depth m \<le> n_depth n' + 1) \<or>
        (\<exists>d. (s, d) \<in> W' \<and> d \<le> n_depth n' + 1)"
  proof (cases "k' = k")
    case True
    with n' assms(2) new show ?thesis by auto
  next
    case False
    with n' assms(2) have "map_of (f_nodes f) k' = Some n'" by simp
    with n' assms(1) consider m where "map_of (f_nodes f) s = Some m" "n_depth m \<le> n_depth n' + 1"
      | d where "(s, d) \<in> W" "d \<le> n_depth n' + 1"
      unfolding relaxed_def by blast
    then show ?thesis
    proof cases
      case 1
      then show ?thesis using less assms(2) by (cases "s = k") (auto intro: order_trans)
    next
      case 2
      then show ?thesis using work by (meson order_trans)
    qed
  qed
qed

lemma relaxed_same:
  "relaxed W f \<Longrightarrow> f_nodes f' = f_nodes f \<Longrightarrow>
   (\<And>s d. (s, d) \<in> W \<Longrightarrow> (s, d) \<in> W' \<or> (\<exists>m. map_of (f_nodes f) s = Some m \<and> n_depth m \<le> d)) \<Longrightarrow>
     relaxed W' f'"
  unfolding relaxed_def by simp (meson order_trans)

lemma lease_inv_put:
  assumes "lease_inv f" "f_nodes f' = om_put k n1 (f_nodes f)"
    and old: "\<And>t. n_ticket n1 = Some t \<Longrightarrow>
       (\<exists>n. map_of (f_nodes f) k = Some n \<and> n_ticket n = Some t) \<or>
       (\<forall>k' n' t'. map_of (f_nodes f) k' = Some n' \<longrightarrow> n_ticket n' = Some t' \<longrightarrow>
          t_lease_id t' \<noteq> t_lease_id t)"
  shows "lease_inv f'"
  unfolding lease_inv_def
proof (intro allI impI)
  fix k1 k2 n1' n2' t1 t2
  assume a: "map_of (f_nodes f') k1 = Some n1'" "map_of (f_nodes f') k2 = Some n2'"
    "n_ticket n1' = Some t1" "n_ticket n2' = Some t2" "t_lease_id t1 = t_lease_id t2"
  have old_inv: "x = y" if "map_of (f_nodes f) x = Some nx" "map_of (f_nodes f) y = Some ny"
    "n_ticket nx = Some tx" "n_ticket ny = Some ty" "t_lease_id tx = t_lease_id ty" for x y nx ny tx ty
    using assms(1) that unfolding lease_inv_def by blast
  have half: "False" if "map_of (f_nodes f) y = Some ny" "y \<noteq> k" "n_ticket n1 = Some tx"
    "n_ticket ny = Some ty" "t_lease_id tx = t_lease_id ty" for y ny tx ty
    using old [OF that(3)] old_inv [of k _ y ny tx ty] that by metis
  show "k1 = k2"
  proof (cases "k1 = k")
    case True
    with a(1) assms(2) have "n1' = n1" by simp
    with a half [of k2 n2' t1 t2] assms(2) True show ?thesis by (cases "k2 = k") auto
  next
    case False
    with a(1) assms(2) have k1: "map_of (f_nodes f) k1 = Some n1'" by simp
    show ?thesis
    proof (cases "k2 = k")
      case True
      with a(2) assms(2) have "n2' = n1" by simp
      with half [OF k1 False, of t2 t1] a show ?thesis by simp
    next
      case False
      with a(2) assms(2) have "map_of (f_nodes f) k2 = Some n2'" by simp
      from old_inv [OF k1 this a(3-5)] show ?thesis .
    qed
  qed
qed

lemma lease_inv_same: "lease_inv f \<Longrightarrow> f_nodes f' = f_nodes f \<Longrightarrow> lease_inv f'"
  by (simp add: lease_inv_def)

lemma nodes_ok_same:
  "nodes_ok f \<Longrightarrow> f_nodes f' = f_nodes f \<Longrightarrow> f_limit f' = f_limit f \<Longrightarrow>
     f_next_lease f' = f_next_lease f \<Longrightarrow> nodes_ok f'"
  by (simp add: nodes_ok_def node_ok_def ticket_ok_def)

section \<open>Propagation as steps\<close>

type_synonym work = "(state_key \<times> u64) list"

inductive pstep :: "work \<times> frontier \<Rightarrow> work \<times> frontier \<Rightarrow> bool" where
  insert: "map_of (f_nodes f) k = None \<Longrightarrow> length (f_nodes f) \<noteq> f_max_states f \<Longrightarrow>
     f_next_sequence f \<noteq> - 1 \<Longrightarrow> pstep ((k, d) # w, f) (w, insert_node k d f)"
| duplicate: "map_of (f_nodes f) k = Some n \<Longrightarrow> n_depth n \<le> d \<Longrightarrow>
     pstep ((k, d) # w, f) (w, count_duplicate f)"
| improve: "map_of (f_nodes f) k = Some n \<Longrightarrow> d < n_depth n \<Longrightarrow>
     pstep ((k, d) # w, f)
       ((if n_phase n = Expanded then map (\<lambda>s. (s, d + 1)) (n_successors n) else []) @ w,
        improve_node k n d (count_duplicate f))"

definition stuck :: "work \<Rightarrow> frontier \<Rightarrow> bool" where
  "stuck w f \<longleftrightarrow> (case w of [] \<Rightarrow> False
     | (k, _) # _ \<Rightarrow> map_of (f_nodes f) k = None \<and>
         (length (f_nodes f) = f_max_states f \<or> f_next_sequence f = - 1))"

lemma pstep_then:
  "pstep a b \<Longrightarrow> \<exists>w'. pstep\<^sup>*\<^sup>* b (w', f') \<and> Q w' \<Longrightarrow> \<exists>w'. pstep\<^sup>*\<^sup>* a (w', f') \<and> Q w'"
  by (meson converse_rtranclp_into_rtranclp)

lemma propagate_loop_steps:
  "propagate_loop w f = (r, f') \<Longrightarrow>
     \<exists>w'. pstep\<^sup>*\<^sup>* (w, f) (w', f') \<and> (case r of Inr _ \<Rightarrow> w' = [] | Inl _ \<Rightarrow> stuck w' f')"
proof (induction w f rule: propagate_loop.induct)
  case (2 key distance work f)
  show ?case
  proof (cases "map_of (f_nodes f) key")
    case None
    show ?thesis
    proof (cases "length (f_nodes f) = f_max_states f \<or> f_next_sequence f = - 1")
      case True
      with 2 None have "f' = f" "isl r" by (auto split: if_splits)
      with True None show ?thesis
        by (intro exI [of _ "(key, distance) # work"]) (auto simp: stuck_def split: sum.split)
    next
      case False
      with 2 None show ?thesis
        by (intro pstep_then [OF pstep.insert [of f key distance work]]) auto
    qed
  next
    case (Some n)
    show ?thesis
    proof (cases "n_depth n \<le> distance")
      case True
      with 2 Some show ?thesis
        by (intro pstep_then [OF pstep.duplicate [of f key n distance work]]) auto
    next
      case False
      with 2 Some show ?thesis
        by (intro pstep_then [OF pstep.improve [of f key n distance work]]) auto
    qed
  qed
qed auto

lemma pstep_rtranclp_inv:
  assumes "pstep\<^sup>*\<^sup>* (w, f) (w', f')" "P w f"
    and "\<And>w f w' f'. pstep (w, f) (w', f') \<Longrightarrow> P w f \<Longrightarrow> P w' f'"
  shows "P w' f'"
  using assms(1,2) by (induction rule: rtranclp_induct2) (auto intro: assms(3))

section \<open>What a propagation step keeps\<close>

lemma nodes_insert_fresh: "f_nodes (insert_node k d f) = om_put k (fresh_node d f) (f_nodes f)"
  by (simp add: nodes_insert_node fresh_node_def)

lemma frame_insert_node [simp]:
  "f_limit (insert_node k d f) = f_limit f" "f_next_lease (insert_node k d f) = f_next_lease f"
  "f_max_states (insert_node k d f) = f_max_states f" "f_policy (insert_node k d f) = f_policy f"
  "f_priority (insert_node k d f) = f_priority f" "f_poisoned (insert_node k d f) = f_poisoned f"
  "f_next_sequence (insert_node k d f) = f_next_sequence f + 1"
  by (simp_all add: insert_node_def Let_def)

lemma frame_count_duplicate [simp]:
  "f_limit (count_duplicate f) = f_limit f" "f_next_lease (count_duplicate f) = f_next_lease f"
  "f_max_states (count_duplicate f) = f_max_states f" "f_policy (count_duplicate f) = f_policy f"
  "f_priority (count_duplicate f) = f_priority f" "f_poisoned (count_duplicate f) = f_poisoned f"
  "f_next_sequence (count_duplicate f) = f_next_sequence f"
  "index_inv (count_duplicate f) = index_inv f"
  by (simp_all add: count_duplicate_def)

definition improved :: "node \<Rightarrow> u64 \<Rightarrow> node" where
  "improved n d = n\<lparr>n_phase := if n_phase n = DepthCut then Pending else n_phase n, n_depth := d\<rparr>"

lemma improved_simps [simp]:
  "n_depth (improved n d) = d" "n_sequence (improved n d) = n_sequence n"
  "n_ticket (improved n d) = n_ticket n" "n_successors (improved n d) = n_successors n"
  "n_phase (improved n d) = (if n_phase n = DepthCut then Pending else n_phase n)"
  by (simp_all add: improved_def)

lemma improve_node_reindex:
  "improve_node k n d f = count_improvement (reindex k n (improved n d) f)"
  by (simp add: improve_node_def update_node_reindex improved_def)

lemma frame_improve_node [simp]:
  "f_nodes (improve_node k n d f) = om_put k (improved n d) (f_nodes f)"
  "f_limit (improve_node k n d f) = f_limit f" "f_next_lease (improve_node k n d f) = f_next_lease f"
  "f_max_states (improve_node k n d f) = f_max_states f"
  "f_policy (improve_node k n d f) = f_policy f" "f_priority (improve_node k n d f) = f_priority f"
  "f_poisoned (improve_node k n d f) = f_poisoned f"
  "f_next_sequence (improve_node k n d f) = f_next_sequence f"
  by (simp_all add: improve_node_reindex count_improvement_def)

lemma index_inv_improve_node:
  "index_inv f \<Longrightarrow> map_of (f_nodes f) k = Some n \<Longrightarrow> index_inv (improve_node k n d f)"
  by (simp add: improve_node_reindex count_improvement_def index_inv_reindex)

definition prop_inv :: "(state_key \<times> u64) set \<Rightarrow> work \<Rightarrow> frontier \<Rightarrow> bool" where
  "prop_inv R w f \<longleftrightarrow> index_inv f \<and> nodes_ok f \<and> relaxed (set w \<union> R) f \<and> lease_inv f \<and>
     length (f_nodes f) \<le> f_max_states f \<and> (\<forall>(k, d) \<in> set w. d \<le> f_limit f)"

lemma prop_invD:
  assumes "prop_inv R w f"
  shows "index_inv f" "nodes_ok f" "relaxed (set w \<union> R) f" "lease_inv f"
    "length (f_nodes f) \<le> f_max_states f" "\<And>k d. (k, d) \<in> set w \<Longrightarrow> d \<le> f_limit f"
  using assms by (auto simp: prop_inv_def)

lemma prop_invI:
  assumes "index_inv f" "nodes_ok f" "relaxed (set w \<union> R) f" "lease_inv f"
    "length (f_nodes f) \<le> f_max_states f" "\<And>k d. (k, d) \<in> set w \<Longrightarrow> d \<le> f_limit f"
  shows "prop_inv R w f"
  using assms by (auto simp: prop_inv_def)

lemma node_ok_improved:
  assumes "node_ok f k n" "d < n_depth n"
  shows "node_ok f k (improved n d)"
proof -
  have "d \<le> n_depth n" using assms(2) by simp
  moreover from this have "d \<le> f_limit f" "d < f_limit f"
    using assms by (auto simp: node_ok_def)
  ultimately show ?thesis
    using assms(1) by (auto simp: node_ok_def ticket_ok_def)
qed

lemma prop_inv_insert:
  assumes inv: "prop_inv R ((k, d) # w) f" and new: "map_of (f_nodes f) k = None"
    and room: "length (f_nodes f) \<noteq> f_max_states f" "f_next_sequence f \<noteq> - 1"
  shows "prop_inv R w (insert_node k d f)" (is "prop_inv R w ?f")
proof (rule prop_invI)
  show "relaxed (set w \<union> R) ?f"
    using prop_invD(3) [OF inv] nodes_insert_fresh by (rule relaxed_put)
      (auto simp: nodes_insert_fresh new)
  have "d \<le> f_limit f" using prop_invD(6) [OF inv, of k d] by simp
  then show "nodes_ok ?f"
    using prop_invD(2) [OF inv] nodes_insert_fresh by (intro nodes_ok_put [of f ?f])
      (auto simp: node_ok_def)
  show "lease_inv ?f"
    using prop_invD(4) [OF inv] nodes_insert_fresh by (rule lease_inv_put) simp
  show "index_inv ?f" using prop_invD(1) [OF inv] new room(2) by (rule index_inv_insert_node)
  show "length (f_nodes ?f) \<le> f_max_states ?f"
    using prop_invD(5) [OF inv] room(1) new by (simp add: nodes_insert_fresh om_put_notin)
qed (use prop_invD(6) [OF inv] in auto)

lemma prop_inv_duplicate:
  assumes inv: "prop_inv R ((k, d) # w) f" and n: "map_of (f_nodes f) k = Some n" "n_depth n \<le> d"
  shows "prop_inv R w (count_duplicate f)" (is "prop_inv R w ?f")
proof (rule prop_invI)
  show "relaxed (set w \<union> R) ?f"
    using prop_invD(3) [OF inv] nodes_count_duplicate by (rule relaxed_same) (use n in auto)
  show "nodes_ok ?f" using prop_invD(2) [OF inv] by (rule nodes_ok_same) simp_all
  show "lease_inv ?f" using prop_invD(4) [OF inv] by (rule lease_inv_same) simp
qed (use prop_invD(1,5,6) [OF inv] in auto)

lemma prop_inv_improve:
  assumes inv: "prop_inv R ((k, d) # w) f" and n: "map_of (f_nodes f) k = Some n" "d < n_depth n"
  shows "prop_inv R
     ((if n_phase n = Expanded then map (\<lambda>s. (s, d + 1)) (n_successors n) else []) @ w)
     (improve_node k n d (count_duplicate f))" (is "prop_inv R ?w ?f")
proof (rule prop_invI)
  have nodes: "f_nodes ?f = om_put k (improved n d) (f_nodes f)" by simp
  have ok: "node_ok f k n"
    using prop_invD(2) [OF inv] n(1) by (simp add: nodes_ok_def)
  have next_le: "d + 1 \<le> f_limit f"
    using inc_le [OF n(2)] ok by (auto simp: node_ok_def intro: order_trans)
  show "relaxed (set ?w \<union> R) ?f"
    using prop_invD(3) [OF inv] nodes
    by (rule relaxed_put) (use n in \<open>auto split: if_splits\<close>)
  show "nodes_ok ?f"
    using prop_invD(2) [OF inv] nodes
  proof (rule nodes_ok_put)
    show "node_ok ?f k (improved n d)"
      using node_ok_improved [OF ok n(2)] by (rule node_ok_mono) simp_all
  qed simp_all
  show "lease_inv ?f"
    using prop_invD(4) [OF inv] nodes by (rule lease_inv_put) (use n in auto)
  show "index_inv ?f"
    using prop_invD(1) [OF inv] n(1) by (intro index_inv_improve_node) simp_all
  show "length (f_nodes ?f) \<le> f_max_states ?f"
    using prop_invD(1,5) [OF inv] n(1) by (simp add: index_inv_def om_put_in)
  show "\<And>k' d'. (k', d') \<in> set ?w \<Longrightarrow> d' \<le> f_limit ?f"
    using prop_invD(6) [OF inv] next_le by (auto split: if_splits)
qed

lemma prop_inv_pstep: "pstep (w, f) (w', f') \<Longrightarrow> prop_inv R w f \<Longrightarrow> prop_inv R w' f'"
  by (cases rule: pstep.cases)
     (auto intro: prop_inv_insert prop_inv_duplicate prop_inv_improve)

end
