(* ===== verification/Frontier_Ops.thy ===== *)
theory Frontier_Ops
  imports Frontier_Inv
begin

text \<open>
  Every operation of the frontier keeps its invariant and either completes or changes nothing:
  the capacity checks made before the first mutation are enough for the whole propagation.
\<close>

section \<open>Propagation completes when there is room\<close>

definition absent :: "frontier \<Rightarrow> state_key set \<Rightarrow> state_key set" where
  "absent f M = {k \<in> M. map_of (f_nodes f) k = None}"

definition room :: "state_key set \<Rightarrow> work \<Rightarrow> frontier \<Rightarrow> bool" where
  "room M w f \<longleftrightarrow>
     (\<forall>(k, d) \<in> set w. map_of (f_nodes f) k \<noteq> None \<or> k \<in> M) \<and>
     (\<forall>k n s. map_of (f_nodes f) k = Some n \<longrightarrow> s \<in> set (n_successors n) \<longrightarrow>
        map_of (f_nodes f) s \<noteq> None \<or> s \<in> M) \<and>
     length (f_nodes f) + card (absent f M) \<le> f_max_states f \<and>
     unat (f_next_sequence f) + card (absent f M) < 2 ^ 64"

lemma absent_put: "f_nodes f' = om_put k n (f_nodes f) \<Longrightarrow> absent f' M = absent f M - {k}"
  by (auto simp: absent_def)

lemma absent_same:
  "f_nodes f' = om_put k n (f_nodes f) \<Longrightarrow> map_of (f_nodes f) k \<noteq> None \<Longrightarrow> absent f' M = absent f M"
  by (auto simp: absent_def)

lemma unat_Suc: "(x :: u64) \<noteq> - 1 \<Longrightarrow> unat (x + 1) = Suc (unat x)"
  using unatSuc [of x] by (metis add.commute add_eq_0_iff)

lemma room_insert:
  assumes "room M ((k, d) # w) f" "map_of (f_nodes f) k = None" "f_next_sequence f \<noteq> - 1"
  shows "room M w (insert_node k d f)"
proof -
  have "k \<in> absent f M" using assms(1,2) by (auto simp: room_def absent_def)
  moreover have "finite (absent f M)" by simp
  ultimately have "Suc (card (absent f M - {k})) = card (absent f M)"
    by (metis card_Suc_Diff1)
  moreover have "absent (insert_node k d f) M = absent f M - {k}"
    by (rule absent_put [OF nodes_insert_fresh])
  ultimately show ?thesis
    using assms by (auto simp: room_def nodes_insert_fresh om_put_notin unat_Suc)
qed

lemma room_improve:
  assumes "room M ((k, d) # w) f" "map_of (f_nodes f) k = Some n" "om_ok (f_nodes f)"
  shows "room M ((if n_phase n = Expanded then map (\<lambda>s. (s, d + 1)) (n_successors n) else []) @ w)
     (improve_node k n d (count_duplicate f))"
proof -
  let ?f = "improve_node k n d (count_duplicate f)"
  have same: "absent ?f M = absent f M"
    using assms(2) by (intro absent_same [of _ k "improved n d"]) auto
  have dom: "map_of (f_nodes ?f) x \<noteq> None \<longleftrightarrow> map_of (f_nodes f) x \<noteq> None" for x
    using assms(2) by simp
  have succ: "map_of (f_nodes f) s \<noteq> None \<or> s \<in> M"
    if "map_of (f_nodes f) k' = Some m" "s \<in> set (n_successors m)" for k' m s
    using assms(1) that unfolding room_def by blast
  have work: "\<forall>(x, _) \<in> set w. map_of (f_nodes f) x \<noteq> None \<or> x \<in> M"
    using assms(1) by (simp add: room_def)
  show ?thesis
    unfolding room_def dom
  proof (intro conjI allI impI)
    show "\<forall>(x, _) \<in> set ((if n_phase n = Expanded then map (\<lambda>s. (s, d + 1)) (n_successors n) else [])
        @ w). map_of (f_nodes f) x \<noteq> None \<or> x \<in> M"
      using work succ [OF assms(2)] by auto
  next
    fix k' m s assume "map_of (f_nodes ?f) k' = Some m" "s \<in> set (n_successors m)"
    then show "map_of (f_nodes f) s \<noteq> None \<or> s \<in> M"
      using succ [of k' m s] succ [OF assms(2), of s] by (cases "k' = k") auto
  qed (use assms same in \<open>auto simp: room_def om_put_in\<close>)
qed

lemma room_pstep:
  assumes "pstep (w, f) (w', f')" "om_ok (f_nodes f)" "room M w f"
  shows "room M w' f'"
  using assms(1)
proof cases
  case (duplicate k n d)
  then show ?thesis using assms(3) by (auto simp: room_def absent_def)
qed (use assms room_insert room_improve in auto)

lemma room_not_stuck:
  assumes "room M w f" shows "\<not> stuck w f"
proof
  assume "stuck w f"
  then obtain k d v where w: "w = (k, d) # v" and none: "map_of (f_nodes f) k = None"
    and full: "length (f_nodes f) = f_max_states f \<or> f_next_sequence f = - 1"
    by (auto simp: stuck_def split: list.splits)
  have "k \<in> absent f M" using assms w none by (auto simp: room_def absent_def)
  then have "0 < card (absent f M)" by (auto simp: card_gt_0_iff)
  moreover have "unat (- 1 :: u64) = 2 ^ 64 - 1" by (simp add: unsigned_minus_1_eq_mask mask_eq_exp_minus_1)
  ultimately show False using full assms by (auto simp: room_def)
qed

definition same_env :: "frontier \<Rightarrow> frontier \<Rightarrow> bool" where
  "same_env f f' \<longleftrightarrow> f_limit f' = f_limit f \<and> f_next_lease f' = f_next_lease f \<and>
     f_max_states f' = f_max_states f \<and> f_policy f' = f_policy f \<and> f_priority f' = f_priority f \<and>
     f_poisoned f' = f_poisoned f"

lemma same_env_refl [simp]: "same_env f f"
  by (simp add: same_env_def)

lemma same_env_trans: "same_env f g \<Longrightarrow> same_env g h \<Longrightarrow> same_env f h"
  by (simp add: same_env_def)

lemma same_env_pstep: "pstep (w, f) (w', f') \<Longrightarrow> same_env f f'"
  by (cases rule: pstep.cases) (auto simp: same_env_def)

text \<open>What propagation may do to a recorded node: it comes closer, and a cut node reopens.\<close>

definition closer :: "node \<Rightarrow> node \<Rightarrow> bool" where
  "closer n n' \<longleftrightarrow> n_depth n' \<le> n_depth n \<and> n_ticket n' = n_ticket n \<and>
     n_successors n' = n_successors n \<and> n_sequence n' = n_sequence n \<and>
     (n_phase n' = n_phase n \<or> n_phase n = DepthCut \<and> n_phase n' = Pending)"

definition grows :: "frontier \<Rightarrow> frontier \<Rightarrow> bool" where
  "grows f f' \<longleftrightarrow> (\<forall>k n. map_of (f_nodes f) k = Some n \<longrightarrow>
     (\<exists>n'. map_of (f_nodes f') k = Some n' \<and> closer n n'))"

lemma grows_refl [simp]: "grows f f"
  by (simp add: grows_def closer_def)

lemma closer_trans: "closer a b \<Longrightarrow> closer b c \<Longrightarrow> closer a c"
  by (auto simp: closer_def)

lemma grows_trans: "grows f g \<Longrightarrow> grows g h \<Longrightarrow> grows f h"
  unfolding grows_def by (meson closer_trans)

lemma grows_pstep: "pstep (w, f) (w', f') \<Longrightarrow> grows f f'"
  by (cases rule: pstep.cases) (auto simp: grows_def closer_def nodes_insert_fresh)

text \<open>A set of distance bounds is met when each is on the work list or already recorded.\<close>

definition recorded :: "frontier \<Rightarrow> state_key \<Rightarrow> u64 \<Rightarrow> bool" where
  "recorded f k d \<longleftrightarrow> (case map_of (f_nodes f) k of None \<Rightarrow> False | Some n \<Rightarrow> n_depth n \<le> d)"

definition met :: "(state_key \<times> u64) set \<Rightarrow> work \<Rightarrow> frontier \<Rightarrow> bool" where
  "met B w f \<longleftrightarrow> (\<forall>k d. (k, d) \<in> B \<longrightarrow> (k, d) \<in> set w \<or> recorded f k d)"

lemma recorded_grows: "recorded f k d \<Longrightarrow> grows f f' \<Longrightarrow> recorded f' k d"
  by (fastforce simp: recorded_def grows_def closer_def split: option.splits)

lemma met_grows: "met B [] f \<Longrightarrow> grows f f' \<Longrightarrow> met B w f'"
  by (auto simp: met_def intro: recorded_grows)

lemma pstep_recorded:
  "pstep (w, f) (w', f') \<Longrightarrow> (k, d) \<in> set w \<Longrightarrow> (k, d) \<in> set w' \<or> recorded f' k d"
  by (cases rule: pstep.cases) (auto simp: recorded_def nodes_insert_fresh)

lemma met_pstep:
  assumes "pstep (w, f) (w', f')" "met B w f"
  shows "met B w' f'"
  using assms(2) pstep_recorded [OF assms(1)] recorded_grows [OF _ grows_pstep [OF assms(1)]]
  unfolding met_def by blast

lemma propagate_ok:
  assumes "prop_inv R [(k, d)] f" "room M [(k, d)] f"
  obtains f' where "propagate k d f = (Inr (), f')" "prop_inv R [] f'" "room M [] f'"
    "same_env f f'" "grows f f'" "met {(k, d)} [] f'" "pstep\<^sup>*\<^sup>* ([(k, d)], f) ([], f')"
proof -
  obtain r f' where p: "propagate_loop [(k, d)] f = (r, f')" by fastforce
  from propagate_loop_steps [OF this] obtain w' where
    steps: "pstep\<^sup>*\<^sup>* ([(k, d)], f) (w', f')" and
    fin: "case r of Inr _ \<Rightarrow> w' = [] | Inl _ \<Rightarrow> stuck w' f'" by blast
  define P where "P w g \<longleftrightarrow> prop_inv R w g \<and> room M w g \<and> same_env f g \<and> grows f g \<and> met {(k, d)} w g"
    for w g
  have "P w' f'" using steps
  proof (rule pstep_rtranclp_inv)
    show "P [(k, d)] f" using assms by (simp add: P_def met_def)
    show "P w2 f2" if "pstep (w1, f1) (w2, f2)" "P w1 f1" for w1 f1 w2 f2
      using that prop_inv_pstep [OF that(1)] room_pstep [OF that(1)] same_env_pstep [OF that(1)]
        grows_pstep [OF that(1)] met_pstep [OF that(1)]
      by (auto simp: P_def prop_inv_def index_inv_def intro: same_env_trans grows_trans)
  qed
  moreover from this have "w' = []" "r = Inr ()"
    using fin room_not_stuck [of M w' f'] by (auto simp: P_def split: sum.splits)
  ultimately show thesis
    using that [of f'] p steps by (simp add: P_def propagate_def)
qed

section \<open>Construction and admission\<close>

lemma frontier_inv_prop:
  "frontier_inv f \<longleftrightarrow> prop_inv {} [] f \<and> (f_policy f = Priority \<longleftrightarrow> f_priority f \<noteq> None)"
  by (auto simp: frontier_inv_def prop_inv_def)

lemma frontier_inv_new: "new_frontier l p pr m = Inr f \<Longrightarrow> frontier_inv f"
  using index_inv_new [of l p pr m f]
  by (auto simp: new_frontier_def frontier_inv_def nodes_ok_def relaxed_def lease_inv_def
      split: if_splits)

lemma prop_inv_counters: "prop_inv R w (f\<lparr>f_counters := c\<rparr>) = prop_inv R w f"
  by (simp add: prop_inv_def nodes_ok_def node_ok_def ticket_ok_def relaxed_def lease_inv_def)

lemma frontier_inv_counters [simp]: "frontier_inv (f\<lparr>f_counters := c\<rparr>) = frontier_inv f"
  by (simp add: frontier_inv_prop prop_inv_counters)

lemma relaxed_weaken:
  assumes "relaxed W f" "\<And>s d. (s, d) \<in> W \<Longrightarrow> \<exists>d' \<le> d. (s, d') \<in> W'"
  shows "relaxed W' f"
  using assms unfolding relaxed_def by (meson order_trans)

lemma prop_inv_start:
  assumes "prop_inv R [] f" "d \<le> f_limit f"
    and "\<And>s e. (s, e) \<in> R \<Longrightarrow> (s, e) \<in> R' \<or> s = k \<and> d \<le> e"
  shows "prop_inv R' [(k, d)] f"
proof (rule prop_invI)
  show "relaxed (set [(k, d)] \<union> R') f"
    using prop_invD(3) [OF assms(1)] by (rule relaxed_weaken) (use assms(3) in auto)
qed (use prop_invD [OF assms(1)] assms(2) in auto)

lemma room_successors:
  assumes "frontier_inv f" "map_of (f_nodes f) k = Some n" "s \<in> set (n_successors n)"
  shows "map_of (f_nodes f) s \<noteq> None"
proof -
  have "n_phase n = Expanded"
    using assms unfolding frontier_inv_def nodes_ok_def node_ok_def by fastforce
  with assms show ?thesis unfolding frontier_inv_def relaxed_def by blast
qed

lemma room_admit:
  assumes inv: "frontier_inv f"
    and new: "map_of (f_nodes f) k = None \<Longrightarrow>
       length (f_nodes f) \<noteq> f_max_states f \<and> f_next_sequence f \<noteq> - 1"
  shows "room (if map_of (f_nodes f) k = None then {k} else {}) [(k, d)] f"
proof -
  have len: "length (f_nodes f) \<le> f_max_states f" using inv by (simp add: frontier_inv_def)
  have "unat (f_next_sequence f) < 2 ^ 64 - 1" if "f_next_sequence f \<noteq> - 1"
  proof -
    have "Suc (unat (f_next_sequence f)) < 2 ^ 64"
      using unat_Suc [OF that] unat_u64_bound [of "f_next_sequence f + 1"] by simp
    then show ?thesis by simp
  qed
  moreover have "absent f {k} = {k}" if "map_of (f_nodes f) k = None"
    using that by (auto simp: absent_def)
  moreover have "absent f {} = {}" by (simp add: absent_def)
  ultimately show ?thesis
    using new len room_successors [OF inv] unat_u64_bound [of "f_next_sequence f"]
    by (auto simp: room_def)
qed

lemma admit_result:
  assumes "frontier_inv f" "admit k d f = (r, f')"
  shows "case r of
           Inl _ \<Rightarrow> f' = f
         | Inr changed \<Rightarrow> frontier_inv f' \<and> same_env f f' \<and> grows f f' \<and> recorded f' k d \<and>
             d \<le> f_limit f \<and> (changed \<longleftrightarrow> \<not> recorded f k d) \<and> pstep\<^sup>*\<^sup>* ([(k, d)], f) ([], f')"
proof (cases "f_poisoned f \<or> f_limit f < d \<or> map_of (f_nodes f) k = None \<and>
    (length (f_nodes f) = f_max_states f \<or> f_next_sequence f = - 1)")
  case True
  then show ?thesis
    using assms(2) by (auto simp: admit_def ensure_healthy_def propagate_def Let_def split: if_splits)
next
  case False
  have start: "prop_inv {} [(k, d)] f"
    using assms(1) False by (intro prop_inv_start [of "{}"]) (auto simp: frontier_inv_prop)
  have room: "room (if map_of (f_nodes f) k = None then {k} else {}) [(k, d)] f"
    using False by (intro room_admit [OF assms(1)]) auto
  obtain g where
    g: "propagate k d f = (Inr (), g)" "prop_inv {} [] g" "same_env f g" "grows f g"
       "met {(k, d)} [] g" "pstep\<^sup>*\<^sup>* ([(k, d)], f) ([], g)"
    by (rule propagate_ok [OF start room])
  then have "f' = g" "r = Inr (\<not> recorded f k d)"
    using False assms(2)
    by (auto simp: admit_def ensure_healthy_def Let_def recorded_def split: option.splits if_splits)
  with g False assms(1) show ?thesis
    by (auto simp: frontier_inv_prop same_env_def met_def)
qed

section \<open>Leasing\<close>

lemma index_inv_reindex_store:
  assumes "index_inv f" "map_of (f_nodes f) k = Some n" "n_sequence n1 = n_sequence n"
    "same_index n1 n2"
  shows "index_inv ((reindex k n n1 f)\<lparr>f_nodes := om_put k n2 (f_nodes f)\<rparr>)"
proof -
  have "om_put k n2 (f_nodes (reindex k n n1 f)) = om_put k n2 (f_nodes f)"
    using index_invD(1) [OF assms(1)] by (simp add: om.put_put)
  then show ?thesis
    using index_inv_store [OF index_inv_reindex [OF assms(1-3)], of k n1 n2] assms(4) by simp
qed

definition leased :: "ticket \<Rightarrow> node \<Rightarrow> node" where
  "leased t n = n\<lparr>n_phase := Inflight, n_ticket := Some t\<rparr>"

definition fresh_ticket :: "worker_id \<Rightarrow> state_key \<Rightarrow> node \<Rightarrow> frontier \<Rightarrow> ticket" where
  "fresh_ticket w k n f = \<lparr>t_state = k, t_worker = w, t_lease_id = f_next_lease f + 1,
     t_depth = n_depth n, t_may_expand = n_depth n < f_limit f\<rparr>"

lemma finalize_lease_form:
  assumes "frontier_inv f" "map_of (f_nodes f) k = Some n" "f_next_lease f \<noteq> - 1"
  shows "\<exists>c. finalize_lease w k cs f = (Inr (fresh_ticket w k n f),
     (reindex k n (n\<lparr>n_phase := Inflight\<rparr>) (f\<lparr>f_next_lease := f_next_lease f + 1\<rparr>))
       \<lparr>f_nodes := om_put k (leased (fresh_ticket w k n f) n) (f_nodes f), f_counters := c\<rparr>)"
proof -
  have ok: "om_ok (f_nodes f)" using assms(1) by (simp add: frontier_inv_def index_inv_def)
  show ?thesis
    by (rule exI, simp add: finalize_lease_def Let_def update_node_reindex om.put_put [OF ok]
        leased_def fresh_ticket_def assms(2,3))
qed

lemma finalize_lease_ok:
  assumes inv: "frontier_inv f" and n: "map_of (f_nodes f) k = Some n" "n_phase n = Pending"
    and room: "f_next_lease f \<noteq> - 1" and fin: "finalize_lease w k cs f = (r, f')"
  shows "r = Inr (fresh_ticket w k n f)" "frontier_inv f'"
    "f_nodes f' = om_put k (leased (fresh_ticket w k n f) n) (f_nodes f)"
    "f_limit f' = f_limit f" "f_next_lease f' = f_next_lease f + 1" "f_poisoned f' = f_poisoned f"
    "f_max_states f' = f_max_states f"
proof -
  let ?t = "fresh_ticket w k n f" and ?l = "f_next_lease f + 1"
  let ?n = "leased ?t n"
  obtain c where c: "finalize_lease w k cs f = (Inr ?t, (reindex k n (n\<lparr>n_phase := Inflight\<rparr>)
      (f\<lparr>f_next_lease := ?l\<rparr>))\<lparr>f_nodes := om_put k ?n (f_nodes f), f_counters := c\<rparr>)"
    using finalize_lease_form [OF inv n(1) room] by blast
  with fin show r: "r = Inr ?t" and nodes: "f_nodes f' = om_put k ?n (f_nodes f)"
    and lim: "f_limit f' = f_limit f" and nl: "f_next_lease f' = ?l"
    and "f_poisoned f' = f_poisoned f" and mx: "f_max_states f' = f_max_states f"
    by auto
  have pol: "f_policy f' = f_policy f" "f_priority f' = f_priority f"
    using c fin by auto
  have step: "f_next_lease f < ?l"
    using room by (metis add.commute inc_less_eq_iff not_less word_le_less_eq)
  have idx: "index_inv f" "nodes_ok f" "relaxed {} f" "lease_inv f" "node_ok f k n"
    using inv n by (auto simp: frontier_inv_def nodes_ok_def)
  have "index_inv f'"
    using index_inv_reindex_store [of "f\<lparr>f_next_lease := ?l\<rparr>" k n "n\<lparr>n_phase := Inflight\<rparr>" ?n]
      idx(1) n(1) c fin
    by (auto simp: same_index_def leased_def)
  moreover have "nodes_ok f'"
    using idx(2) nodes
  proof (rule nodes_ok_put)
    show "node_ok f' k ?n"
      using idx(5) lim nl n(2)
      by (auto simp: node_ok_def ticket_ok_def leased_def fresh_ticket_def)
  qed (use lim nl step in auto)
  moreover have "relaxed {} f'"
    using idx(3) nodes by (rule relaxed_put) (use n(1) in \<open>auto simp: leased_def\<close>)
  moreover have "lease_inv f'"
    using idx(4) nodes
  proof (rule lease_inv_put)
    fix t assume "n_ticket ?n = Some t"
    then have "t_lease_id t = ?l" by (auto simp: leased_def fresh_ticket_def)
    moreover have "t_lease_id t' \<le> f_next_lease f"
      if "map_of (f_nodes f) k' = Some n'" "n_ticket n' = Some t'" for k' n' t'
      using idx(2) that by (auto simp: nodes_ok_def node_ok_def ticket_ok_def)
    ultimately show "(\<exists>n. map_of (f_nodes f) k = Some n \<and> n_ticket n = Some t) \<or>
       (\<forall>k' n' t'. map_of (f_nodes f) k' = Some n' \<longrightarrow> n_ticket n' = Some t' \<longrightarrow>
          t_lease_id t' \<noteq> t_lease_id t)"
      using step by (metis leD)
  qed
  moreover have "length (f_nodes f') \<le> f_max_states f'"
    using inv nodes mx n(1) by (simp add: frontier_inv_def index_inv_def om_put_in)
  ultimately show "frontier_inv f'"
    using inv pol by (simp add: frontier_inv_def)
qed

text \<open>What a successful lease does, whichever node the policy selects.\<close>

definition lease_step :: "worker_id \<Rightarrow> ticket \<Rightarrow> frontier \<Rightarrow> frontier \<Rightarrow> bool" where
  "lease_step w t f f' \<longleftrightarrow> frontier_inv f' \<and> f_limit f' = f_limit f \<and> f_poisoned f' = f_poisoned f \<and>
     f_next_lease f' = f_next_lease f + 1 \<and> f_next_lease f \<noteq> - 1 \<and>
     (\<exists>n. map_of (f_nodes f) (t_state t) = Some n \<and> n_phase n = Pending \<and>
          t = fresh_ticket w (t_state t) n f \<and>
          f_nodes f' = om_put (t_state t) (leased t n) (f_nodes f))"

lemma finalize_lease_step:
  assumes "frontier_inv f" "map_of (f_nodes f) k = Some n" "n_phase n = Pending"
    and "finalize_lease w k cs f = (r, f')"
  shows "case r of Inl e \<Rightarrow> f' = f \<and> e = Overflow_error ''frontier lease IDs exhausted'' \<and>
           f_next_lease f = - 1
         | Inr t \<Rightarrow> t_state t = k \<and> lease_step w t f f'"
proof (cases "f_next_lease f = - 1")
  case True
  with assms show ?thesis by (auto simp: finalize_lease_def)
next
  case False
  have "t_state (fresh_ticket w k n f) = k" by (simp add: fresh_ticket_def)
  with finalize_lease_ok [OF assms(1-3) False assms(4)] assms(2,3) False show ?thesis
    by (simp add: lease_step_def)
qed

lemma pending_key:
  assumes "index_inv f" "(s, k) \<in> set (f_pending f)"
  obtains n where "map_of (f_nodes f) k = Some n" "n_phase n = Pending" "n_sequence n = s"
  using assms by (auto simp: index_inv_def pending_inv_def om_lookup_iff [symmetric])

lemma pending_entry:
  assumes "index_inv f" "map_of (f_nodes f) k = Some n" "n_phase n = Pending"
  shows "(n_sequence n, k) \<in> set (f_pending f)"
proof -
  have "map_of (f_pending f) (n_sequence n) = Some k"
    using assms unfolding index_inv_def pending_inv_def by blast
  then show ?thesis by (rule map_of_SomeD)
qed

lemma bfs_key:
  assumes "index_inv f" "f_policy f = Bfs" "((d, s), k) \<in> set (f_bfs_pending f)"
  obtains n where "map_of (f_nodes f) k = Some n" "n_phase n = Pending" "n_depth n = d"
    "n_sequence n = s"
  using assms by (auto simp: index_inv_def bfs_inv_def om_lookup_iff [symmetric])

lemma bfs_entry:
  assumes "index_inv f" "f_policy f = Bfs" "map_of (f_nodes f) k = Some n" "n_phase n = Pending"
  shows "((n_depth n, n_sequence n), k) \<in> set (f_bfs_pending f)"
proof -
  have "map_of (f_bfs_pending f) (n_depth n, n_sequence n) = Some k"
    using assms unfolding index_inv_def bfs_inv_def by blast
  then show ?thesis by (rule map_of_SomeD)
qed

lemma layer_entry:
  assumes "index_inv f" "f_policy f = Bfs" "map_of (f_nodes f) k = Some n"
    "active_phase (n_phase n)"
  shows "map_of (f_active_layers f) (n_depth n) \<noteq> None"
proof -
  have "0 < layer_count f (n_depth n)"
    unfolding layer_count_def
    using om_count_pos [OF index_invD(1) [OF assms(1)] assms(3),
        of "\<lambda>m. active_phase (n_phase m) \<and> n_depth m = n_depth n"] assms(4) by simp
  with assms(1,2) show ?thesis by (auto simp: index_inv_def layers_inv_def nonzero_def)
qed

lemma layer_node:
  assumes "index_inv f" "f_policy f = Bfs" "map_of (f_active_layers f) d \<noteq> None"
  obtains k n where "map_of (f_nodes f) k = Some n" "active_phase (n_phase n)" "n_depth n = d"
proof -
  have "layer_count f d \<noteq> 0"
    using assms by (auto simp: index_inv_def layers_inv_def nonzero_def split: if_splits)
  then show thesis
    using that om_count_0 [OF index_invD(1) [OF assms(1)],
        of "\<lambda>m. active_phase (n_phase m) \<and> n_depth m = d"]
    by (auto simp: layer_count_def)
qed

text \<open>The least active layer: the barrier behind which breadth-first leasing waits.\<close>

lemma layer_least:
  assumes inv: "index_inv f" and bfs: "f_policy f = Bfs" and "f_active_layers f = (layer, c) # ls"
    and n: "map_of (f_nodes f) k = Some n" "active_phase (n_phase n)"
  shows "layer \<le> n_depth n"
proof -
  have ok: "om_ok (f_active_layers f)" using inv by (simp add: index_inv_def layers_inv_def)
  obtain c' where "map_of (f_active_layers f) (n_depth n) = Some c'"
    using layer_entry [OF inv bfs n] by blast
  from om_ok_hd_least [OF ok _ this] assms(3) show ?thesis by simp
qed

lemma bfs_indexes:
  assumes inv: "index_inv f" and bfs: "f_policy f = Bfs" and "f_pending f \<noteq> []"
  obtains d s k bs layer c ls where "f_bfs_pending f = ((d, s), k) # bs"
    "f_active_layers f = (layer, c) # ls"
proof -
  obtain s k where "(s, k) \<in> set (f_pending f)" using assms(3) by (cases "f_pending f") auto
  then obtain n where n: "map_of (f_nodes f) k = Some n" "n_phase n = Pending"
    using inv by (rule_tac pending_key)
  have "f_bfs_pending f \<noteq> []" using bfs_entry [OF inv bfs n] by auto
  moreover have "f_active_layers f \<noteq> []"
    using layer_entry [OF inv bfs n(1)] n(2) by (auto simp: active_phase_def)
  ultimately show thesis
    using that by (metis list.exhaust surj_pair)
qed

end
