(* ===== verification/Frontier_Lease.thy ===== *)
theory Frontier_Lease
  imports Frontier_Ops
begin

text \<open>
  Which node each policy leases. Depth-first takes the most recently recorded pending node,
  breadth-first a pending node of the least active layer (and nothing while a shallower node is
  still in flight), the priority policy a pending node of least priority, the earliest on a
  tie. The scored variant takes the best score within its window.
\<close>

section \<open>The priority policy\<close>

definition prio_of :: "priority \<Rightarrow> (state_key, node) omap \<Rightarrow> state_key \<Rightarrow> exn + int" where
  "prio_of prio nodes k = (case map_of nodes k of None \<Rightarrow> Inl Out_of_range | Some n \<Rightarrow> prio k (n_depth n))"

definition prio_least ::
  "priority \<Rightarrow> (state_key, node) omap \<Rightarrow> (u64 \<times> state_key) list \<Rightarrow> u64 \<Rightarrow> state_key \<Rightarrow> bool" where
  "prio_least prio nodes xs s k \<longleftrightarrow> (s, k) \<in> set xs \<and>
     (\<exists>p. prio_of prio nodes k = Inr p \<and>
       (\<forall>s' k'. (s', k') \<in> set xs \<longrightarrow>
          (\<exists>q. prio_of prio nodes k' = Inr q \<and> (p < q \<or> p = q \<and> s \<le> s'))))"

lemma prio_least_drop_second:
  assumes "prio_least prio nodes ((s0, k0) # xs) s k" "prio_of prio nodes k0 = Inr p0"
    "prio_of prio nodes k1 = Inr p1" "p0 \<le> p1" "s0 \<le> s1"
  shows "prio_least prio nodes ((s0, k0) # (s1, k1) # xs) s k"
  using assms unfolding prio_least_def by fastforce

lemma prio_least_drop_first:
  assumes "prio_least prio nodes ((s1, k1) # xs) s k" "prio_of prio nodes k0 = Inr p0"
    "prio_of prio nodes k1 = Inr p1" "p1 < p0"
  shows "prio_least prio nodes ((s0, k0) # (s1, k1) # xs) s k"
  using assms unfolding prio_least_def by fastforce

lemma pick_priority_ok:
  "pick_priority prio nodes sel best c xs = Inr (sel', c') \<Longrightarrow> prio_of prio nodes sel = Inr best \<Longrightarrow>
   sorted_wrt (<) (map fst ((s0, sel) # xs)) \<Longrightarrow> \<exists>s'. prio_least prio nodes ((s0, sel) # xs) s' sel'"
proof (induction xs arbitrary: s0 sel best c)
  case Nil
  then show ?case by (auto simp: prio_least_def)
next
  case (Cons x xs)
  obtain s k where x: "x = (s, k)" by (cases x)
  obtain n where n: "map_of nodes k = Some n"
    using Cons.prems(1) x by (auto split: option.splits)
  obtain p where p: "prio k (n_depth n) = Inr p"
    using Cons.prems(1) x n by (auto split: sum.splits)
  have pk: "prio_of prio nodes k = Inr p" using n p by (simp add: prio_of_def)
  show ?case
  proof (cases "p < best")
    case True
    then have "\<exists>s'. prio_least prio nodes ((s, k) # xs) s' sel'"
      using Cons.IH [of k p "c + 1" s] Cons.prems x n p pk by simp
    then show ?thesis
      using prio_least_drop_first Cons.prems(2) pk True x by blast
  next
    case False
    then have "\<exists>s'. prio_least prio nodes ((s0, sel) # xs) s' sel'"
      using Cons.IH [of sel best "c + 1" s0] Cons.prems x n p by simp
    moreover have "s0 \<le> s" using Cons.prems(3) x by (simp add: less_imp_le)
    ultimately show ?thesis
      using prio_least_drop_second [of prio nodes s0 sel xs _ sel' best k p s] Cons.prems(2) pk False x
      by auto
  qed
qed

lemma pick_priority_error:
  "pick_priority prio nodes sel best c xs = Inl e \<Longrightarrow>
   (\<And>s k. (s, k) \<in> set xs \<Longrightarrow> map_of nodes k \<noteq> None) \<Longrightarrow>
     \<exists>k n. map_of nodes k = Some n \<and> prio k (n_depth n) = Inl e"
proof (induction xs arbitrary: sel best c)
  case (Cons x xs)
  obtain s k where x: "x = (s, k)" by (cases x)
  obtain n where n: "map_of nodes k = Some n" using Cons.prems(2) x by fastforce
  show ?case
  proof (cases "prio k (n_depth n)")
    case (Inl e')
    with Cons.prems(1) x n show ?thesis by auto
  next
    case (Inr p)
    have "\<exists>sel best. pick_priority prio nodes sel best (c + 1) xs = Inl e"
      using Cons.prems(1) x n Inr by (auto split: if_splits)
    then show ?thesis using Cons.IH Cons.prems(2) by (metis list.set_intros(2))
  qed
qed simp

lemma select_priority_ok:
  assumes "frontier_inv f" "f_priority f = Some prio" "f_pending f \<noteq> []" "select_priority f = Inr (k, c)"
  shows "\<exists>s. prio_least prio (f_nodes f) (f_pending f) s k"
proof -
  obtain s0 k0 xs where p: "f_pending f = (s0, k0) # xs"
    using assms(3) by (metis list.exhaust surj_pair)
  have "sorted_wrt (<) (map fst (f_pending f))"
    using assms(1) by (simp add: frontier_inv_def index_inv_def pending_inv_def om_ok_def)
  with assms(2,4) p show ?thesis
    using pick_priority_ok [of prio "f_nodes f" k0 _ 1 xs k c s0]
    by (auto simp: select_priority_def prio_of_def split: option.splits sum.splits)
qed

lemma select_priority_error:
  assumes "frontier_inv f" "f_priority f = Some prio" "f_pending f \<noteq> []" "select_priority f = Inl e"
  shows "\<exists>k n. map_of (f_nodes f) k = Some n \<and> prio k (n_depth n) = Inl e"
proof -
  obtain s0 k0 xs where p: "f_pending f = (s0, k0) # xs"
    using assms(3) by (metis list.exhaust surj_pair)
  have known: "map_of (f_nodes f) k \<noteq> None" if "(s, k) \<in> set (f_pending f)" for s k
    using pending_key [OF _ that] assms(1) by (auto simp: frontier_inv_def)
  obtain n0 where n0: "map_of (f_nodes f) k0 = Some n0" using known [of s0 k0] p by auto
  show ?thesis
  proof (cases "prio k0 (n_depth n0)")
    case (Inl e')
    with assms(2,4) p n0 show ?thesis by (auto simp: select_priority_def)
  next
    case (Inr q)
    then have "pick_priority prio (f_nodes f) k0 q 1 xs = Inl e"
      using assms(2,4) p n0 by (simp add: select_priority_def)
    then show ?thesis by (rule pick_priority_error) (use known p in auto)
  qed
qed

section \<open>Plain leases\<close>

text \<open>The node of the key that a policy may select.\<close>

definition selectable :: "frontier \<Rightarrow> state_key \<Rightarrow> bool" where
  "selectable f k \<longleftrightarrow> (\<exists>n. map_of (f_nodes f) k = Some n \<and> n_phase n = Pending \<and>
     (case f_policy f of
        Dfs \<Rightarrow> \<forall>k' n'. map_of (f_nodes f) k' = Some n' \<longrightarrow> n_phase n' = Pending \<longrightarrow>
                 n_sequence n' \<le> n_sequence n
      | Bfs \<Rightarrow> \<forall>k' n'. map_of (f_nodes f) k' = Some n' \<longrightarrow> active_phase (n_phase n') \<longrightarrow>
                 n_depth n < n_depth n' \<or>
                 n_depth n = n_depth n' \<and> (n_phase n' = Pending \<longrightarrow> n_sequence n \<le> n_sequence n')
      | Priority \<Rightarrow> (\<exists>prio. f_priority f = Some prio \<and>
                       prio_least prio (f_nodes f) (f_pending f) (n_sequence n) k)))"

definition bfs_barrier :: "frontier \<Rightarrow> bool" where
  "bfs_barrier f \<longleftrightarrow> f_policy f = Bfs \<and> (\<exists>k n. map_of (f_nodes f) k = Some n \<and> n_phase n = Inflight \<and>
     (\<forall>k' n'. map_of (f_nodes f) k' = Some n' \<longrightarrow> n_phase n' = Pending \<longrightarrow> n_depth n < n_depth n'))"

lemma selectable_dfs:
  assumes inv: "frontier_inv f" and "f_policy f = Dfs" "f_pending f \<noteq> []"
  shows "selectable f (snd (last (f_pending f)))"
proof -
  obtain s k where l: "last (f_pending f) = (s, k)" by fastforce
  have idx: "index_inv f" using inv by (simp add: frontier_inv_def)
  have "(s, k) \<in> set (f_pending f)" using l last_in_set [OF assms(3)] by simp
  from pending_key [OF idx this] obtain n where
    n: "map_of (f_nodes f) k = Some n" "n_phase n = Pending" "n_sequence n = s" .
  have "n_sequence n' \<le> s" if "map_of (f_nodes f) k' = Some n'" "n_phase n' = Pending" for k' n'
  proof -
    have "map_of (f_pending f) (n_sequence n') = Some k'"
      using idx that unfolding index_inv_def pending_inv_def by blast
    from om_ok_last_greatest [OF _ assms(3) this] idx l show ?thesis
      by (simp add: index_inv_def pending_inv_def)
  qed
  with n l assms(2) show ?thesis by (auto simp: selectable_def)
qed

lemma selectable_bfs:
  assumes inv: "frontier_inv f" and bfs: "f_policy f = Bfs"
    and b: "f_bfs_pending f = ((d, s), k) # bs" and l: "f_active_layers f = (d, c) # ls"
  shows "selectable f k"
proof -
  have idx: "index_inv f" using inv by (simp add: frontier_inv_def)
  have "((d, s), k) \<in> set (f_bfs_pending f)" using b by simp
  from bfs_key [OF idx bfs this] obtain n where
    n: "map_of (f_nodes f) k = Some n" "n_phase n = Pending" "n_depth n = d" "n_sequence n = s" .
  have "d < n_depth n' \<or> d = n_depth n' \<and> (n_phase n' = Pending \<longrightarrow> s \<le> n_sequence n')"
    if n': "map_of (f_nodes f) k' = Some n'" "active_phase (n_phase n')" for k' n'
  proof -
    have least: "d \<le> n_depth n'" by (rule layer_least [OF idx bfs l n'])
    have "(d, s) \<le> (n_depth n', n_sequence n')" if "n_phase n' = Pending"
    proof -
      have "map_of (f_bfs_pending f) (n_depth n', n_sequence n') = Some k'"
        using idx bfs n'(1) that unfolding index_inv_def bfs_inv_def by blast
      from om_ok_hd_least [OF _ _ this] idx b show ?thesis
        by (simp add: index_inv_def bfs_inv_def)
    qed
    with least show ?thesis by (auto simp: less_eq_prod_def)
  qed
  with n bfs show ?thesis by (auto simp: selectable_def)
qed

lemma selectable_priority:
  assumes inv: "frontier_inv f" and "f_policy f = Priority" "f_pending f \<noteq> []"
    "select_priority f = Inr (k, c)"
  shows "selectable f k"
proof -
  have idx: "index_inv f" using inv by (simp add: frontier_inv_def)
  obtain prio where prio: "f_priority f = Some prio"
    using inv assms(2) by (auto simp: frontier_inv_def)
  from select_priority_ok [OF inv prio assms(3,4)] obtain s where
    s: "prio_least prio (f_nodes f) (f_pending f) s k" by blast
  then have "(s, k) \<in> set (f_pending f)" by (simp add: prio_least_def)
  from pending_key [OF idx this] s prio assms(2) show ?thesis
    by (auto simp: selectable_def)
qed

lemma bfs_barrier_mismatch:
  assumes inv: "frontier_inv f" and bfs: "f_policy f = Bfs"
    and b: "f_bfs_pending f = ((d, s), k) # bs" and l: "f_active_layers f = (layer, c) # ls"
    and ne: "d \<noteq> layer"
  shows "bfs_barrier f"
proof -
  have idx: "index_inv f" using inv by (simp add: frontier_inv_def)
  have head: "d \<le> n_depth n'" if "map_of (f_nodes f) k' = Some n'" "n_phase n' = Pending" for k' n'
  proof -
    have "map_of (f_bfs_pending f) (n_depth n', n_sequence n') = Some k'"
      using idx bfs that unfolding index_inv_def bfs_inv_def by blast
    from om_ok_hd_least [OF _ _ this] idx b have "(d, s) \<le> (n_depth n', n_sequence n')"
      by (simp add: index_inv_def bfs_inv_def)
    then show ?thesis by (auto simp: less_eq_prod_def)
  qed
  have "((d, s), k) \<in> set (f_bfs_pending f)" using b by simp
  from bfs_key [OF idx bfs this] obtain n where
    n: "map_of (f_nodes f) k = Some n" "n_phase n = Pending" "n_depth n = d" by metis
  have less: "layer < d"
    using layer_least [OF idx bfs l n(1)] n(2,3) ne by (auto simp: active_phase_def)
  have "map_of (f_active_layers f) layer \<noteq> None" using l by simp
  from layer_node [OF idx bfs this] obtain kl nl where
    nl: "map_of (f_nodes f) kl = Some nl" "active_phase (n_phase nl)" "n_depth nl = layer" .
  have "n_phase nl = Inflight"
    using nl head [OF nl(1)] less by (auto simp: active_phase_def)
  with nl less head bfs show ?thesis
    unfolding bfs_barrier_def by (meson less_le_trans)
qed

definition lease_error :: "frontier \<Rightarrow> exn \<Rightarrow> bool" where
  "lease_error f e \<longleftrightarrow>
     f_poisoned f \<and> e = Runtime_error ''frontier poisoned by allocation failure'' \<or>
     f_next_lease f = - 1 \<and> e = Overflow_error ''frontier lease IDs exhausted'' \<or>
     (\<exists>prio k n. f_priority f = Some prio \<and> map_of (f_nodes f) k = Some n \<and>
        prio k (n_depth n) = Inl e)"

definition no_pending :: "frontier \<Rightarrow> bool" where
  "no_pending f \<longleftrightarrow> (\<forall>k n. map_of (f_nodes f) k = Some n \<longrightarrow> n_phase n \<noteq> Pending)"

lemma no_pending_iff:
  assumes "index_inv f" shows "f_pending f = [] \<longleftrightarrow> no_pending f"
proof
  show "f_pending f = [] \<Longrightarrow> no_pending f"
    using pending_entry [OF assms] by (fastforce simp: no_pending_def)
  assume np: "no_pending f"
  show "f_pending f = []"
  proof (rule ccontr)
    assume "f_pending f \<noteq> []"
    then obtain s k where "(s, k) \<in> set (f_pending f)" by (cases "f_pending f") auto
    from pending_key [OF assms this] np show False by (auto simp: no_pending_def)
  qed
qed

definition lease_outcome ::
  "worker_id \<Rightarrow> frontier \<Rightarrow> exn + ticket option \<Rightarrow> frontier \<Rightarrow> bool" where
  "lease_outcome w f r f' \<longleftrightarrow> (case r of
       Inl e \<Rightarrow> f' = f \<and> lease_error f e
     | Inr None \<Rightarrow> f' = f \<and> (no_pending f \<or> bfs_barrier f)
     | Inr (Some t) \<Rightarrow> selectable f (t_state t) \<and> lease_step w t f f')"

lemma lease_finish:
  assumes "frontier_inv f" "selectable f k"
    and "(case finalize_lease w k c f of (Inl e, f') \<Rightarrow> (Inl e, f') | (Inr t, f') \<Rightarrow> (Inr (Some t), f'))
       = (r, f')"
  shows "lease_outcome w f r f'"
proof -
  obtain n where n: "map_of (f_nodes f) k = Some n" "n_phase n = Pending"
    using assms(2) by (auto simp: selectable_def)
  obtain r0 g where fin: "finalize_lease w k c f = (r0, g)" by fastforce
  show ?thesis
    using finalize_lease_step [OF assms(1) n fin] assms(2,3) fin
    by (auto simp: lease_outcome_def lease_error_def split: sum.splits)
qed

lemma lease_result:
  assumes inv: "frontier_inv f" and l: "lease w f = (r, f')"
  shows "lease_outcome w f r f'"
proof (cases "f_poisoned f \<or> f_pending f = []")
  case True
  have idx: "index_inv f" using inv by (simp add: frontier_inv_def)
  show ?thesis
  proof (cases "f_poisoned f")
    case True
    with l show ?thesis
      by (auto simp: lease_def ensure_healthy_def lease_outcome_def lease_error_def)
  next
    case False
    with True l no_pending_iff [OF idx] show ?thesis
      by (auto simp: lease_def ensure_healthy_def lease_outcome_def)
  qed
next
  case False
  then have ok: "\<not> f_poisoned f" and ne: "f_pending f \<noteq> []" by auto
  have idx: "index_inv f" using inv by (simp add: frontier_inv_def)
  show ?thesis
  proof (cases "f_policy f")
    case Dfs
    with l ok ne show ?thesis
      by (intro lease_finish [OF inv selectable_dfs [OF inv Dfs ne], of w 1])
        (simp add: lease_def ensure_healthy_def)
  next
    case Bfs
    obtain d s k bs layer c ls where b: "f_bfs_pending f = ((d, s), k) # bs"
      and a: "f_active_layers f = (layer, c) # ls"
      by (rule bfs_indexes [OF idx Bfs ne])
    show ?thesis
    proof (cases "d = layer")
      case True
      with l ok ne Bfs b a show ?thesis
        by (intro lease_finish [OF inv selectable_bfs [OF inv Bfs b], of c ls w 1])
          (simp_all add: lease_def ensure_healthy_def)
    next
      case False
      with l ok ne Bfs b a bfs_barrier_mismatch [OF inv Bfs b a False] show ?thesis
        by (auto simp: lease_def ensure_healthy_def lease_outcome_def)
    qed
  next
    case Priority
    show ?thesis
    proof (cases "select_priority f")
      case (Inl e)
      obtain prio where prio: "f_priority f = Some prio"
        using inv Priority by (auto simp: frontier_inv_def)
      have "r = Inl e" "f' = f"
        using l ok ne Priority Inl by (auto simp: lease_def ensure_healthy_def)
      with select_priority_error [OF inv prio ne Inl] prio show ?thesis
        by (auto simp: lease_outcome_def lease_error_def)
    next
      case (Inr p)
      obtain k c where p: "p = (k, c)" by fastforce
      with l ok ne Priority Inr show ?thesis
        by (intro lease_finish [OF inv selectable_priority [OF inv Priority ne Inr [unfolded p]], of w c])
          (simp add: lease_def ensure_healthy_def)
    qed
  qed
qed

section \<open>Scored leases\<close>

definition score_best :: "scorer \<Rightarrow> state_key list \<Rightarrow> state_key \<Rightarrow> bool" where
  "score_best score ks k \<longleftrightarrow> k \<in> set ks \<and>
     (\<exists>s. score k = Inr s \<and> (\<forall>k' \<in> set ks. \<exists>s'. score k' = Inr s' \<and> s' \<le> s))"

lemma consider_all_from:
  "consider_all score window sel best c ks = Inr (k, c') \<Longrightarrow> 0 < c \<Longrightarrow> score sel = Inr best \<Longrightarrow>
     score_best score (sel # take (window - c) ks) k"
proof (induction ks arbitrary: sel best c)
  case Nil
  then show ?case by (simp add: score_best_def)
next
  case (Cons x ks)
  show ?case
  proof (cases "window \<le> c")
    case True
    with Cons.prems show ?thesis by (simp add: score_best_def)
  next
    case False
    then have t: "take (window - c) (x # ks) = x # take (window - (c + 1)) ks"
      by (metis Suc_diff_le Suc_eq_plus1 diff_Suc_Suc not_less_eq_eq take_Suc_Cons)
    obtain s where s: "score x = Inr s" using Cons.prems(1) False by (auto split: sum.splits)
    show ?thesis
    proof (cases "best < s")
      case True
      then have "score_best score (x # take (window - (c + 1)) ks) k"
        using Cons.IH [of x s "c + 1"] Cons.prems False s by simp
      with s True Cons.prems(3) t show ?thesis by (fastforce simp: score_best_def)
    next
      case False
      then have "score_best score (sel # take (window - (c + 1)) ks) k"
        using Cons.IH [of sel best "c + 1"] Cons.prems \<open>\<not> window \<le> c\<close> s by simp
      with s False Cons.prems(3) t show ?thesis by (fastforce simp: score_best_def)
    qed
  qed
qed

lemma consider_all_best:
  assumes "consider_all score window 0 0 0 ks = Inr (k, c)" "0 < window" "ks \<noteq> []"
  shows "score_best score (take window ks) k"
proof -
  obtain x xs where ks: "ks = x # xs" using assms(3) by (cases ks) auto
  obtain s where s: "score x = Inr s" using assms ks by (auto split: sum.splits)
  with assms ks have "consider_all score window x s 1 xs = Inr (k, c)" by simp
  from consider_all_from [OF this] s have "score_best score (x # take (window - 1) xs) k" by simp
  then show ?thesis using assms(2) ks by (cases window) simp_all
qed

text \<open>The keys that a scored lease looks at, in dispatch order.\<close>

definition scored_keys :: "frontier \<Rightarrow> state_key list" where
  "scored_keys f =
     (if f_policy f = Bfs
      then map snd (takeWhile (\<lambda>((d, _), _). d = fst (hd (f_active_layers f))) (f_bfs_pending f))
      else map snd (rev (f_pending f)))"

lemma scored_keys_pending:
  assumes inv: "frontier_inv f" and k: "k \<in> set (scored_keys f)"
  obtains n where "map_of (f_nodes f) k = Some n" "n_phase n = Pending"
    "f_policy f = Bfs \<Longrightarrow> n_depth n = fst (hd (f_active_layers f))"
proof (cases "f_policy f = Bfs")
  case True
  have idx: "index_inv f" using inv by (simp add: frontier_inv_def)
  from k True obtain d s where "((d, s), k) \<in> set (f_bfs_pending f)" "d = fst (hd (f_active_layers f))"
    by (auto simp: scored_keys_def dest!: set_takeWhileD)
  with bfs_key [OF idx True this(1)] that show thesis by metis
next
  case False
  have idx: "index_inv f" using inv by (simp add: frontier_inv_def)
  from k False obtain s where "(s, k) \<in> set (f_pending f)" by (auto simp: scored_keys_def)
  with pending_key [OF idx this] that False show thesis by metis
qed

definition scored_outcome ::
  "worker_id \<Rightarrow> scorer \<Rightarrow> nat \<Rightarrow> frontier \<Rightarrow> exn + ticket option \<Rightarrow> frontier \<Rightarrow> bool" where
  "scored_outcome w score window f r f' \<longleftrightarrow> (case r of
       Inl _ \<Rightarrow> f' = f
     | Inr None \<Rightarrow> f' = f \<and> (no_pending f \<or> bfs_barrier f)
     | Inr (Some t) \<Rightarrow> score_best score (take window (scored_keys f)) (t_state t) \<and>
         lease_step w t f f' \<and>
         (f_policy f = Bfs \<longrightarrow> (\<forall>k n. map_of (f_nodes f) k = Some n \<longrightarrow> active_phase (n_phase n) \<longrightarrow>
            t_depth t \<le> n_depth n)))"

lemma lease_step_depth:
  assumes "lease_step w t f f'" "map_of (f_nodes f) (t_state t) = Some n"
  shows "t_depth t = n_depth n"
proof -
  have "t = fresh_ticket w (t_state t) n f" using assms by (auto simp: lease_step_def)
  then have "t_depth t = t_depth (fresh_ticket w (t_state t) n f)" by (rule arg_cong)
  then show ?thesis by (simp add: fresh_ticket_def)
qed

lemma scored_finish:
  assumes inv: "frontier_inv f" and ne: "f_pending f \<noteq> []" "scored_keys f \<noteq> []" "0 < window"
    and r: "(case consider_all score window 0 0 0 (scored_keys f) of
          Inl e \<Rightarrow> (Inl e, f)
        | Inr (key, count) \<Rightarrow>
            (case finalize_lease w key count f of
               (Inl e, f') \<Rightarrow> (Inl e, f') | (Inr t, f') \<Rightarrow> (Inr (Some t), f'))) = (r, f')"
  shows "scored_outcome w score window f r f'"
proof (cases "consider_all score window 0 0 0 (scored_keys f)")
  case (Inl e)
  with r show ?thesis by (auto simp: scored_outcome_def)
next
  case (Inr p)
  obtain k c where p: "p = (k, c)" by fastforce
  from consider_all_best [OF Inr [unfolded p] ne(3,2)]
  have best: "score_best score (take window (scored_keys f)) k" .
  then have "k \<in> set (scored_keys f)" by (auto simp: score_best_def dest: in_set_takeD)
  from scored_keys_pending [OF inv this] obtain n where n: "map_of (f_nodes f) k = Some n"
    "n_phase n = Pending" "f_policy f = Bfs \<Longrightarrow> n_depth n = fst (hd (f_active_layers f))" by metis
  obtain r0 g where fin: "finalize_lease w k c f = (r0, g)" by fastforce
  have idx: "index_inv f" using inv by (simp add: frontier_inv_def)
  have least: "n_depth n \<le> n_depth n'" if bfs: "f_policy f = Bfs"
    and n': "map_of (f_nodes f) k' = Some n'" "active_phase (n_phase n')" for k' n'
  proof -
    obtain d s k0 bs layer c ls where "f_active_layers f = (layer, c) # ls"
      by (rule bfs_indexes [OF idx bfs ne(1)])
    from layer_least [OF idx bfs this n'] n(3) [OF bfs] this show ?thesis by simp
  qed
  have "case r0 of Inl e \<Rightarrow> g = f | Inr t \<Rightarrow> t_state t = k \<and> lease_step w t f g \<and> t_depth t = n_depth n"
    using finalize_lease_step [OF inv n(1,2) fin] n(1) lease_step_depth [of w _ f g n]
    by (auto split: sum.splits)
  with r Inr p fin best least show ?thesis
    by (auto simp: scored_outcome_def split: sum.splits)
qed

lemma lease_scored_result:
  assumes inv: "frontier_inv f" and pol: "f_policy f \<noteq> Priority"
    and l: "lease_scored w (Some score) window f = (r, f')"
  shows "scored_outcome w score window f r f'"
proof (cases "f_poisoned f \<or> window = 0")
  case True
  with l pol show ?thesis
    by (auto simp: lease_scored_def ensure_healthy_def scored_outcome_def split: if_splits)
next
  case False
  have idx: "index_inv f" using inv by (simp add: frontier_inv_def)
  show ?thesis
  proof (cases "f_pending f = []")
    case True
    with False l pol no_pending_iff [OF idx] show ?thesis
      by (auto simp: lease_scored_def ensure_healthy_def scored_outcome_def)
  next
    case ne: False
    show ?thesis
    proof (cases "f_policy f = Bfs")
      case bfs: True
      obtain d s k bs layer c ls where b: "f_bfs_pending f = ((d, s), k) # bs"
        and a: "f_active_layers f = (layer, c) # ls"
        by (rule bfs_indexes [OF idx bfs ne])
      show ?thesis
      proof (cases "d = layer")
        case True
        with b a bfs have "scored_keys f \<noteq> []" by (simp add: scored_keys_def)
        moreover have "scored_keys f
            = map snd (takeWhile (\<lambda>((d', _), _). d' = layer) (f_bfs_pending f))"
          using a bfs by (simp add: scored_keys_def)
        ultimately show ?thesis
          using l False ne bfs b a True
          by (intro scored_finish [OF inv ne]) (auto simp: lease_scored_def ensure_healthy_def)
      next
        case ne': False
        with l False ne bfs b a bfs_barrier_mismatch [OF inv bfs b a ne'] show ?thesis
          by (auto simp: lease_scored_def ensure_healthy_def scored_outcome_def)
      qed
    next
      case nb: False
      have "scored_keys f = map snd (rev (f_pending f))" using nb by (simp add: scored_keys_def)
      with l False ne nb pol show ?thesis
        by (intro scored_finish [OF inv ne]) (auto simp: lease_scored_def ensure_healthy_def)
    qed
  qed
qed

end
