(* ===== verification/Frontier_Commit.thy ===== *)
theory Frontier_Commit
  imports Frontier_Lease
begin

text \<open>
  Committing an expansion and requeueing the leases of a lost worker. A commit that passes the
  checks of \<open>commit\<close> always completes: the propagation of its successors cannot run out of the
  capacity or of the sequence numbers that were checked, so a failed commit changes nothing.
\<close>

section \<open>The stored result\<close>

definition stored_phase :: "frontier \<Rightarrow> node \<Rightarrow> expansion \<Rightarrow> node_phase" where
  "stored_phase f n e = (if phase_of_result (e_kind e) = DepthCut \<and> n_depth n < f_limit f then Pending
     else phase_of_result (e_kind e))"

definition stored :: "frontier \<Rightarrow> node \<Rightarrow> expansion \<Rightarrow> node" where
  "stored f n e = n\<lparr>n_successors := e_successors e, n_reason := e_reason e,
     n_phase := stored_phase f n e, n_ticket := None\<rparr>"

lemma stored_simps [simp]:
  "n_depth (stored f n e) = n_depth n" "n_sequence (stored f n e) = n_sequence n"
  "n_successors (stored f n e) = e_successors e" "n_phase (stored f n e) = stored_phase f n e"
  "n_ticket (stored f n e) = None"
  by (simp_all add: stored_def)

lemma index_remove_same: "same_index n n1 \<Longrightarrow> index_remove n1 f = index_remove n f"
  by (simp add: index_remove_def same_index_def)

lemma commit_store_form:
  assumes "om_ok (f_nodes f)" "map_of (f_nodes f) (t_state t) = Some n"
  shows "commit_store t e f =
     (reindex (t_state t) n (n\<lparr>n_successors := e_successors e, n_reason := e_reason e,
        n_phase := stored_phase f n e\<rparr>) f)\<lparr>f_nodes := om_put (t_state t) (stored f n e) (f_nodes f)\<rparr>"
proof -
  have "index_remove (n\<lparr>n_successors := e_successors e, n_reason := e_reason e\<rparr>) f = index_remove n f"
    by (rule index_remove_same) (simp add: same_index_def)
  then show ?thesis
    by (simp add: commit_store_def assms Let_def update_node_reindex reindex_def stored_def
        stored_phase_def om.put_put)
qed

lemma frame_commit_store:
  assumes "om_ok (f_nodes f)" "map_of (f_nodes f) (t_state t) = Some n"
  shows "f_nodes (commit_store t e f) = om_put (t_state t) (stored f n e) (f_nodes f)"
    "same_env f (commit_store t e f)" "f_next_sequence (commit_store t e f) = f_next_sequence f"
  by (simp_all add: commit_store_form [OF assms] same_env_def)

text \<open>What the checks of \<open>commit\<close> establish.\<close>

definition commit_allowed :: "ticket \<Rightarrow> expansion \<Rightarrow> node \<Rightarrow> frontier \<Rightarrow> bool" where
  "commit_allowed t e n f \<longleftrightarrow> \<not> f_poisoned f \<and> map_of (f_nodes f) (t_state t) = Some n \<and>
     n_phase n = Inflight \<and> n_ticket n = Some t \<and>
     (phase_of_result (e_kind e) = Expanded \<longrightarrow> t_may_expand t) \<and>
     (phase_of_result (e_kind e) = DepthCut \<longrightarrow> \<not> t_may_expand t) \<and>
     (phase_of_result (e_kind e) \<noteq> Expanded \<longrightarrow> e_successors e = []) \<and>
     (phase_of_result (e_kind e) \<in> {ModelBudget, Failure} \<longrightarrow> e_reason e \<noteq> []) \<and>
     length (f_nodes f) + length (missing_keys f (e_successors e)) \<le> f_max_states f \<and>
     unat (f_next_sequence f) + length (missing_keys f (e_successors e)) < 2 ^ 64"

lemma unat_rest: "unat (- 1 - x :: u64) = 2 ^ 64 - 1 - unat x"
proof -
  have "x \<le> - 1" by simp
  then have "unat (- 1 - x) = unat (- 1 :: u64) - unat x" by (rule unat_sub)
  then show ?thesis by (simp add: unsigned_minus_1_eq_mask mask_eq_exp_minus_1)
qed

lemma frontier_inv_node:
  "frontier_inv f \<Longrightarrow> map_of (f_nodes f) k = Some n \<Longrightarrow> node_ok f k n"
  by (simp add: frontier_inv_def nodes_ok_def)

lemma ticket_eq_iff:
  "t_state u = t_state t \<Longrightarrow> u = t \<longleftrightarrow> t_worker u = t_worker t \<and> t_lease_id u = t_lease_id t \<and>
     t_depth u = t_depth t \<and> t_may_expand u = t_may_expand t" for u t :: ticket
  by (cases u; cases t) auto

lemma commit_check_iff:
  assumes inv: "frontier_inv f"
  shows "commit_check t e f = None \<longleftrightarrow> (\<exists>n. commit_allowed t e n f)"
proof (cases "map_of (f_nodes f) (t_state t)")
  case None
  then show ?thesis
    by (auto simp: commit_check_def commit_allowed_def ensure_healthy_def)
next
  case (Some n)
  have own: "t_state u = t_state t" if "n_ticket n = Some u" for u
    using frontier_inv_node [OF inv Some] that by (simp add: node_ok_def ticket_ok_def)
  have len: "length (f_nodes f) \<le> f_max_states f" using inv by (simp add: frontier_inv_def)
  have cap: "\<not> f_max_states f - length (f_nodes f) < m \<longleftrightarrow> length (f_nodes f) + m \<le> f_max_states f" for m
    using len by auto
  have "uint (- 1 - f_next_sequence f) = int (unat (- 1 - f_next_sequence f))" by simp
  also have "\<dots> = 18446744073709551615 - int (unat (f_next_sequence f))"
    unfolding unat_rest using unat_u64_bound [of "f_next_sequence f"] by simp
  finally have rest: "uint (- 1 - f_next_sequence f) = 18446744073709551615 - int (unat (f_next_sequence f))" .
  have "(2 :: nat) ^ 64 = 18446744073709551616" by simp
  with rest have sq: "\<not> uint (- 1 - f_next_sequence f) < int m \<longleftrightarrow>
      unat (f_next_sequence f) + m < 2 ^ 64" for m by linarith
  have match: "(case n_ticket n of None \<Rightarrow> True
      | Some u \<Rightarrow> t_worker u \<noteq> t_worker t \<or> t_lease_id u \<noteq> t_lease_id t
                  \<or> t_depth u \<noteq> t_depth t \<or> t_may_expand u \<noteq> t_may_expand t) \<longleftrightarrow> n_ticket n \<noteq> Some t"
  proof (cases "n_ticket n")
    case (Some u)
    then show ?thesis using ticket_eq_iff [OF own [OF Some]] by simp
  qed simp
  show ?thesis
    unfolding commit_check_def commit_allowed_def ensure_healthy_def cap [symmetric] sq [symmetric]
    by (cases "e_kind e") (auto simp: Some Let_def match)
qed

lemma stored_ok:
  assumes inv: "frontier_inv f" and ok: "commit_allowed t e n f"
  shows "node_ok f (t_state t) (stored f n e)"
proof -
  have n: "node_ok f (t_state t) n"
    using frontier_inv_node [OF inv] ok by (simp add: commit_allowed_def)
  then have d: "n_depth n \<le> f_limit f" "n_depth n \<le> t_depth t" "t_may_expand t \<longleftrightarrow> t_depth t < f_limit f"
    using ok by (auto simp: node_ok_def ticket_ok_def commit_allowed_def)
  have exp: "n_depth n < f_limit f" if "phase_of_result (e_kind e) = Expanded"
    using d ok that by (auto simp: commit_allowed_def)
  show ?thesis
    using d(1) exp ok
    by (cases "e_kind e") (auto simp: node_ok_def stored_phase_def commit_allowed_def)
qed

lemma index_inv_commit_store:
  assumes "index_inv f" "map_of (f_nodes f) (t_state t) = Some n"
  shows "index_inv (commit_store t e f)"
  using assms index_invD(1) [OF assms(1)]
  by (simp add: commit_store_form) (rule index_inv_reindex_store, simp_all add: same_index_def)

definition owed :: "u64 \<Rightarrow> state_key list \<Rightarrow> (state_key \<times> u64) set" where
  "owed d ks = (\<lambda>s. (s, d + 1)) ` set ks"

lemma commit_store_inv:
  assumes inv: "frontier_inv f" and ok: "commit_allowed t e n f"
  shows "prop_inv (owed (n_depth n) (e_successors e)) [] (commit_store t e f)" (is "prop_inv ?R [] ?f")
proof (rule prop_invI)
  have n: "map_of (f_nodes f) (t_state t) = Some n" using ok by (simp add: commit_allowed_def)
  have idx: "index_inv f" "nodes_ok f" "relaxed {} f" "lease_inv f" "om_ok (f_nodes f)"
    using inv by (auto simp: frontier_inv_def index_inv_def)
  note frame = frame_commit_store [OF idx(5) n, of e]
  note nodes = frame(1)
  show "index_inv ?f" by (rule index_inv_commit_store [OF idx(1) n])
  show "nodes_ok ?f"
    using idx(2) nodes
  proof (rule nodes_ok_put)
    show "node_ok ?f (t_state t) (stored f n e)"
      using stored_ok [OF inv ok] frame(2) by (elim node_ok_mono) (simp_all add: same_env_def)
  qed (use frame(2) in \<open>simp_all add: same_env_def\<close>)
  show "relaxed (set [] \<union> ?R) ?f"
    using idx(3) nodes by (rule relaxed_put) (use n in \<open>auto simp: owed_def\<close>)
  show "lease_inv ?f"
    using idx(4) nodes by (rule lease_inv_put) simp
  show "length (f_nodes ?f) \<le> f_max_states ?f"
    using inv nodes n idx(5) frame(2) by (simp add: frontier_inv_def om_put_in same_env_def)
qed simp

lemma commit_store_room:
  assumes inv: "frontier_inv f" and ok: "commit_allowed t e n f"
  shows "room (set (missing_keys f (e_successors e))) [] (commit_store t e f)" (is "room ?M [] ?f")
proof -
  have n: "map_of (f_nodes f) (t_state t) = Some n" using ok by (simp add: commit_allowed_def)
  have oko: "om_ok (f_nodes f)" using inv by (auto simp: frontier_inv_def index_inv_def)
  note frame = frame_commit_store [OF oko n, of e]
  have "absent ?f ?M = absent f ?M"
    using frame(1) n by (intro absent_same) auto
  also have "\<dots> = ?M" by (auto simp: absent_def missing_keys_def)
  finally have card: "card (absent ?f ?M) = length (missing_keys f (e_successors e))"
    using distinct_card [of "missing_keys f (e_successors e)"] by (simp add: missing_keys_def)
  have len: "length (f_nodes ?f) = length (f_nodes f)"
    using frame(1) n oko by (simp add: om_put_in)
  have dom: "map_of (f_nodes ?f) x \<noteq> None \<longleftrightarrow> map_of (f_nodes f) x \<noteq> None" for x
    using frame(1) n by simp
  have succ: "map_of (f_nodes f) s \<noteq> None \<or> s \<in> ?M"
    if "map_of (f_nodes ?f) k = Some m" "s \<in> set (n_successors m)" for k m s
  proof (cases "k = t_state t")
    case True
    with that frame(1) have "s \<in> set (e_successors e)" by auto
    then show ?thesis by (auto simp: missing_keys_def)
  next
    case False
    with that frame(1) have "map_of (f_nodes f) k = Some m" by simp
    from room_successors [OF inv this that(2)] show ?thesis by simp
  qed
  show ?thesis
    unfolding room_def dom
    using card len succ ok frame(2,3) by (simp add: commit_allowed_def same_env_def)
qed

section \<open>Propagating the successors\<close>

lemma grows_lookup:
  assumes "grows f f'" "map_of (f_nodes f) k = Some n"
  obtains n' where "map_of (f_nodes f') k = Some n'" "closer n n'"
  using assms unfolding grows_def by blast

lemma inc_mono:
  assumes "d \<le> d0" "d0 < l" shows "d + 1 \<le> d0 + (1 :: u64)"
proof -
  have "d0 \<noteq> - 1" using assms(2) by auto
  moreover from this have "d \<noteq> - 1" using assms(1) by (metis antisym word_n1_ge)
  ultimately show ?thesis
    using assms(1) unat_Suc [of d] unat_Suc [of d0] by (simp add: word_le_nat_alt)
qed

lemma propagate_successors_ok:
  assumes "prop_inv (owed d0 keys) [] f" "room M [] f" "map_of (f_nodes f) src = Some n"
    "n_depth n \<le> d0" "keys \<noteq> [] \<Longrightarrow> d0 < f_limit f"
    "\<And>s. s \<in> set keys \<Longrightarrow> map_of (f_nodes f) s \<noteq> None \<or> s \<in> M"
  shows "\<exists>f'. propagate_successors src keys f = (Inr (), f') \<and> prop_inv {} [] f' \<and> same_env f f' \<and>
     grows f f'"
  using assms
proof (induction keys arbitrary: f n)
  case Nil
  then show ?case by (simp add: owed_def)
next
  case (Cons key keys)
  have lim: "d0 + 1 \<le> f_limit f" "n_depth n + 1 \<le> d0 + 1"
    using Cons.prems(4,5) by (auto intro: inc_le inc_mono)
  have start: "prop_inv (owed d0 keys) [(key, n_depth n + 1)] f"
  proof (rule prop_inv_start [OF Cons.prems(1)])
    show "n_depth n + 1 \<le> f_limit f" using lim by (rule_tac order_trans)
    show "\<And>s e. (s, e) \<in> owed d0 (key # keys) \<Longrightarrow>
        (s, e) \<in> owed d0 keys \<or> s = key \<and> n_depth n + 1 \<le> e"
      using lim(2) by (auto simp: owed_def)
  qed
  have room: "room M [(key, n_depth n + 1)] f"
    using Cons.prems(2,6) by (simp add: room_def)
  obtain g where g: "propagate key (n_depth n + 1) f = (Inr (), g)" "prop_inv (owed d0 keys) [] g"
    "room M [] g" "same_env f g" "grows f g"
    by (rule propagate_ok [OF start room])
  from grows_lookup [OF g(5) Cons.prems(3)] obtain m where
    m: "map_of (f_nodes g) src = Some m" "closer n m" .
  have "\<exists>f'. propagate_successors src keys g = (Inr (), f') \<and> prop_inv {} [] f' \<and> same_env g f' \<and>
     grows g f'"
  proof (rule Cons.IH [OF g(2,3) m(1)])
    show "n_depth m \<le> d0" using m(2) Cons.prems(4) by (auto simp: closer_def)
    show "d0 < f_limit g" using Cons.prems(5) g(4) by (simp add: same_env_def)
    show "map_of (f_nodes g) s \<noteq> None \<or> s \<in> M" if "s \<in> set keys" for s
      using Cons.prems(6) [of s] that grows_lookup [OF g(5), of s] by (metis list.set_intros(2) not_None_eq)
  qed
  with g(1,4,5) Cons.prems(3) show ?case
    by (auto intro: same_env_trans grows_trans)
qed

lemma commit_result:
  assumes inv: "frontier_inv f" and c: "commit t e f = (r, f')"
  shows "case r of
           Inl x \<Rightarrow> f' = f \<and> commit_check t e f = Some x
         | Inr _ \<Rightarrow> frontier_inv f' \<and> same_env f f' \<and> grows (commit_store t e f) f' \<and>
             (\<exists>n. commit_allowed t e n f)"
proof (cases "commit_check t e f")
  case (Some x)
  with c show ?thesis by (auto simp: commit_def)
next
  case None
  with commit_check_iff [OF inv] obtain n where ok: "commit_allowed t e n f" by blast
  have n: "map_of (f_nodes f) (t_state t) = Some n" using ok by (simp add: commit_allowed_def)
  have oko: "om_ok (f_nodes f)" using inv by (auto simp: frontier_inv_def index_inv_def)
  note frame = frame_commit_store [OF oko n, of e]
  have phase: "n_depth n < f_limit (commit_store t e f)" if "e_successors e \<noteq> []"
    using stored_ok [OF inv ok] ok that frame(2)
    by (auto simp: node_ok_def stored_phase_def commit_allowed_def same_env_def split: if_splits)
  have "\<exists>g. propagate_successors (t_state t) (e_successors e) (commit_store t e f) = (Inr (), g) \<and>
      prop_inv {} [] g \<and> same_env (commit_store t e f) g \<and> grows (commit_store t e f) g"
    using commit_store_inv [OF inv ok] commit_store_room [OF inv ok]
  proof (rule propagate_successors_ok)
    show "map_of (f_nodes (commit_store t e f)) (t_state t) = Some (stored f n e)"
      using frame(1) by simp
    show "map_of (f_nodes (commit_store t e f)) s \<noteq> None \<or> s \<in> set (missing_keys f (e_successors e))"
      if "s \<in> set (e_successors e)" for s
      using that frame(1) by (auto simp: missing_keys_def)
  qed (use phase in auto)
  then obtain g where g: "propagate_successors (t_state t) (e_successors e) (commit_store t e f) = (Inr (), g)"
    "prop_inv {} [] g" "same_env (commit_store t e f) g" "grows (commit_store t e f) g" by blast
  have "r = Inr ()" and f': "\<exists>c. f' = g\<lparr>f_counters := c\<rparr>"
    using c None g(1) by (auto simp: commit_def)
  moreover have "frontier_inv g"
    using inv g(2,3) frame(2) by (simp add: frontier_inv_prop same_env_def)
  ultimately show ?thesis
    using ok same_env_trans [OF frame(2) g(3)] g(4)
    by (auto simp: grows_def same_env_def)
qed

end
