(* ===== verification/Frontier_Search.thy ===== *)
theory Frontier_Search
  imports Frontier_Commit
begin

text \<open>
  The search as a whole: requeueing of lost leases, the runs of the coordinator, and what a
  finished search has covered. The main results are that a finished search records exactly the
  states within the depth bound, each at its shortest distance from the admitted states, and
  that a lost worker never loses a state.
\<close>

section \<open>Lost workers\<close>

definition held :: "worker_id \<Rightarrow> node \<Rightarrow> bool" where
  "held w n \<longleftrightarrow> (case n_ticket n of None \<Rightarrow> False | Some t \<Rightarrow> t_worker t = w)"

definition released :: "node \<Rightarrow> node" where
  "released n = n\<lparr>n_phase := Pending, n_ticket := None\<rparr>"

definition release :: "state_key \<Rightarrow> node \<Rightarrow> frontier \<Rightarrow> frontier" where
  "release k n f = (let f1 = update_node k n Pending (n_depth n) f
     in f1\<lparr>f_nodes := om_put k (released n) (f_nodes f1)\<rparr>)"

lemma requeue_worker_Cons:
  "requeue_worker w ((k, n) # xs) f =
     (if held w n then (let (c, f2) = requeue_worker w xs (release k n f) in (Suc c, f2))
      else requeue_worker w xs f)"
  by (simp add: held_def release_def released_def Let_def split: option.split)

declare requeue_worker.simps(2) [simp del]

lemma release_form:
  assumes "om_ok (f_nodes f)"
  shows "release k n f = (reindex k n (n\<lparr>n_phase := Pending\<rparr>) f)
     \<lparr>f_nodes := om_put k (released n) (f_nodes f)\<rparr>"
  by (simp add: release_def Let_def update_node_reindex om.put_put [OF assms])

lemma release_ok:
  assumes inv: "frontier_inv f" and n: "map_of (f_nodes f) k = Some n" "held w n"
  shows "frontier_inv (release k n f)" "f_nodes (release k n f) = om_put k (released n) (f_nodes f)"
    "same_env f (release k n f)"
proof -
  let ?f = "release k n f"
  have idx: "index_inv f" "nodes_ok f" "relaxed {} f" "lease_inv f" "om_ok (f_nodes f)"
    using inv by (auto simp: frontier_inv_def index_inv_def)
  note form = release_form [OF idx(5), of k n]
  show nodes: "f_nodes ?f = om_put k (released n) (f_nodes f)" by (simp add: form)
  show env: "same_env f ?f" by (simp add: form same_env_def)
  have "node_ok f k n" by (rule frontier_inv_node [OF inv n(1)])
  then have ok: "node_ok ?f k (released n)" and infl: "n_phase n = Inflight"
    using env n(2)
    by (auto simp: node_ok_def released_def same_env_def held_def split: option.splits)
  have "index_inv ?f"
    unfolding form using idx(1) n(1) by (rule index_inv_reindex_store)
      (simp_all add: same_index_def released_def)
  moreover have "nodes_ok ?f"
    using idx(2) nodes ok by (rule nodes_ok_put) (use env in \<open>simp_all add: same_env_def\<close>)
  moreover have "relaxed {} ?f"
    using idx(3) nodes by (rule relaxed_put) (use n(1) in \<open>auto simp: released_def\<close>)
  moreover have "lease_inv ?f"
    using idx(4) nodes by (rule lease_inv_put) (simp add: released_def)
  moreover have "length (f_nodes ?f) \<le> f_max_states ?f"
    using inv nodes n(1) idx(5) env by (simp add: frontier_inv_def om_put_in same_env_def)
  ultimately show "frontier_inv ?f"
    using inv env by (simp add: frontier_inv_def same_env_def)
qed

lemma requeue_worker_ok:
  assumes "frontier_inv f" "distinct (map fst xs)"
    "\<And>k n. (k, n) \<in> set xs \<Longrightarrow> map_of (f_nodes f) k = Some n" "requeue_worker w xs f = (c, f')"
  shows "frontier_inv f' \<and> same_env f f' \<and> c = length (filter (\<lambda>(_, n). held w n) xs) \<and>
     (\<forall>k. map_of (f_nodes f') k =
        (case map_of xs k of
           Some n \<Rightarrow> Some (if held w n then released n else n)
         | None \<Rightarrow> map_of (f_nodes f) k))"
  using assms
proof (induction xs arbitrary: f c)
  case Nil
  then show ?case by simp
next
  case (Cons x xs)
  obtain k n where x: "x = (k, n)" by (cases x)
  have n: "map_of (f_nodes f) k = Some n" using Cons.prems(3) x by simp
  have notin: "map_of xs k = None"
    using Cons.prems(2) x by (simp add: map_of_eq_None_iff)
  show ?case
  proof (cases "held w n")
    case True
    note r = release_ok [OF Cons.prems(1) n True]
    obtain c2 where c2: "requeue_worker w xs (release k n f) = (c2, f')" "c = Suc c2"
      using Cons.prems(4) x True by (auto simp: requeue_worker_Cons Let_def split: prod.splits)
    have "map_of (f_nodes (release k n f)) k' = Some n'" if "(k', n') \<in> set xs" for k' n'
    proof -
      have "k' \<noteq> k" using Cons.prems(2) x that by (auto simp: rev_image_eqI)
      with Cons.prems(3) [of k' n'] that r(2) show ?thesis by simp
    qed
    with Cons.IH [OF r(1) _ _ c2(1)] Cons.prems(2) have
      ih: "frontier_inv f'" "same_env (release k n f) f'" "c2 = length (filter (\<lambda>(_, n). held w n) xs)"
        "\<And>k'. map_of (f_nodes f') k' = (case map_of xs k' of
           Some n \<Rightarrow> Some (if held w n then released n else n)
         | None \<Rightarrow> map_of (f_nodes (release k n f)) k')"
      by auto
    then show ?thesis
      using r(2,3) c2(2) x True notin by (auto intro: same_env_trans split: option.splits)
  next
    case False
    then have "requeue_worker w xs f = (c, f')"
      using Cons.prems(4) x by (simp add: requeue_worker_Cons)
    with Cons.IH [OF Cons.prems(1) _ _ this] Cons.prems(2,3) have
      ih: "frontier_inv f'" "same_env f f'" "c = length (filter (\<lambda>(_, n). held w n) xs)"
        "\<And>k'. map_of (f_nodes f') k' = (case map_of xs k' of
           Some n \<Rightarrow> Some (if held w n then released n else n) | None \<Rightarrow> map_of (f_nodes f) k')"
      by auto
    then show ?thesis
      using x False notin n by (auto split: option.splits)
  qed
qed

lemma case_option_same: "(case m of None \<Rightarrow> m | Some n \<Rightarrow> Some (g n)) = map_option g m"
  by (cases m) simp_all

lemma worker_lost_result:
  assumes inv: "frontier_inv f" and l: "worker_lost w f = (r, f')"
  shows "case r of
      Inl e \<Rightarrow> f' = f \<and> f_poisoned f
    | Inr c \<Rightarrow> frontier_inv f' \<and> same_env f f' \<and> c = om_count (held w) (f_nodes f) \<and>
        (\<forall>k. map_of (f_nodes f') k =
           map_option (\<lambda>n. if held w n then released n else n) (map_of (f_nodes f) k))"
proof (cases "f_poisoned f")
  case True
  with l show ?thesis by (auto simp: worker_lost_def ensure_healthy_def)
next
  case False
  obtain c f1 where q: "requeue_worker w (f_nodes f) f = (c, f1)" by fastforce
  have ok: "om_ok (f_nodes f)" using inv by (auto simp: frontier_inv_def index_inv_def)
  have "frontier_inv f1 \<and> same_env f f1 \<and> c = length (filter (\<lambda>(_, n). held w n) (f_nodes f)) \<and>
     (\<forall>k. map_of (f_nodes f1) k =
        (case map_of (f_nodes f) k of
           Some n \<Rightarrow> Some (if held w n then released n else n)
         | None \<Rightarrow> map_of (f_nodes f) k))"
    using inv om_ok_distinct [OF ok] _ q
    by (rule requeue_worker_ok) (simp add: om_lookup_iff [OF ok])
  moreover have "r = Inr c" "\<exists>cs. f' = f1\<lparr>f_counters := cs\<rparr>"
    using l False q by (auto simp: worker_lost_def ensure_healthy_def)
  ultimately show ?thesis
    by (auto simp: om_count_def same_env_def case_option_same)
qed

section \<open>Distances\<close>

text \<open>
  The graph that is explored is a parameter: \<open>succ k\<close> are the successors that executing every
  enabled action of the state \<open>k\<close> yields. \<open>dist succ roots k d\<close> says that \<open>k\<close> is reached from an
  admitted state, at the depth it was admitted with, by a path that brings the depth to \<open>d\<close>.
\<close>

inductive dist ::
  "(state_key \<Rightarrow> state_key list) \<Rightarrow> (state_key \<times> u64) set \<Rightarrow> state_key \<Rightarrow> nat \<Rightarrow> bool"
  for succ roots where
  start: "(k, d) \<in> roots \<Longrightarrow> dist succ roots k (unat d)"
| step: "dist succ roots k d \<Longrightarrow> s \<in> set (succ k) \<Longrightarrow> dist succ roots s (Suc d)"

lemma dist_mono: "dist succ R k d \<Longrightarrow> R \<subseteq> R' \<Longrightarrow> dist succ R' k d"
  by (induction rule: dist.induct) (auto intro: dist.intros)

definition node_explored ::
  "(state_key \<Rightarrow> state_key list) \<Rightarrow> (state_key \<times> u64) set \<Rightarrow> state_key \<Rightarrow> node \<Rightarrow> bool" where
  "node_explored succ R k n \<longleftrightarrow> dist succ R k (unat (n_depth n)) \<and>
     (n_phase n = Expanded \<longrightarrow> n_successors n = succ k) \<and> (n_phase n = Terminal \<longrightarrow> succ k = [])"

definition explored ::
  "(state_key \<Rightarrow> state_key list) \<Rightarrow> (state_key \<times> u64) set \<Rightarrow> work \<Rightarrow> frontier \<Rightarrow> bool" where
  "explored succ R w f \<longleftrightarrow>
     (\<forall>k n. map_of (f_nodes f) k = Some n \<longrightarrow> node_explored succ R k n) \<and>
     (\<forall>k d. (k, d) \<in> set w \<longrightarrow> dist succ R k (unat d))"

lemma exploredD:
  assumes "explored succ R w f" "map_of (f_nodes f) k = Some n"
  shows "dist succ R k (unat (n_depth n))" "n_phase n = Expanded \<Longrightarrow> n_successors n = succ k"
    "n_phase n = Terminal \<Longrightarrow> succ k = []"
  using assms unfolding explored_def node_explored_def by blast+

lemma explored_put:
  assumes "explored succ R w f" "f_nodes f' = om_put k n1 (f_nodes f)" "node_explored succ R k n1"
    "\<And>k d. (k, d) \<in> set w' \<Longrightarrow> dist succ R k (unat d)"
  shows "explored succ R w' f'"
  using assms by (simp add: explored_def)

lemma explored_pstep:
  assumes "pstep (w, f) (w', f')" "explored succ R w f"
  shows "explored succ R w' f'"
  using assms(1)
proof cases
  case (insert k d)
  then show ?thesis
    using assms(2) by (intro explored_put [OF assms(2), of f' k "fresh_node d f"])
      (auto simp: explored_def node_explored_def nodes_insert_fresh)
next
  case (duplicate k n d)
  then show ?thesis using assms(2) by (simp add: explored_def)
next
  case (improve k n d v)
  note n = exploredD [OF assms(2) improve(4)]
  have dk: "dist succ R k (unat d)" using assms(2) improve(1) by (simp add: explored_def)
  have "d \<noteq> - 1" using improve(5) by auto
  then have inc: "unat (d + 1) = Suc (unat d)" by (rule unat_Suc)
  show ?thesis
  proof (rule explored_put [OF assms(2), of f' k "improved n d"])
    show "f_nodes f' = om_put k (improved n d) (f_nodes f)" using improve by simp
    show "\<And>x e. (x, e) \<in> set w' \<Longrightarrow> dist succ R x (unat e)"
      using assms(2) improve(1,2) n(2) dist.step [OF dk] inc
      by (auto simp: explored_def split: if_splits)
    show "node_explored succ R k (improved n d)"
      using dk n(2,3) by (simp add: node_explored_def)
  qed
qed

lemma explored_psteps:
  "pstep\<^sup>*\<^sup>* (w, f) (w', f') \<Longrightarrow> explored succ R w f \<Longrightarrow> explored succ R w' f'"
  by (erule pstep_rtranclp_inv) (auto intro: explored_pstep)

lemma grows_psteps: "pstep\<^sup>*\<^sup>* (w, f) (w', f') \<Longrightarrow> grows f f'"
  by (erule pstep_rtranclp_inv [where P = "\<lambda>_ g. grows f g"]) (auto intro: grows_trans grows_pstep)

lemma explored_drop: "explored succ R w f \<Longrightarrow> explored succ R [] f"
  by (simp add: explored_def)

lemma explored_propagate_successors:
  assumes "explored succ R [] f" "map_of (f_nodes f) src = Some n" "keys \<noteq> [] \<Longrightarrow> n_depth n \<noteq> - 1"
    "set keys \<subseteq> set (succ src)" "propagate_successors src keys f = (r, f')"
  shows "explored succ R [] f'"
  using assms
proof (induction keys arbitrary: f n)
  case (Cons key keys)
  have inc: "unat (n_depth n + 1) = Suc (unat (n_depth n))"
    using Cons.prems(3) by (simp add: unat_Suc)
  obtain r1 g where p: "propagate_loop [(key, n_depth n + 1)] f = (r1, g)" by fastforce
  from propagate_loop_steps [OF p] obtain w' where
    steps: "pstep\<^sup>*\<^sup>* ([(key, n_depth n + 1)], f) (w', g)" by blast
  have "explored succ R [(key, n_depth n + 1)] f"
    using Cons.prems(1,4) dist.step [OF exploredD(1) [OF Cons.prems(1,2)], of key] inc
    by (simp add: explored_def)
  from explored_psteps [OF steps this] have g: "explored succ R [] g" by (rule explored_drop)
  show ?case
  proof (cases r1)
    case (Inl e)
    with p Cons.prems(2,5) g show ?thesis by (simp add: propagate_def)
  next
    case (Inr u)
    from grows_lookup [OF grows_psteps [OF steps] Cons.prems(2)] obtain m where
      m: "map_of (f_nodes g) src = Some m" "closer n m" .
    have "n_depth m \<noteq> - 1"
      using m(2) Cons.prems(3) unfolding closer_def by (metis antisym list.distinct(1) word_n1_ge)
    with Cons.IH [OF g m(1)] Cons.prems(2,4,5) p Inr show ?thesis by (simp add: propagate_def)
  qed
qed simp

section \<open>Runs of the coordinator\<close>

text \<open>
  A run is a sequence of calls of the public operations, in any order, by any workers; calls
  that throw are part of it. The admitted states are collected as the roots of the search. The
  successors that a commit reports are those of the state it was leased for: that is what the
  workers compute, and the only thing assumed of them.
\<close>

datatype command =
    C_admit state_key u64
  | C_lease worker_id
  | C_lease_scored worker_id "scorer option" nat
  | C_commit ticket expansion
  | C_worker_lost worker_id

fun exec :: "command \<Rightarrow> (state_key \<times> u64) list \<times> frontier \<Rightarrow> (state_key \<times> u64) list \<times> frontier" where
  "exec (C_admit k d) (R, f) =
     (case admit k d f of (Inl _, f') \<Rightarrow> (R, f') | (Inr _, f') \<Rightarrow> ((k, d) # R, f'))"
| "exec (C_lease w) (R, f) = (R, snd (lease w f))"
| "exec (C_lease_scored w sc win) (R, f) = (R, snd (lease_scored w sc win f))"
| "exec (C_commit t e) (R, f) = (R, snd (commit t e f))"
| "exec (C_worker_lost w) (R, f) = (R, snd (worker_lost w f))"

definition search ::
  "u64 \<Rightarrow> policy \<Rightarrow> priority option \<Rightarrow> nat \<Rightarrow> command list \<Rightarrow>
     ((state_key \<times> u64) list \<times> frontier) option" where
  "search limit policy prio max_states cmds =
     (case new_frontier limit policy prio max_states of
        Inl _ \<Rightarrow> None
      | Inr f \<Rightarrow> Some (fold exec cmds ([], f)))"

fun faithful :: "(state_key \<Rightarrow> state_key list) \<Rightarrow> command \<Rightarrow> bool" where
  "faithful succ (C_commit t e) \<longleftrightarrow>
     (e_kind e = R_Expanded \<longrightarrow> e_successors e = succ (t_state t)) \<and>
     (e_kind e = R_Terminal \<longrightarrow> succ (t_state t) = [])"
| "faithful succ _ \<longleftrightarrow> True"

definition run_inv :: "(state_key \<Rightarrow> state_key list) \<Rightarrow> (state_key \<times> u64) list \<Rightarrow> frontier \<Rightarrow> bool" where
  "run_inv succ R f \<longleftrightarrow> frontier_inv f \<and> explored succ (set R) [] f \<and> met (set R) [] f"

lemma node_explored_mono: "node_explored succ R k n \<Longrightarrow> R \<subseteq> R' \<Longrightarrow> node_explored succ R' k n"
  unfolding node_explored_def using dist_mono by blast

lemma explored_roots: "explored succ R [] f \<Longrightarrow> R \<subseteq> R' \<Longrightarrow> explored succ R' [] f"
  by (auto simp: explored_def intro: node_explored_mono)

lemma explored_same:
  "explored succ R [] f \<Longrightarrow> f_nodes f' = f_nodes f \<Longrightarrow> explored succ R [] f'"
  by (simp add: explored_def)

lemma met_closer:
  assumes "met B [] f"
    "\<And>k n. map_of (f_nodes f) k = Some n \<Longrightarrow> \<exists>n'. map_of (f_nodes f') k = Some n' \<and> n_depth n' \<le> n_depth n"
  shows "met B [] f'"
  using assms unfolding met_def recorded_def by (fastforce split: option.splits)

lemma met_put:
  assumes "met B [] f" "f_nodes f' = om_put k n1 (f_nodes f)"
    "\<And>n. map_of (f_nodes f) k = Some n \<Longrightarrow> n_depth n1 \<le> n_depth n"
  shows "met B [] f'"
proof (rule met_closer [OF assms(1)])
  fix k' n' assume "map_of (f_nodes f) k' = Some n'"
  with assms(2,3) show "\<exists>m. map_of (f_nodes f') k' = Some m \<and> n_depth m \<le> n_depth n'"
    by (cases "k' = k") simp_all
qed

lemma run_inv_lease_step:
  assumes "run_inv succ R f" "lease_step w t f f'"
  shows "run_inv succ R f'"
proof -
  from assms(2) obtain n where n: "map_of (f_nodes f) (t_state t) = Some n" "frontier_inv f'"
    "f_nodes f' = om_put (t_state t) (leased t n) (f_nodes f)"
    unfolding lease_step_def by blast
  have ex: "explored succ (set R) [] f" using assms(1) by (simp add: run_inv_def)
  have "explored succ (set R) [] f'"
    using ex n(3) by (rule explored_put)
      (use exploredD(1) [OF ex n(1)] in \<open>simp_all add: node_explored_def leased_def\<close>)
  moreover have "met (set R) [] f"
    using assms(1) by (simp add: run_inv_def)
  then have "met (set R) [] f'"
    by (rule met_put [OF _ n(3)]) (use n(1) in \<open>simp add: leased_def\<close>)
  ultimately show ?thesis using n(2) by (simp add: run_inv_def)
qed

lemma run_inv_lease:
  assumes "run_inv succ R f" "lease w f = (r, f')"
  shows "run_inv succ R f'"
proof -
  have "lease_outcome w f r f'"
    using lease_result assms by (simp add: run_inv_def)
  then show ?thesis
    using assms(1) run_inv_lease_step [OF assms(1)]
    by (auto simp: lease_outcome_def split: sum.splits option.splits)
qed

lemma run_inv_lease_scored:
  assumes "run_inv succ R f" "lease_scored w sc win f = (r, f')"
  shows "run_inv succ R f'"
proof (cases "f_policy f = Priority \<or> sc = None")
  case True
  then show ?thesis
    using assms run_inv_lease [OF assms(1), of w]
    by (auto simp: lease_scored_def ensure_healthy_def lease_def split: if_splits)
next
  case False
  then obtain score where "sc = Some score" by auto
  with False assms have "scored_outcome w score win f r f'"
    using lease_scored_result [of f w score win r f'] by (simp add: run_inv_def)
  then show ?thesis
    using assms(1) run_inv_lease_step [OF assms(1)]
    by (auto simp: scored_outcome_def split: sum.splits option.splits)
qed

lemma run_inv_admit:
  assumes inv: "run_inv succ R f" and a: "admit k d f = (r, f')"
  shows "run_inv succ (case r of Inl _ \<Rightarrow> R | Inr _ \<Rightarrow> (k, d) # R) f'"
proof (cases r)
  case (Inl e)
  with admit_result [of f k d r f'] inv a show ?thesis by (simp add: run_inv_def)
next
  case (Inr b)
  have res: "frontier_inv f'" "grows f f'" "recorded f' k d" "pstep\<^sup>*\<^sup>* ([(k, d)], f) ([], f')"
    using admit_result [of f k d r f'] inv a Inr by (auto simp: run_inv_def)
  have "explored succ (set ((k, d) # R)) [(k, d)] f"
    using explored_roots [of succ "set R" f "set ((k, d) # R)"] inv
    by (auto simp: run_inv_def explored_def intro: dist.start)
  from explored_psteps [OF res(4) this] have "explored succ (set ((k, d) # R)) [] f'" .
  moreover have "met (set ((k, d) # R)) [] f'"
    using inv res(2,3) met_grows [of "set R" f f' "[]"] by (auto simp: run_inv_def met_def)
  ultimately show ?thesis using res(1) Inr by (simp add: run_inv_def)
qed

lemma run_inv_commit:
  assumes inv: "run_inv succ R f" and c: "commit t e f = (r, f')" and ok: "faithful succ (C_commit t e)"
  shows "run_inv succ R f'"
proof (cases r)
  case (Inl x)
  with commit_result [of f t e r f'] inv c show ?thesis by (simp add: run_inv_def)
next
  case (Inr u)
  have fi: "frontier_inv f" and ex: "explored succ (set R) [] f" and mt: "met (set R) [] f"
    using inv by (auto simp: run_inv_def)
  obtain n where res: "frontier_inv f'" "grows (commit_store t e f) f'" "commit_allowed t e n f"
    using commit_result [OF fi c] Inr by auto
  have n: "map_of (f_nodes f) (t_state t) = Some n" using res(3) by (simp add: commit_allowed_def)
  have oko: "om_ok (f_nodes f)" using fi by (auto simp: frontier_inv_def index_inv_def)
  note frame = frame_commit_store [OF oko n, of e]
  let ?g = "commit_store t e f"
  have "node_explored succ (set R) (t_state t) (stored f n e)"
    using exploredD(1) [OF ex n] ok
    by (cases "e_kind e") (auto simp: node_explored_def stored_phase_def)
  then have g: "explored succ (set R) [] ?g"
    using ex frame(1) by (intro explored_put [OF ex]) auto
  have sub: "set (e_successors e) \<subseteq> set (succ (t_state t))"
    using ok res(3) by (cases "e_kind e") (auto simp: commit_allowed_def)
  have "n_depth n \<noteq> - 1" if "e_successors e \<noteq> []"
    using stored_ok [OF fi res(3)] res(3) that
    by (auto simp: node_ok_def stored_phase_def commit_allowed_def split: if_splits)
  moreover obtain r1 h where h: "propagate_successors (t_state t) (e_successors e) ?g = (r1, h)"
    by fastforce
  moreover have "map_of (f_nodes ?g) (t_state t) = Some (stored f n e)" using frame(1) by simp
  ultimately have "explored succ (set R) [] h"
    using sub by (intro explored_propagate_successors [OF g, of _ "stored f n e"]) auto
  moreover have "f_nodes f' = f_nodes h"
    using c h Inr by (auto simp: commit_def split: option.splits sum.splits)
  ultimately have "explored succ (set R) [] f'" by (metis explored_same)
  moreover have "met (set R) [] ?g"
    by (rule met_put [OF mt frame(1)]) (use n in simp)
  then have "met (set R) [] f'" using res(2) by (rule met_grows)
  ultimately show ?thesis using res(1) by (simp add: run_inv_def)
qed

lemma run_inv_worker_lost:
  assumes inv: "run_inv succ R f" and c: "worker_lost w f = (r, f')"
  shows "run_inv succ R f'"
proof (cases r)
  case (Inl x)
  with worker_lost_result [of f w r f'] inv c show ?thesis by (simp add: run_inv_def)
next
  case (Inr cnt)
  have ex: "explored succ (set R) [] f" and mt: "met (set R) [] f"
    using inv by (auto simp: run_inv_def)
  have res: "frontier_inv f'" "map_of (f_nodes f') k =
      map_option (\<lambda>n. if held w n then released n else n) (map_of (f_nodes f) k)" for k
    using worker_lost_result [of f w r f'] inv c Inr by (auto simp: run_inv_def)
  have "node_explored succ (set R) k m" if "map_of (f_nodes f') k = Some m" for k m
  proof -
    from that res(2) [of k] obtain n where n: "map_of (f_nodes f) k = Some n"
      "m = (if held w n then released n else n)" by auto
    from exploredD [OF ex n(1)] n(2) show ?thesis
      by (auto simp: node_explored_def released_def)
  qed
  then have "explored succ (set R) [] f'" by (simp add: explored_def)
  moreover have "met (set R) [] f'"
    using mt by (rule met_closer) (simp add: res(2) released_def)
  ultimately show ?thesis using res(1) by (simp add: run_inv_def)
qed

lemma run_inv_exec:
  assumes "run_inv succ R f" "faithful succ c" "exec c (R, f) = (R', f')"
  shows "run_inv succ R' f'"
proof (cases c)
  case (C_admit k d)
  obtain r g where a: "admit k d f = (r, g)" by fastforce
  with run_inv_admit [OF assms(1) a] assms(3) C_admit show ?thesis by (auto split: sum.splits)
next
  case (C_lease w)
  obtain r g where "lease w f = (r, g)" by fastforce
  with run_inv_lease [OF assms(1) this] assms(3) C_lease show ?thesis by auto
next
  case (C_lease_scored w sc win)
  obtain r g where "lease_scored w sc win f = (r, g)" by fastforce
  with run_inv_lease_scored [OF assms(1) this] assms(3) C_lease_scored show ?thesis by auto
next
  case (C_commit t e)
  obtain r g where "commit t e f = (r, g)" by fastforce
  with run_inv_commit [OF assms(1) this] assms(2,3) C_commit show ?thesis by auto
next
  case (C_worker_lost w)
  obtain r g where "worker_lost w f = (r, g)" by fastforce
  with run_inv_worker_lost [OF assms(1) this] assms(3) C_worker_lost show ?thesis by auto
qed

lemma limit_lease: "frontier_inv f \<Longrightarrow> f_limit (snd (lease w f)) = f_limit f"
  using lease_result [of f w "fst (lease w f)" "snd (lease w f)"]
  by (auto simp: lease_outcome_def lease_step_def split: sum.splits option.splits)

lemma limit_exec:
  assumes inv: "frontier_inv f" and "exec c (R, f) = (R', f')"
  shows "f_limit f' = f_limit f"
proof (cases c)
  case (C_admit k d)
  then show ?thesis
    using admit_result [OF inv, of k d "fst (admit k d f)" "snd (admit k d f)"] assms(2)
    by (auto simp: same_env_def split: sum.splits prod.splits)
next
  case (C_lease w)
  then show ?thesis using limit_lease [OF inv] assms(2) by auto
next
  case (C_lease_scored w sc win)
  show ?thesis
  proof (cases "f_policy f = Priority \<or> sc = None")
    case True
    then show ?thesis
      using limit_lease [OF inv, of w] assms(2) C_lease_scored
      by (auto simp: lease_scored_def ensure_healthy_def split: if_splits)
  next
    case False
    then obtain score where "sc = Some score" by auto
    with False lease_scored_result [OF inv, of w score win "fst (lease_scored w sc win f)"
        "snd (lease_scored w sc win f)"] assms(2) C_lease_scored show ?thesis
      by (auto simp: scored_outcome_def lease_step_def split: sum.splits option.splits)
  qed
next
  case (C_commit t e)
  then show ?thesis
    using commit_result [OF inv, of t e "fst (commit t e f)" "snd (commit t e f)"] assms(2)
    by (auto simp: same_env_def split: sum.splits)
next
  case (C_worker_lost w)
  then show ?thesis
    using worker_lost_result [OF inv, of w "fst (worker_lost w f)" "snd (worker_lost w f)"] assms(2)
    by (auto simp: same_env_def split: sum.splits)
qed

lemma run_inv_fold:
  "run_inv succ R f \<Longrightarrow> (\<And>c. c \<in> set cmds \<Longrightarrow> faithful succ c) \<Longrightarrow> fold exec cmds (R, f) = (R', f') \<Longrightarrow>
     run_inv succ R' f' \<and> f_limit f' = f_limit f"
proof (induction cmds arbitrary: R f)
  case (Cons c cmds)
  obtain R1 f1 where e: "exec c (R, f) = (R1, f1)" by fastforce
  have "run_inv succ R1 f1" using run_inv_exec [OF Cons.prems(1) _ e] Cons.prems(2) by simp
  moreover have "f_limit f1 = f_limit f"
    using limit_exec [OF _ e] Cons.prems(1) by (simp add: run_inv_def)
  ultimately show ?case using Cons.IH [of R1 f1] Cons.prems(2,3) e by simp
qed simp

lemma search_inv:
  assumes "search limit policy prio m cmds = Some (R, f)" "\<And>c. c \<in> set cmds \<Longrightarrow> faithful succ c"
  shows "run_inv succ R f" "f_limit f = limit"
proof -
  obtain f0 where new: "new_frontier limit policy prio m = Inr f0"
    and run: "fold exec cmds ([], f0) = (R, f)"
    using assms(1) by (auto simp: search_def split: sum.splits)
  have "f_nodes f0 = []" "f_limit f0 = limit" using new by (auto simp: new_frontier_def split: if_splits)
  then have "run_inv succ [] f0"
    using frontier_inv_new [OF new] by (simp add: run_inv_def explored_def met_def)
  from run_inv_fold [OF this assms(2) run] \<open>f_limit f0 = limit\<close>
  show "run_inv succ R f" "f_limit f = limit" by auto
qed

section \<open>The status, read off the nodes\<close>

definition has_phase :: "frontier \<Rightarrow> node_phase \<Rightarrow> bool" where
  "has_phase f p \<longleftrightarrow> (\<exists>k n. map_of (f_nodes f) k = Some n \<and> n_phase n = p)"

lemma phase_count_iff:
  assumes "index_inv f"
  shows "f_phase_counts f ! phase_index p \<noteq> 0 \<longleftrightarrow> has_phase f p"
  using om_count_0 [OF index_invD(1) [OF assms], of "\<lambda>n. n_phase n = p"] index_invD(2) [OF assms]
  by (auto simp: counts_inv_def has_phase_def)

lemma status_iff:
  assumes "frontier_inv f"
  shows "frontier_status f =
     (if f_poisoned f \<or> has_phase f Failure then Failed
      else if has_phase f Pending \<or> has_phase f Inflight then Running
      else if has_phase f DepthCut \<or> has_phase f ModelBudget then Bounded
      else Complete)"
proof -
  have "index_inv f" using assms by (simp add: frontier_inv_def)
  from phase_count_iff [OF this] show ?thesis
    unfolding frontier_status_def Let_def by presburger
qed

section \<open>Coverage\<close>

lemma covered:
  assumes inv: "run_inv succ R f" and fin: "frontier_status f \<noteq> Running" "frontier_status f \<noteq> Failed"
    and nb: "\<not> has_phase f ModelBudget" and d: "dist succ (set R) k d"
    and lim: "d \<le> unat (f_limit f) \<or> \<not> has_phase f DepthCut"
  shows "\<exists>n. map_of (f_nodes f) k = Some n \<and> unat (n_depth n) \<le> d"
  using d lim
proof (induction rule: dist.induct)
  case (start k d)
  with inv have "recorded f k d" by (auto simp: run_inv_def met_def)
  then show ?case by (auto simp: recorded_def word_le_nat_alt split: option.splits)
next
  case (step k d s)
  then obtain n where n: "map_of (f_nodes f) k = Some n" "unat (n_depth n) \<le> d" by auto
  have fi: "frontier_inv f" and ex: "explored succ (set R) [] f" using inv by (auto simp: run_inv_def)
  have ok: "node_ok f k n" by (rule frontier_inv_node [OF fi n(1)])
  have "\<not> has_phase f Failure" "\<not> has_phase f Pending" "\<not> has_phase f Inflight"
    using fin unfolding status_iff [OF fi] by (auto split: if_splits)
  then have "n_phase n \<in> {Expanded, Terminal, DepthCut}"
    using n(1) nb by (cases "n_phase n") (auto simp: has_phase_def)
  moreover have "n_phase n \<noteq> DepthCut"
    using step.prems n ok by (auto simp: has_phase_def node_ok_def)
  moreover have "n_phase n \<noteq> Terminal"
    using exploredD(3) [OF ex n(1)] step.hyps(2) by auto
  ultimately have ph: "n_phase n = Expanded" by auto
  then have "s \<in> set (n_successors n)" using exploredD(2) [OF ex n(1)] step.hyps(2) by simp
  then obtain m where m: "map_of (f_nodes f) s = Some m" "n_depth m \<le> n_depth n + 1"
    using fi n(1) ph unfolding frontier_inv_def relaxed_def by blast
  have "n_depth n \<noteq> - 1" using ok ph by (auto simp: node_ok_def)
  with m(2) n(2) have "unat (n_depth m) \<le> Suc d" by (simp add: word_le_nat_alt unat_Suc)
  with m(1) show ?case by blast
qed

lemma recorded_dist:
  assumes "run_inv succ R f" "map_of (f_nodes f) k = Some n"
  shows "dist succ (set R) k (unat (n_depth n))" "unat (n_depth n) \<le> unat (f_limit f)"
  using assms exploredD(1) [of succ "set R" "[]" f k n] frontier_inv_node [of f k n]
  by (auto simp: run_inv_def node_ok_def word_le_nat_alt)

end
