(* ===== verification/Frontier_Claims.thy ===== *)
theory Frontier_Claims
  imports Frontier_Search
begin

text \<open>
  The properties of the search frontier, stated over the operations of \<open>Frontier\<close>, with a
  three-state search as the concrete instance.
\<close>

section \<open>A concrete search\<close>

definition demo_succ :: "state_key \<Rightarrow> state_key list" where
  "demo_succ k = (if k = 1 then [2, 3] else if k = 2 then [3] else [])"

definition demo_ticket :: "state_key \<Rightarrow> u64 \<Rightarrow> u64 \<Rightarrow> ticket" where
  "demo_ticket k l d = \<lparr>t_state = k, t_worker = 7, t_lease_id = l, t_depth = d, t_may_expand = True\<rparr>"

definition demo_expand :: "state_key \<Rightarrow> expansion" where
  "demo_expand k = \<lparr>e_kind = (if demo_succ k = [] then R_Terminal else R_Expanded),
     e_successors = demo_succ k, e_reason = []\<rparr>"

definition demo_commands :: "command list" where
  "demo_commands =
     [C_admit 1 0, C_lease 7, C_commit (demo_ticket 1 1 0) (demo_expand 1),
      C_lease 7, C_commit (demo_ticket 3 2 1) (demo_expand 3),
      C_lease 7, C_worker_lost 7, C_lease 7, C_commit (demo_ticket 2 3 1) (demo_expand 2),
      C_commit (demo_ticket 2 4 1) (demo_expand 2)]"

definition demo_run :: "nat \<Rightarrow> (state_key \<times> u64) list \<times> frontier" where
  "demo_run i = the (search 5 Dfs None 10 (take i demo_commands))"

abbreviation demo_final :: frontier where
  "demo_final \<equiv> snd (demo_run 10)"

lemma demo_faithful: "c \<in> set (take i demo_commands) \<Longrightarrow> faithful demo_succ c"
  by (drule in_set_takeD) (auto simp: demo_commands_def demo_expand_def demo_ticket_def)

lemma demo_search: "search 5 Dfs None 10 (take i demo_commands) = Some (fst (demo_run i), snd (demo_run i))"
  by (simp add: demo_run_def search_def new_frontier_def)

lemma demo_inv: "frontier_inv (snd (demo_run i))"
  using search_inv(1) [OF demo_search demo_faithful] by (simp add: run_inv_def)

lemma demo_status: "frontier_status demo_final = Complete"
  by code_simp

lemma demo_roots: "fst (demo_run 10) = [(1, 0)]"
  by code_simp

lemma demo_policy: "f_policy (snd (demo_run 3)) = Dfs"
  by code_simp

section \<open>What a finished search has recorded\<close>

text \<open>
  C1. When a run of the coordinator has finished without a model-budget cutoff, the recorded
  states are exactly those within the depth limit, and each is recorded at its shortest distance
  from the admitted states, whatever the policy, the interleaving of workers, the lost workers
  and the order in which results were committed.
\<close>

theorem search_covers:
  assumes "search limit policy prio max_states cmds = Some (R, f)"
    and "\<forall>c \<in> set cmds. faithful succ c"
    and "frontier_status f \<in> {Complete, Bounded}"
    and "\<forall>(k, n) \<in> set (f_nodes f). n_phase n \<noteq> ModelBudget"
  shows "map_option (\<lambda>n. unat (n_depth n)) (map_of (f_nodes f) k) = Some d \<longleftrightarrow>
     d \<le> unat limit \<and> dist succ (set R) k d \<and> (\<forall>d' < d. \<not> dist succ (set R) k d')"
proof -
  have inv: "run_inv succ R f" and lim: "f_limit f = limit"
    using search_inv [OF assms(1), of succ] assms(2) by auto
  have nb: "\<not> has_phase f ModelBudget"
    using assms(4) by (auto simp: has_phase_def dest: map_of_SomeD)
  have fin: "frontier_status f \<noteq> Running" "frontier_status f \<noteq> Failed" using assms(3) by auto
  have cov: "\<exists>n. map_of (f_nodes f) k = Some n \<and> unat (n_depth n) \<le> e"
    if "dist succ (set R) k e" "e \<le> unat limit" for e
    using covered [OF inv fin nb that(1)] that(2) lim by simp
  have snd: "dist succ (set R) k (unat (n_depth n)) \<and> unat (n_depth n) \<le> unat limit"
    if "map_of (f_nodes f) k = Some n" for n
    using recorded_dist [OF inv that] lim by simp
  show ?thesis
  proof
    assume "map_option (\<lambda>n. unat (n_depth n)) (map_of (f_nodes f) k) = Some d"
    then obtain n where n: "map_of (f_nodes f) k = Some n" "d = unat (n_depth n)" by auto
    have "\<not> dist succ (set R) k d'" if "d' < d" for d'
      using cov [of d'] snd [OF n(1)] that n by auto
    with snd [OF n(1)] n(2) show "d \<le> unat limit \<and> dist succ (set R) k d \<and> (\<forall>d' < d. \<not> dist succ (set R) k d')"
      by auto
  next
    assume a: "d \<le> unat limit \<and> dist succ (set R) k d \<and> (\<forall>d' < d. \<not> dist succ (set R) k d')"
    then obtain n where n: "map_of (f_nodes f) k = Some n" "unat (n_depth n) \<le> d" using cov by blast
    with a snd [OF n(1)] have "unat (n_depth n) = d" by (metis le_neq_implies_less)
    with n(1) show "map_option (\<lambda>n. unat (n_depth n)) (map_of (f_nodes f) k) = Some d" by simp
  qed
qed

theorem search_covers_witness:
  "dist demo_succ {(1, 0)} 3 1 \<and> \<not> dist demo_succ {(1, 0)} 3 0"
proof -
  have nb: "\<forall>(k, n) \<in> set (f_nodes demo_final). n_phase n \<noteq> ModelBudget" by code_simp
  have d: "map_option (\<lambda>n. unat (n_depth n)) (map_of (f_nodes demo_final) 3) = Some 1" by code_simp
  show ?thesis
    using search_covers [OF demo_search [of 10], of demo_succ 3 1] demo_faithful nb d demo_status
      demo_roots by auto
qed

text \<open>
  C2. A search that ends \<open>Complete\<close> has recorded every reachable state: nothing was cut off by
  the depth limit, however long the paths are.
\<close>

theorem search_complete:
  assumes "search limit policy prio max_states cmds = Some (R, f)"
    and "\<forall>c \<in> set cmds. faithful succ c" and "frontier_status f = Complete"
    and "dist succ (set R) k d"
  shows "\<exists>n. map_of (f_nodes f) k = Some n \<and> unat (n_depth n) \<le> d \<and>
     (n_phase n = Expanded \<and> n_successors n = succ k \<or> n_phase n = Terminal \<and> succ k = [])"
proof -
  have inv: "run_inv succ R f" using search_inv(1) [OF assms(1), of succ] assms(2) by auto
  then have fi: "frontier_inv f" and ex: "explored succ (set R) [] f" by (auto simp: run_inv_def)
  have ph: "\<not> has_phase f p" if "p \<notin> {Expanded, Terminal}" for p
    using assms(3) that unfolding status_iff [OF fi] by (cases p) (auto split: if_splits)
  then obtain n where n: "map_of (f_nodes f) k = Some n" "unat (n_depth n) \<le> d"
    using covered [OF inv _ _ _ assms(4)] assms(3) by auto
  have "n_phase n \<in> {Expanded, Terminal}"
    using ph [of "n_phase n"] n(1) by (auto simp: has_phase_def)
  with n exploredD(2,3) [OF ex n(1)] show ?thesis by auto
qed

theorem search_complete_witness:
  "\<exists>n. map_of (f_nodes demo_final) 3 = Some n \<and> unat (n_depth n) \<le> 2 \<and>
     (n_phase n = Expanded \<and> n_successors n = demo_succ 3 \<or> n_phase n = Terminal \<and> demo_succ 3 = [])"
proof -
  have "dist demo_succ {(1, 0)} 1 (unat (0 :: u64))" by (rule dist.start) simp
  then have "dist demo_succ {(1, 0)} 3 2"
    using dist.step [of demo_succ "{(1, 0)}" 1 0 2] dist.step [of demo_succ "{(1, 0)}" 2 1 3]
    by (simp add: demo_succ_def numeral_2_eq_2)
  then show ?thesis
    using search_complete [OF demo_search [of 10], of demo_succ 3 2] demo_faithful demo_status demo_roots
    by simp
qed

section \<open>Every operation keeps the frontier consistent\<close>

lemma frontier_inv_exec:
  assumes inv: "frontier_inv f" and "exec c (R, f) = (R', f')"
  shows "frontier_inv f'"
proof (cases c)
  case (C_admit k d)
  then show ?thesis
    using admit_result [OF inv, of k d "fst (admit k d f)" "snd (admit k d f)"] assms
    by (auto split: sum.splits prod.splits)
next
  case (C_lease w)
  then show ?thesis
    using lease_result [OF inv, of w "fst (lease w f)" "snd (lease w f)"] assms
    by (auto simp: lease_outcome_def lease_step_def split: sum.splits option.splits)
next
  case (C_lease_scored w sc win)
  show ?thesis
  proof (cases "f_policy f = Priority \<or> sc = None")
    case True
    then show ?thesis
      using lease_result [OF inv, of w "fst (lease w f)" "snd (lease w f)"] assms C_lease_scored
      by (auto simp: lease_scored_def ensure_healthy_def lease_outcome_def lease_step_def
          split: if_splits sum.splits option.splits)
  next
    case False
    then obtain score where "sc = Some score" by auto
    with False lease_scored_result [OF inv, of w score win "fst (lease_scored w sc win f)"
        "snd (lease_scored w sc win f)"] assms C_lease_scored show ?thesis
      by (auto simp: scored_outcome_def lease_step_def split: sum.splits option.splits)
  qed
next
  case (C_commit t e)
  then show ?thesis
    using commit_result [OF inv, of t e "fst (commit t e f)" "snd (commit t e f)"] assms
    by (auto split: sum.splits)
next
  case (C_worker_lost w)
  then show ?thesis
    using worker_lost_result [OF inv, of w "fst (worker_lost w f)" "snd (worker_lost w f)"] assms
    by (auto split: sum.splits)
qed

lemma frontier_inv_fold:
  "frontier_inv f \<Longrightarrow> fold exec cmds (R, f) = (R', f') \<Longrightarrow> frontier_inv f'"
proof (induction cmds arbitrary: R f)
  case (Cons c cmds)
  obtain R1 f1 where "exec c (R, f) = (R1, f1)" by fastforce
  with frontier_inv_exec [OF Cons.prems(1) this] Cons show ?case by simp
qed simp

text \<open>
  C3. Whatever the calls, and whatever the workers report, the frontier stays consistent: the
  dispatch indexes and the phase counts agree with the node table, leases are unique and belong
  to in-flight nodes, and recorded depths are relaxed over the recorded successors.
\<close>

theorem search_consistent:
  assumes "search limit policy prio max_states cmds = Some (R, f)"
  shows "frontier_inv f"
  using assms frontier_inv_fold frontier_inv_new
  by (fastforce simp: search_def split: sum.splits)

theorem search_consistent_witness: "frontier_inv demo_final"
  by (rule search_consistent [OF demo_search])

text \<open>
  C4. A commit is atomic: if it throws, the frontier is unchanged and the exception is one of
  its documented checks, and if the checks pass it always completes (no capacity or sequence
  error can interrupt the propagation), the node is no longer in flight, and every reported
  successor is recorded at most one level deeper.
\<close>

theorem commit_atomic:
  assumes "frontier_inv f" and "commit t e f = (r, f')"
  shows "case r of
      Inl x \<Rightarrow> f' = f \<and> commit_check t e f = Some x
    | Inr _ \<Rightarrow> commit_check t e f = None \<and> frontier_inv f' \<and>
        (\<exists>n. map_of (f_nodes f) (t_state t) = Some n \<and> n_ticket n = Some t) \<and>
        (\<exists>n'. map_of (f_nodes f') (t_state t) = Some n' \<and> n_phase n' \<noteq> Inflight \<and>
              n_successors n' = e_successors e \<and>
              (\<forall>s \<in> set (e_successors e). recorded f' s (n_depth n' + 1)))"
proof (cases r)
  case (Inl x)
  with commit_result [OF assms] show ?thesis by simp
next
  case (Inr u)
  obtain n where res: "frontier_inv f'" "grows (commit_store t e f) f'" "commit_allowed t e n f"
    using commit_result [OF assms] Inr by auto
  have n: "map_of (f_nodes f) (t_state t) = Some n" "n_ticket n = Some t"
    using res(3) by (auto simp: commit_allowed_def)
  have ok: "om_ok (f_nodes f)" using assms(1) by (auto simp: frontier_inv_def index_inv_def)
  have "map_of (f_nodes (commit_store t e f)) (t_state t) = Some (stored f n e)"
    using frame_commit_store(1) [OF ok n(1)] by simp
  from grows_lookup [OF res(2) this] obtain n' where
    n': "map_of (f_nodes f') (t_state t) = Some n'" "closer (stored f n e) n'" .
  have ph: "n_phase n' \<noteq> Inflight" "n_successors n' = e_successors e"
    using n'(2) by (cases "e_kind e"; auto simp: closer_def stored_phase_def split: if_splits)+
  have "recorded f' s (n_depth n' + 1)" if s: "s \<in> set (e_successors e)" for s
  proof -
    have "n_phase n' = Expanded"
      using frontier_inv_node [OF res(1) n'(1)] ph(2) s by (auto simp: node_ok_def)
    with n'(1) ph(2) s res(1) show ?thesis
      unfolding frontier_inv_def relaxed_def recorded_def by fastforce
  qed
  moreover have "commit_check t e f = None"
    using commit_check_iff [OF assms(1)] res(3) by blast
  ultimately show ?thesis using Inr res(1) n n' ph by auto
qed

theorem commit_atomic_witness:
  "case commit (demo_ticket 1 1 0) (demo_expand 1) (snd (demo_run 2)) of
      (Inl _, _) \<Rightarrow> False
    | (Inr _, f') \<Rightarrow> recorded f' 2 1 \<and> recorded f' 3 1"
proof -
  obtain r f' where c: "commit (demo_ticket 1 1 0) (demo_expand 1) (snd (demo_run 2)) = (r, f')"
    by fastforce
  have "commit_check (demo_ticket 1 1 0) (demo_expand 1) (snd (demo_run 2)) = None" by code_simp
  moreover have "map_option n_depth (map_of (f_nodes (snd (commit (demo_ticket 1 1 0) (demo_expand 1)
      (snd (demo_run 2))))) 1) = Some 0" by code_simp
  ultimately show ?thesis
    using commit_atomic [OF demo_inv c] c
    by (auto simp: demo_ticket_def demo_expand_def demo_succ_def split: sum.splits)
qed

section \<open>Leases\<close>

text \<open>
  C5. A lease never changes the frontier when it throws or returns nothing, returns nothing only
  when no node is pending or a shallower layer is still in flight under breadth-first search,
  and otherwise leases the pending node that the policy prescribes, under a fresh lease
  identifier, at its recorded depth.
\<close>

theorem lease_by_policy:
  assumes "frontier_inv f" and "lease w f = (r, f')"
  shows "case r of
      Inl e \<Rightarrow> f' = f \<and> lease_error f e
    | Inr None \<Rightarrow> f' = f \<and> (no_pending f \<or> bfs_barrier f)
    | Inr (Some t) \<Rightarrow> selectable f (t_state t) \<and> lease_step w t f f'"
  using lease_result [OF assms] by (simp add: lease_outcome_def)

theorem lease_by_policy_witness: "selectable (snd (demo_run 3)) 3"
proof -
  obtain r f' where l: "lease 7 (snd (demo_run 3)) = (r, f')" by fastforce
  have "map_sum id (map_option t_state) (fst (lease 7 (snd (demo_run 3)))) = Inr (Some 3)" by code_simp
  with lease_by_policy [OF demo_inv l] l show ?thesis by (cases r) auto
qed

text \<open>
  C6. The search never stalls: while it is running and no lease is outstanding, a request for
  work is answered with a ticket (if lease identifiers remain and the priority callback returns).
\<close>

theorem lease_progress:
  assumes "frontier_inv f" and "frontier_status f = Running" and "\<not> has_phase f Inflight"
    and "f_next_lease f \<noteq> - 1" and "\<forall>prio. f_priority f = Some prio \<longrightarrow> (\<forall>k d. \<not> isl (prio k d))"
  shows "\<exists>t f'. lease w f = (Inr (Some t), f') \<and> t_worker t = w"
proof -
  obtain r f' where l: "lease w f = (r, f')" by fastforce
  have st: "\<not> f_poisoned f" "has_phase f Pending"
    using assms(2,3) unfolding status_iff [OF assms(1)] by (auto split: if_splits)
  have "\<not> lease_error f e" for e
    using st(1) assms(4,5) unfolding lease_error_def by (metis sum.disc(1))
  moreover have "\<not> no_pending f" using st(2) by (auto simp: no_pending_def has_phase_def)
  moreover have "\<not> bfs_barrier f" using assms(3) by (auto simp: bfs_barrier_def has_phase_def)
  ultimately obtain t where t: "r = Inr (Some t)" "lease_step w t f f'"
    using lease_result [OF assms(1) l]
    by (auto simp: lease_outcome_def split: sum.splits option.splits)
  then obtain n where "t = fresh_ticket w (t_state t) n f" by (auto simp: lease_step_def)
  then have "t_worker t = t_worker (fresh_ticket w (t_state t) n f)" by (rule arg_cong)
  then show ?thesis using l t(1) by (simp add: fresh_ticket_def)
qed

theorem lease_progress_witness: "\<exists>t f'. lease 9 (snd (demo_run 3)) = (Inr (Some t), f') \<and> t_worker t = 9"
proof -
  have "frontier_status (snd (demo_run 3)) = Running" by code_simp
  moreover have "f_phase_counts (snd (demo_run 3)) ! phase_index Inflight = 0" by code_simp
  then have "\<not> has_phase (snd (demo_run 3)) Inflight"
    using phase_count_iff demo_inv by (metis frontier_inv_def)
  moreover have "f_next_lease (snd (demo_run 3)) \<noteq> - 1" by code_simp
  moreover have "f_priority (snd (demo_run 3)) = None"
    using demo_inv [of 3] unfolding frontier_inv_def
    by (metis (no_types) demo_policy policy.distinct(3))
  ultimately show ?thesis
    using lease_progress [OF demo_inv, of 3 9] by simp
qed

text \<open>
  C7. A lease scored for locality takes, among the first \<open>window\<close> candidates in dispatch order, one
  with the highest score, and under breadth-first search it stays within the least active layer.
\<close>

theorem lease_scored_best:
  assumes "frontier_inv f" and "f_policy f \<noteq> Priority"
    and "lease_scored w (Some score) window f = (Inr (Some t), f')"
  shows "score_best score (take window (scored_keys f)) (t_state t) \<and> lease_step w t f f' \<and>
     (f_policy f = Bfs \<longrightarrow> (\<forall>k n. map_of (f_nodes f) k = Some n \<longrightarrow> active_phase (n_phase n) \<longrightarrow>
        t_depth t \<le> n_depth n))"
  using lease_scored_result [OF assms] by (simp add: scored_outcome_def)

theorem lease_scored_best_witness: "score_best (\<lambda>k. Inr (- uint k)) (take 2 [3, 2]) 2"
proof -
  let ?sc = "\<lambda>k :: state_key. Inr (- uint k) :: exn + int"
  obtain r f' where l: "lease_scored 7 (Some ?sc) 2 (snd (demo_run 3)) = (r, f')" by fastforce
  have "map_sum id (map_option t_state) (fst (lease_scored 7 (Some ?sc) 2 (snd (demo_run 3))))
      = Inr (Some 2)" by code_simp
  then obtain t where "r = Inr (Some t)" "t_state t = 2" using l by (cases r) auto
  moreover have "scored_keys (snd (demo_run 3)) = [3, 2]" by code_simp
  ultimately show ?thesis
    using lease_scored_best [OF demo_inv, of 3 7 ?sc 2 t f'] demo_policy l by simp
qed

section \<open>Lost workers\<close>

lemma held_released [simp]: "\<not> held w (released n)"
  by (simp add: held_def released_def)

text \<open>
  C8. Losing a worker loses no state: every node it had leased becomes pending again at its
  recorded depth, every other node is untouched, the count returned is the number of requeued
  nodes, and each of the tickets the worker still holds is rejected without effect.
\<close>

theorem worker_lost_requeues:
  assumes "frontier_inv f" and "worker_lost w f = (Inr c, f')"
  shows "frontier_inv f' \<and> c = om_count (held w) (f_nodes f) \<and>
     (\<forall>k. map_of (f_nodes f') k =
        map_option (\<lambda>n. if held w n then n\<lparr>n_phase := Pending, n_ticket := None\<rparr> else n)
          (map_of (f_nodes f) k)) \<and>
     (\<forall>t e. t_worker t = w \<longrightarrow>
        commit t e f' = (Inl (Invalid_argument ''stale or invalid frontier lease''), f'))"
proof -
  have res: "frontier_inv f'" "same_env f f'" "c = om_count (held w) (f_nodes f)"
    and nodes: "map_of (f_nodes f') k =
      map_option (\<lambda>n. if held w n then released n else n) (map_of (f_nodes f) k)" for k
    using worker_lost_result [OF assms] by auto
  have healthy: "\<not> f_poisoned f'"
    using assms(2) res(2) by (auto simp: worker_lost_def ensure_healthy_def same_env_def split: if_splits)
  have "commit_check t e f' = Some (Invalid_argument ''stale or invalid frontier lease'')"
    if t: "t_worker t = w" for t e
  proof (cases "map_of (f_nodes f') (t_state t)")
    case None
    with healthy show ?thesis by (simp add: commit_check_def ensure_healthy_def)
  next
    case (Some m)
    then obtain n where "m = (if held w n then released n else n)"
      using nodes [of "t_state t"] by auto
    then have "\<not> held w m" by (metis held_released)
    then have "case n_ticket m of None \<Rightarrow> True | Some u \<Rightarrow> t_worker u \<noteq> t_worker t"
      using t by (auto simp: held_def split: option.splits)
    with healthy Some show ?thesis
      by (auto simp: commit_check_def ensure_healthy_def split: option.splits)
  qed
  then show ?thesis
    using res(1,3) nodes [unfolded released_def] by (auto simp: commit_def)
qed

theorem worker_lost_requeues_witness:
  "commit (demo_ticket 2 3 1) (demo_expand 2) (snd (worker_lost 7 (snd (demo_run 6))))
     = (Inl (Invalid_argument ''stale or invalid frontier lease''), snd (worker_lost 7 (snd (demo_run 6))))"
proof -
  obtain r f' where l: "worker_lost 7 (snd (demo_run 6)) = (r, f')" by fastforce
  have "fst (worker_lost 7 (snd (demo_run 6))) = Inr 1" by code_simp
  with l have "worker_lost 7 (snd (demo_run 6)) = (Inr 1, f')" by simp
  from worker_lost_requeues [OF demo_inv this] l show ?thesis by (simp add: demo_ticket_def)
qed

text \<open>
  C9. Admission is atomic and reports a change exactly when the state was not yet recorded at
  that depth or a smaller one; afterwards it is, and no recorded state moves further away.
\<close>

theorem admit_atomic:
  assumes "frontier_inv f" and "admit k d f = (r, f')"
  shows "case r of
      Inl _ \<Rightarrow> f' = f
    | Inr changed \<Rightarrow> frontier_inv f' \<and> (changed \<longleftrightarrow> \<not> recorded f k d) \<and> recorded f' k d \<and>
        d \<le> f_limit f \<and> (\<forall>k' d'. recorded f k' d' \<longrightarrow> recorded f' k' d')"
  using admit_result [OF assms] by (auto intro: recorded_grows split: sum.splits)

theorem admit_atomic_witness:
  "case admit 3 0 demo_final of (Inl _, _) \<Rightarrow> False | (Inr changed, f') \<Rightarrow> changed \<and> recorded f' 3 0"
proof -
  obtain r f' where a: "admit 3 0 demo_final = (r, f')" by fastforce
  have "fst (admit 3 0 demo_final) = Inr True" by code_simp
  with admit_atomic [OF demo_inv a] a show ?thesis by simp
qed

end
