(* ===== verification/Linux_Abi.thy ===== *)
theory Linux_Abi
  imports Prelude
begin

text \<open>
  The constants of the Linux x86-64 system call interface that the emulated kernel uses: error
  numbers, descriptor and file flags. A C \<open>int\<close>, \<open>long\<close> or \<open>ssize_t\<close> is an \<open>int\<close> of HOL, whose
  bit operations are those of two's complement.
\<close>

unbundle bit_operations_syntax

section \<open>Error numbers\<close>

abbreviation (input) ENOENT :: int where "ENOENT \<equiv> 2"
abbreviation (input) ESRCH :: int where "ESRCH \<equiv> 3"
abbreviation (input) EINTR :: int where "EINTR \<equiv> 4"
abbreviation (input) EIO :: int where "EIO \<equiv> 5"
abbreviation (input) EBADF :: int where "EBADF \<equiv> 9"
abbreviation (input) EAGAIN :: int where "EAGAIN \<equiv> 11"
abbreviation (input) ENOMEM :: int where "ENOMEM \<equiv> 12"
abbreviation (input) EACCES :: int where "EACCES \<equiv> 13"
abbreviation (input) EFAULT :: int where "EFAULT \<equiv> 14"
abbreviation (input) EBUSY :: int where "EBUSY \<equiv> 16"
abbreviation (input) EEXIST :: int where "EEXIST \<equiv> 17"
abbreviation (input) EXDEV :: int where "EXDEV \<equiv> 18"
abbreviation (input) ENODEV :: int where "ENODEV \<equiv> 19"
abbreviation (input) ENOTDIR :: int where "ENOTDIR \<equiv> 20"
abbreviation (input) EISDIR :: int where "EISDIR \<equiv> 21"
abbreviation (input) EINVAL :: int where "EINVAL \<equiv> 22"
abbreviation (input) EMFILE :: int where "EMFILE \<equiv> 24"
abbreviation (input) ENOTTY :: int where "ENOTTY \<equiv> 25"
abbreviation (input) ETXTBSY :: int where "ETXTBSY \<equiv> 26"
abbreviation (input) EFBIG :: int where "EFBIG \<equiv> 27"
abbreviation (input) ENOSPC :: int where "ENOSPC \<equiv> 28"
abbreviation (input) ESPIPE :: int where "ESPIPE \<equiv> 29"
abbreviation (input) EROFS :: int where "EROFS \<equiv> 30"
abbreviation (input) EPERM :: int where "EPERM \<equiv> 1"
abbreviation (input) ERANGE :: int where "ERANGE \<equiv> 34"
abbreviation (input) EPIPE :: int where "EPIPE \<equiv> 32"
abbreviation (input) ENAMETOOLONG :: int where "ENAMETOOLONG \<equiv> 36"
abbreviation (input) ENOSYS :: int where "ENOSYS \<equiv> 38"
abbreviation (input) ENOTEMPTY :: int where "ENOTEMPTY \<equiv> 39"
abbreviation (input) ELOOP :: int where "ELOOP \<equiv> 40"
abbreviation (input) EOVERFLOW :: int where "EOVERFLOW \<equiv> 75"
abbreviation (input) ENOTSOCK :: int where "ENOTSOCK \<equiv> 88"
abbreviation (input) EDESTADDRREQ :: int where "EDESTADDRREQ \<equiv> 89"
abbreviation (input) EMSGSIZE :: int where "EMSGSIZE \<equiv> 90"
abbreviation (input) ENOPROTOOPT :: int where "ENOPROTOOPT \<equiv> 92"
abbreviation (input) EPROTONOSUPPORT :: int where "EPROTONOSUPPORT \<equiv> 93"
abbreviation (input) EOPNOTSUPP :: int where "EOPNOTSUPP \<equiv> 95"
abbreviation (input) EAFNOSUPPORT :: int where "EAFNOSUPPORT \<equiv> 97"
abbreviation (input) EADDRINUSE :: int where "EADDRINUSE \<equiv> 98"
abbreviation (input) EADDRNOTAVAIL :: int where "EADDRNOTAVAIL \<equiv> 99"
abbreviation (input) ECONNRESET :: int where "ECONNRESET \<equiv> 104"
abbreviation (input) EISCONN :: int where "EISCONN \<equiv> 106"
abbreviation (input) ENOTCONN :: int where "ENOTCONN \<equiv> 107"
abbreviation (input) ETIMEDOUT :: int where "ETIMEDOUT \<equiv> 110"
abbreviation (input) ECONNREFUSED :: int where "ECONNREFUSED \<equiv> 111"
abbreviation (input) EALREADY :: int where "EALREADY \<equiv> 114"
abbreviation (input) EINPROGRESS :: int where "EINPROGRESS \<equiv> 115"

section \<open>Descriptor and file flags\<close>

abbreviation (input) INT_MAX :: int where "INT_MAX \<equiv> 2147483647"

abbreviation (input) O_RDONLY :: int where "O_RDONLY \<equiv> 0"
abbreviation (input) O_WRONLY :: int where "O_WRONLY \<equiv> 1"
abbreviation (input) O_RDWR :: int where "O_RDWR \<equiv> 2"
abbreviation (input) O_ACCMODE :: int where "O_ACCMODE \<equiv> 3"
abbreviation (input) O_CREAT :: int where "O_CREAT \<equiv> 0x40"
abbreviation (input) O_EXCL :: int where "O_EXCL \<equiv> 0x80"
abbreviation (input) O_NOCTTY :: int where "O_NOCTTY \<equiv> 0x100"
abbreviation (input) O_TRUNC :: int where "O_TRUNC \<equiv> 0x200"
abbreviation (input) O_APPEND :: int where "O_APPEND \<equiv> 0x400"
abbreviation (input) O_NONBLOCK :: int where "O_NONBLOCK \<equiv> 0x800"
abbreviation (input) O_ASYNC :: int where "O_ASYNC \<equiv> 0x2000"
abbreviation (input) O_DIRECT :: int where "O_DIRECT \<equiv> 0x4000"
abbreviation (input) O_LARGEFILE :: int where "O_LARGEFILE \<equiv> 0"
abbreviation (input) O_DIRECTORY :: int where "O_DIRECTORY \<equiv> 0x10000"
abbreviation (input) O_NOFOLLOW :: int where "O_NOFOLLOW \<equiv> 0x20000"
abbreviation (input) O_NOATIME :: int where "O_NOATIME \<equiv> 0x40000"
abbreviation (input) O_CLOEXEC :: int where "O_CLOEXEC \<equiv> 0x80000"

abbreviation (input) FD_CLOEXEC :: int where "FD_CLOEXEC \<equiv> 1"
abbreviation (input) F_GETFD :: int where "F_GETFD \<equiv> 1"
abbreviation (input) F_SETFD :: int where "F_SETFD \<equiv> 2"
abbreviation (input) F_GETFL :: int where "F_GETFL \<equiv> 3"
abbreviation (input) F_SETFL :: int where "F_SETFL \<equiv> 4"

text \<open>A flag test \<open>if (value & flag)\<close>.\<close>

definition has_flag :: "int \<Rightarrow> int \<Rightarrow> bool" where
  "has_flag value flag \<longleftrightarrow> value AND flag \<noteq> 0"

text \<open>\<open>std::to_string\<close> of an integer.\<close>

fun digits_of :: "nat \<Rightarrow> string" where
  "digits_of n = (if n < 10 then [char_of (48 + n)] else digits_of (n div 10) @ [char_of (48 + n mod 10)])"

declare digits_of.simps [simp del]

definition to_string :: "int \<Rightarrow> string" where
  "to_string i = (if i < 0 then CHR ''-'' # digits_of (nat (- i)) else digits_of (nat i))"

end
