(* ===== verification/Fd_Manager.thy ===== *)
theory Fd_Manager
  imports Linux_Abi
begin

text \<open>
  The descriptor namespace that files, pipes, sockets and epoll instances of one process share:
  \<open>src/src/subsys/fs/fd_manager.h\<close> and \<open>fd_manager.cpp\<close>, class \<open>FdManager\<close>. Its only member is
  the map \<open>entries_\<close>. The contract its clients rely on is the locale \<open>fd_table\<close>.
\<close>

section \<open>Data\<close>

datatype fd_type = FT_FILE | FT_SOCKET | FT_EPOLL | FT_PIPE | FT_STDIO | FT_UNKNOWN

fun fd_type_index :: "fd_type \<Rightarrow> nat" where
  "fd_type_index FT_FILE = 0"
| "fd_type_index FT_SOCKET = 1"
| "fd_type_index FT_EPOLL = 2"
| "fd_type_index FT_PIPE = 3"
| "fd_type_index FT_STDIO = 4"
| "fd_type_index FT_UNKNOWN = 5"

lemma fd_type_index_inj: "fd_type_index k = fd_type_index l \<longleftrightarrow> k = l"
  by (cases k; cases l) auto

instantiation fd_type :: linorder
begin

definition less_eq_fd_type :: "fd_type \<Rightarrow> fd_type \<Rightarrow> bool" where
  "less_eq_fd_type k l \<longleftrightarrow> fd_type_index k \<le> fd_type_index l"

definition less_fd_type :: "fd_type \<Rightarrow> fd_type \<Rightarrow> bool" where
  "less_fd_type k l \<longleftrightarrow> fd_type_index k < fd_type_index l"

instance
  by standard (auto simp: less_eq_fd_type_def less_fd_type_def fd_type_index_inj)

end

record fd_entry =
  fd_kind :: fd_type
  fd_status :: int
  fd_descriptor :: int

type_synonym fd_manager = "(int, fd_entry) omap"

section \<open>Operations\<close>

definition valid_kind :: "fd_type \<Rightarrow> bool" where
  "valid_kind kind \<longleftrightarrow> FT_FILE \<le> kind \<and> kind < FT_UNKNOWN"

definition validate_entry :: "fd_type \<Rightarrow> int \<Rightarrow> int \<Rightarrow> exn option" where
  "validate_entry kind status descriptor =
     (if \<not> valid_kind kind \<or> status < 0 \<or> status AND O_ACCMODE = O_ACCMODE \<or>
         status AND (O_ASYNC OR O_DIRECT OR O_NOATIME) \<noteq> 0 \<or> descriptor AND NOT FD_CLOEXEC \<noteq> 0
      then Some (Runtime_error ''Invalid virtual descriptor entry'')
      else None)"

definition new_fd_manager :: fd_manager where
  "new_fd_manager =
     [(0, \<lparr>fd_kind = FT_STDIO, fd_status = O_RDONLY, fd_descriptor = 0\<rparr>),
      (1, \<lparr>fd_kind = FT_STDIO, fd_status = O_WRONLY, fd_descriptor = 0\<rparr>),
      (2, \<lparr>fd_kind = FT_STDIO, fd_status = O_WRONLY, fd_descriptor = 0\<rparr>)]"

fun next_fd_from :: "int \<Rightarrow> fd_manager \<Rightarrow> int" where
  "next_fd_from candidate [] = candidate"
| "next_fd_from candidate ((fd, _) # entries) =
     (if candidate < fd then candidate
      else if candidate = INT_MAX then - EMFILE
      else next_fd_from (candidate + 1) entries)"

definition get_next_fd :: "fd_manager \<Rightarrow> int" where
  "get_next_fd m = next_fd_from 0 m"

definition allocate_fd :: "fd_type \<Rightarrow> int \<Rightarrow> int \<Rightarrow> fd_manager \<Rightarrow> (fd_manager, int) outcome" where
  "allocate_fd type status_flags descriptor_flags m =
     (case validate_entry type status_flags descriptor_flags of
        Some e \<Rightarrow> (Inl e, m)
      | None \<Rightarrow>
          (let fd = get_next_fd m
           in if fd \<ge> 0
              then (Inr fd, om_emplace fd \<lparr>fd_kind = type, fd_status = status_flags,
                                           fd_descriptor = descriptor_flags\<rparr> m)
              else (Inr fd, m)))"

definition release_fd :: "int \<Rightarrow> fd_manager \<Rightarrow> fd_manager" where
  "release_fd fd m = om_del fd m"

definition get_fd_type :: "int \<Rightarrow> fd_manager \<Rightarrow> fd_type" where
  "get_fd_type fd m = (case map_of m fd of None \<Rightarrow> FT_UNKNOWN | Some e \<Rightarrow> fd_kind e)"

definition is_allocated :: "int \<Rightarrow> fd_manager \<Rightarrow> bool" where
  "is_allocated fd m \<longleftrightarrow> om_mem fd m"

definition get_status_flags :: "int \<Rightarrow> fd_manager \<Rightarrow> int" where
  "get_status_flags fd m = (case map_of m fd of None \<Rightarrow> - EBADF | Some e \<Rightarrow> fd_status e)"

definition get_descriptor_flags :: "int \<Rightarrow> fd_manager \<Rightarrow> int" where
  "get_descriptor_flags fd m = (case map_of m fd of None \<Rightarrow> - EBADF | Some e \<Rightarrow> fd_descriptor e)"

definition do_fcntl :: "int \<Rightarrow> int \<Rightarrow> int \<Rightarrow> fd_manager \<Rightarrow> (fd_manager, int) outcome" where
  "do_fcntl fd command argument m =
     (case map_of m fd of
        None \<Rightarrow> (Inr (- EBADF), m)
      | Some e \<Rightarrow>
          if command = F_GETFL then (Inr (fd_status e), m)
          else if command = F_GETFD then (Inr (fd_descriptor e), m)
          else if command = F_SETFD
          then (Inr 0, om_put fd (e\<lparr>fd_descriptor := argument AND FD_CLOEXEC\<rparr>) m)
          else if command = F_SETFL
          then
            if argument AND (O_ASYNC OR O_DIRECT OR O_NOATIME) \<noteq> 0
            then (Inl (Runtime_error ''Unsupported virtual F_SETFL flags''), m)
            else (Inr 0, om_put fd (e\<lparr>fd_status :=
                    (fd_status e AND NOT (O_APPEND OR O_NONBLOCK)) OR
                    (argument AND (O_APPEND OR O_NONBLOCK))\<rparr>) m)
          else (Inl (Runtime_error (''Unsupported virtual fcntl command '' @ to_string command)), m))"

definition get_allocated_fds :: "fd_manager \<Rightarrow> int set" where
  "get_allocated_fds m = fst ` set m"

section \<open>The invariant\<close>

definition entry_ok :: "fd_entry \<Rightarrow> bool" where
  "entry_ok e \<longleftrightarrow> validate_entry (fd_kind e) (fd_status e) (fd_descriptor e) = None"

definition fd_ok :: "fd_manager \<Rightarrow> bool" where
  "fd_ok m \<longleftrightarrow> om_ok m \<and> (\<forall>fd e. map_of m fd = Some e \<longrightarrow> 0 \<le> fd \<and> fd \<le> INT_MAX \<and> entry_ok e)"

lemma fd_okD:
  assumes "fd_ok m"
  shows "om_ok m" "map_of m fd = Some e \<Longrightarrow> 0 \<le> fd \<and> fd \<le> INT_MAX \<and> entry_ok e"
  using assms by (auto simp: fd_ok_def)

lemma fd_ok_new: "fd_ok new_fd_manager"
  by (auto simp: fd_ok_def new_fd_manager_def entry_ok_def validate_entry_def valid_kind_def
      less_eq_fd_type_def less_fd_type_def split: if_splits)

lemma fd_ok_put: "fd_ok m \<Longrightarrow> 0 \<le> fd \<Longrightarrow> fd \<le> INT_MAX \<Longrightarrow> entry_ok e \<Longrightarrow> fd_ok (om_put fd e m)"
  by (auto simp: fd_ok_def)

lemma fd_ok_release: "fd_ok m \<Longrightarrow> fd_ok (release_fd fd m)"
  by (auto simp: fd_ok_def release_fd_def)

text \<open>
  The scan of \<open>get_next_fd\<close>: the entries below the candidate have been passed one by one, so the
  keys seen are exactly the numbers below it.
\<close>

lemma next_fd_from_spec:
  assumes "om_ok m" "\<And>fd. fd \<in> fst ` set m \<Longrightarrow> c \<le> fd \<and> fd \<le> INT_MAX" "c \<le> INT_MAX"
    and "0 \<le> c"
  shows "(let fd = next_fd_from c m in
     if fd < 0 then fd = - EMFILE \<and> {c..INT_MAX} \<subseteq> fst ` set m
     else c \<le> fd \<and> fd \<le> INT_MAX \<and> fd \<notin> fst ` set m \<and> {c..<fd} \<subseteq> fst ` set m)"
  using assms
proof (induction c m rule: next_fd_from.induct)
  case (2 c fd e m)
  have above: "fd < x" if "x \<in> fst ` set m" for x using "2.prems"(1) that by auto
  have ge: "c \<le> fd" using "2.prems"(2) by simp
  show ?case
  proof (cases "c < fd")
    case True
    then have "c \<notin> fst ` set ((fd, e) # m)" using above by force
    with True "2.prems"(3,4) show ?thesis by (simp add: Let_def)
  next
    case False
    with ge have eq: "fd = c" by simp
    show ?thesis
    proof (cases "c = INT_MAX")
      case True
      with eq show ?thesis by (simp add: Let_def)
    next
      case ne: False
      have dom: "c + 1 \<le> x \<and> x \<le> INT_MAX" if "x \<in> fst ` set m" for x
        using above [OF that] "2.prems"(2) [of x] that eq by auto
      have "let fd = next_fd_from (c + 1) m in
         if fd < 0 then fd = - EMFILE \<and> {c + 1..INT_MAX} \<subseteq> fst ` set m
         else c + 1 \<le> fd \<and> fd \<le> INT_MAX \<and> fd \<notin> fst ` set m \<and> {c + 1..<fd} \<subseteq> fst ` set m"
      proof (rule "2.IH" [OF False ne])
        show "om_ok m" using "2.prems"(1) by simp
        show "\<And>x. x \<in> fst ` set m \<Longrightarrow> c + 1 \<le> x \<and> x \<le> INT_MAX" by (rule dom)
        show "c + 1 \<le> INT_MAX" using "2.prems"(3) ne by simp
        show "0 \<le> c + 1" using "2.prems"(4) by simp
      qed
      moreover have "c \<le> x \<Longrightarrow> {c..x} = insert c {c + 1..x}" "c < x \<Longrightarrow> {c..<x} = insert c {c + 1..<x}"
        for x by auto
      ultimately show ?thesis
        using False ne eq "2.prems"(3) by (simp add: Let_def subset_insertI2 split: if_splits)
    qed
  qed
qed simp

lemma get_next_fd_spec:
  assumes "fd_ok m"
  shows "if get_next_fd m < 0
     then get_next_fd m = - EMFILE \<and> (\<forall>fd. 0 \<le> fd \<and> fd \<le> INT_MAX \<longrightarrow> map_of m fd \<noteq> None)
     else get_next_fd m \<le> INT_MAX \<and> map_of m (get_next_fd m) = None \<and>
          (\<forall>fd. 0 \<le> fd \<and> fd < get_next_fd m \<longrightarrow> map_of m fd \<noteq> None)"
proof -
  have dom: "0 \<le> fd \<and> fd \<le> INT_MAX" if "fd \<in> fst ` set m" for fd
  proof -
    obtain e where "map_of m fd = Some e" using \<open>fd \<in> fst ` set m\<close> by (meson map_of_eq_None_iff not_None_eq)
    with fd_okD(2) [OF assms] show ?thesis by blast
  qed
  have "let fd = get_next_fd m in
     if fd < 0 then fd = - EMFILE \<and> {0..INT_MAX} \<subseteq> fst ` set m
     else 0 \<le> fd \<and> fd \<le> INT_MAX \<and> fd \<notin> fst ` set m \<and> {0..<fd} \<subseteq> fst ` set m"
    unfolding get_next_fd_def by (rule next_fd_from_spec [OF fd_okD(1) [OF assms] dom]) auto
  then show ?thesis
    by (simp add: Let_def map_of_eq_None_iff subset_iff split: if_splits)
qed

lemma allocate_fd_result:
  assumes "fd_ok m" "allocate_fd k s d m = (r, m')"
  shows "case r of
      Inl e \<Rightarrow> m' = m \<and> validate_entry k s d = Some e
    | Inr fd \<Rightarrow> validate_entry k s d = None \<and>
        (if fd < 0 then fd = - EMFILE \<and> m' = m
         else fd \<le> INT_MAX \<and> map_of m fd = None \<and>
              m' = om_put fd \<lparr>fd_kind = k, fd_status = s, fd_descriptor = d\<rparr> m)"
  using assms(2) get_next_fd_spec [OF assms(1)]
  by (auto simp: allocate_fd_def Let_def om_emplace_def split: option.splits if_splits)

lemma fd_ok_allocate:
  assumes "fd_ok m" "allocate_fd k s d m = (r, m')"
  shows "fd_ok m'"
  using allocate_fd_result [OF assms] assms(1)
  by (cases r) (auto simp: entry_ok_def intro: fd_ok_put split: if_splits)

lemma setfl_status_ok:
  assumes "entry_ok e"
  shows "entry_ok (e\<lparr>fd_status := (fd_status e AND NOT (O_APPEND OR O_NONBLOCK)) OR
     (a AND (O_APPEND OR O_NONBLOCK))\<rparr>)"
proof -
  let ?s = "(fd_status e AND NOT 0xC00) OR (a AND 0xC00)"
  have "?s AND x = fd_status e AND x" if "0xC00 AND x = 0" "NOT 0xC00 AND x = x" for x
  proof -
    have "?s AND x = ((fd_status e AND (NOT 0xC00 AND x)) OR (a AND (0xC00 AND x)))"
      by (simp only: bit.conj_disj_distrib2 and.assoc)
    then show ?thesis using that by simp
  qed
  from this [of 3] this [of "0x46000"] have "?s AND 3 = fd_status e AND 3"
    "?s AND 0x46000 = fd_status e AND 0x46000" by simp_all
  moreover have "0 \<le> ?s" using assms by (auto simp: entry_ok_def validate_entry_def split: if_splits)
  ultimately show ?thesis using assms by (simp add: entry_ok_def validate_entry_def split: if_splits)
qed

lemma setfd_ok: "entry_ok e \<Longrightarrow> entry_ok (e\<lparr>fd_descriptor := a AND FD_CLOEXEC\<rparr>)"
  by (simp add: entry_ok_def validate_entry_def and.assoc split: if_splits)

lemma fd_ok_fcntl:
  assumes "fd_ok m" "do_fcntl fd c a m = (r, m')"
  shows "fd_ok m'"
proof (cases "map_of m fd")
  case None
  with assms show ?thesis by (auto simp: do_fcntl_def)
next
  case (Some e)
  then have e: "0 \<le> fd" "fd \<le> INT_MAX" "entry_ok e" using fd_okD(2) [OF assms(1)] by auto
  show ?thesis
    using assms Some fd_ok_put [OF assms(1) e(1,2) setfd_ok [OF e(3), of a]]
      fd_ok_put [OF assms(1) e(1,2) setfl_status_ok [OF e(3), of a]]
    by (auto simp: do_fcntl_def split: if_splits)
qed

lemma fcntl_kind: "do_fcntl fd cmd arg fdm = (r, fdm') \<Longrightarrow> get_fd_type x fdm' = get_fd_type x fdm"
  by (auto simp: do_fcntl_def get_fd_type_def Let_def split: if_splits option.splits)

section \<open>The contract of a descriptor table\<close>

text \<open>
  What the socket and file layers rely on: an allocation gives a descriptor that was free,
  touches no other descriptor and fails without effect; a release frees exactly one.
\<close>

locale fd_table =
  fixes alloc :: "fd_type \<Rightarrow> int \<Rightarrow> int \<Rightarrow> 'm \<Rightarrow> ('m, int) outcome"
    and release :: "int \<Rightarrow> 'm \<Rightarrow> 'm"
    and kind :: "int \<Rightarrow> 'm \<Rightarrow> fd_type"
    and ok :: "'m \<Rightarrow> bool"
  assumes ok_alloc: "ok m \<Longrightarrow> alloc k s d m = (r, m') \<Longrightarrow> ok m'"
    and ok_release: "ok m \<Longrightarrow> ok (release fd m)"
    and alloc_fresh: "ok m \<Longrightarrow> alloc k s d m = (Inr fd, m') \<Longrightarrow> 0 \<le> fd \<Longrightarrow>
      k \<noteq> FT_UNKNOWN \<and> kind fd m = FT_UNKNOWN \<and> kind fd m' = k \<and> (\<forall>x. x \<noteq> fd \<longrightarrow> kind x m' = kind x m)"
    and alloc_full: "ok m \<Longrightarrow> alloc k s d m = (Inr fd, m') \<Longrightarrow> fd < 0 \<Longrightarrow> m' = m"
    and alloc_error: "ok m \<Longrightarrow> alloc k s d m = (Inl e, m') \<Longrightarrow> m' = m"
    and kind_release: "kind x (release fd m) = (if x = fd then FT_UNKNOWN else kind x m)"
begin

lemma alloc_twice:
  assumes "ok m" "alloc k s d m = (Inr a, m1)" "0 \<le> a" "alloc k' s' d' m1 = (Inr b, m2)" "0 \<le> b"
  shows "a \<noteq> b \<and> kind a m2 = k \<and> kind b m2 = k'"
proof -
  have a: "k \<noteq> FT_UNKNOWN" "kind a m1 = k" using alloc_fresh [OF assms(1-3)] by auto
  have b: "kind b m1 = FT_UNKNOWN" "kind b m2 = k'" "\<And>x. x \<noteq> b \<Longrightarrow> kind x m2 = kind x m1"
    using alloc_fresh [OF ok_alloc [OF assms(1,2)] assms(4,5)] by auto
  from a b(1) have "a \<noteq> b" by auto
  with a b show ?thesis by simp
qed

lemma alloc_release:
  assumes "ok m" "alloc k s d m = (Inr fd, m')" "0 \<le> fd"
  shows "kind x (release fd m') = kind x m"
  using alloc_fresh [OF assms] by (simp add: kind_release)

lemma alloc_keeps:
  assumes "ok m" "alloc k s d m = (r, m')" "kind x m \<noteq> FT_UNKNOWN"
  shows "kind x m' = kind x m"
proof (cases r)
  case (Inl e)
  then show ?thesis using alloc_error [OF assms(1) assms(2) [unfolded Inl]] by simp
next
  case (Inr fd)
  show ?thesis
  proof (cases "0 \<le> fd")
    case True
    from alloc_fresh [OF assms(1) assms(2) [unfolded Inr] True] assms(3) show ?thesis by metis
  next
    case False
    with alloc_full [OF assms(1) assms(2) [unfolded Inr]] show ?thesis by simp
  qed
qed

end

interpretation fdm: fd_table allocate_fd release_fd get_fd_type fd_ok
proof
  fix m k s d r m' assume "fd_ok m" "allocate_fd k s d m = (r, m')"
  then show "fd_ok m'" by (rule fd_ok_allocate)
next
  fix m k s d fd m' assume a: "fd_ok m" "allocate_fd k s d m = (Inr fd, m')" "0 \<le> fd"
  from allocate_fd_result [OF a(1,2)] a(3)
  have r: "validate_entry k s d = None" "map_of m fd = None"
    "m' = om_put fd \<lparr>fd_kind = k, fd_status = s, fd_descriptor = d\<rparr> m" by auto
  from r(1) have "k \<noteq> FT_UNKNOWN" by (auto simp: validate_entry_def valid_kind_def split: if_splits)
  with r show "k \<noteq> FT_UNKNOWN \<and> get_fd_type fd m = FT_UNKNOWN \<and> get_fd_type fd m' = k \<and>
      (\<forall>x. x \<noteq> fd \<longrightarrow> get_fd_type x m' = get_fd_type x m)"
    by (simp add: get_fd_type_def)
next
  fix m k s d fd m' assume "fd_ok m" "allocate_fd k s d m = (Inr fd, m')" "fd < 0"
  with allocate_fd_result show "m' = m" by fastforce
next
  fix m k s d e m' assume "fd_ok m" "allocate_fd k s d m = (Inl e, m')"
  with allocate_fd_result show "m' = m" by fastforce
next
  fix m fd assume "fd_ok m"
  then show "fd_ok (release_fd fd m)" by (rule fd_ok_release)
qed (auto simp: get_fd_type_def release_fd_def)

section \<open>Properties\<close>

text \<open>
  C10. Allocation follows the Unix rule: it returns the lowest free descriptor with the requested
  entry and changes nothing else; when none is free it returns \<open>-EMFILE\<close>, and when the entry is
  invalid it throws, both without effect.
\<close>

theorem allocate_fd_lowest:
  assumes "fd_ok m" and "allocate_fd k s d m = (r, m')"
  shows "case r of
      Inl e \<Rightarrow> m' = m \<and> validate_entry k s d = Some e
    | Inr fd \<Rightarrow>
        if fd < 0
        then fd = - EMFILE \<and> m' = m \<and> (\<forall>x. 0 \<le> x \<and> x \<le> INT_MAX \<longrightarrow> is_allocated x m)
        else \<not> is_allocated fd m \<and> (\<forall>x. 0 \<le> x \<and> x < fd \<longrightarrow> is_allocated x m) \<and>
             (\<forall>x. map_of m' x = (if x = fd then Some \<lparr>fd_kind = k, fd_status = s, fd_descriptor = d\<rparr>
                                 else map_of m x))"
proof (cases r)
  case (Inl e)
  with allocate_fd_result [OF assms] show ?thesis by simp
next
  case (Inr fd)
  have "validate_entry k s d = None" using allocate_fd_result [OF assms] Inr by simp
  then have "fd = get_next_fd m"
    using assms(2) Inr by (auto simp: allocate_fd_def Let_def split: if_splits)
  with allocate_fd_result [OF assms] get_next_fd_spec [OF assms(1)] Inr show ?thesis
    by (auto simp: is_allocated_def om_mem_def split: if_splits)
qed

definition demo_fds :: fd_manager where
  "demo_fds = release_fd 1 new_fd_manager"

theorem allocate_fd_lowest_witness: "\<exists>m'. allocate_fd FT_FILE O_RDWR 0 demo_fds = (Inr 1, m') \<and> is_allocated 0 demo_fds"
proof -
  obtain r m' where a: "allocate_fd FT_FILE O_RDWR 0 demo_fds = (r, m')" by fastforce
  have "fst (allocate_fd FT_FILE O_RDWR 0 demo_fds) = Inr 1" by code_simp
  moreover have "fd_ok demo_fds" by (simp add: demo_fds_def fd_ok_release fd_ok_new)
  ultimately show ?thesis using allocate_fd_lowest [OF _ a] a by auto
qed

datatype fd_call = Fd_allocate fd_type int int | Fd_release int | Fd_fcntl int int int

fun fd_exec :: "fd_call \<Rightarrow> fd_manager \<Rightarrow> fd_manager" where
  "fd_exec (Fd_allocate k s d) m = snd (allocate_fd k s d m)"
| "fd_exec (Fd_release fd) m = release_fd fd m"
| "fd_exec (Fd_fcntl fd c a) m = snd (do_fcntl fd c a m)"

text \<open>
  C11. Whatever calls are made, every entry stays valid: descriptors are between 0 and \<open>INT_MAX\<close>,
  kinds are known, the access mode is legal and no unsupported flag is ever set, also after
  \<open>F_SETFL\<close> with an arbitrary argument.
\<close>

theorem fd_calls_valid: "fd_ok (fold fd_exec calls new_fd_manager)"
proof -
  have "fd_ok m \<Longrightarrow> fd_ok (fd_exec c m)" for c m
    by (cases c) (auto intro: fd_ok_allocate [OF _ prod.collapse [symmetric]] fd_ok_release
        fd_ok_fcntl [OF _ prod.collapse [symmetric]])
  then have "fd_ok m \<Longrightarrow> fd_ok (fold fd_exec calls m)" for m
    by (induction calls arbitrary: m) auto
  then show ?thesis using fd_ok_new by blast
qed

end
