(* ===== verification/Futex.thy ===== *)
theory Futex
  imports Linux_Abi
begin

text \<open>
  Futex emulation: \<open>src/src/subsys/sync/futexstate.h\<close> and \<open>futexstate.cpp\<close>, class \<open>FutexState\<close>.
  A state holds the wait queue of every address, in order of arrival, and the address each
  thread waits on. Logging is left out; the debug dump is not modelled.
\<close>

section \<open>Data\<close>

record futex_waiter =
  w_tid :: int
  w_uaddr :: u64
  w_val :: int
  w_bitset :: u32
  w_private :: bool

record futex_state =
  fx_waiters :: "(u64, futex_waiter list) omap"
  fx_map :: "(int, u64) omap"

abbreviation (input) FUTEX_WAIT :: int where "FUTEX_WAIT \<equiv> 0"
abbreviation (input) FUTEX_WAKE :: int where "FUTEX_WAKE \<equiv> 1"
abbreviation (input) FUTEX_REQUEUE :: int where "FUTEX_REQUEUE \<equiv> 3"
abbreviation (input) FUTEX_CMP_REQUEUE :: int where "FUTEX_CMP_REQUEUE \<equiv> 4"
abbreviation (input) FUTEX_WAIT_BITSET :: int where "FUTEX_WAIT_BITSET \<equiv> 9"
abbreviation (input) FUTEX_WAKE_BITSET :: int where "FUTEX_WAKE_BITSET \<equiv> 10"
abbreviation (input) FUTEX_PRIVATE_FLAG :: int where "FUTEX_PRIVATE_FLAG \<equiv> 128"
abbreviation (input) FUTEX_CLOCK_REALTIME :: int where "FUTEX_CLOCK_REALTIME \<equiv> 256"

definition get_op :: "int \<Rightarrow> int" where
  "get_op futex_op = futex_op AND NOT (FUTEX_PRIVATE_FLAG OR FUTEX_CLOCK_REALTIME)"

definition is_private :: "int \<Rightarrow> bool" where
  "is_private futex_op \<longleftrightarrow> has_flag futex_op FUTEX_PRIVATE_FLAG"

section \<open>Operations\<close>

definition new_futex_state :: futex_state where
  "new_futex_state = \<lparr>fx_waiters = [], fx_map = []\<rparr>"

definition futex_clear :: "futex_state \<Rightarrow> futex_state" where
  "futex_clear s = s\<lparr>fx_waiters := [], fx_map := []\<rparr>"

definition is_thread_waiting :: "int \<Rightarrow> futex_state \<Rightarrow> bool" where
  "is_thread_waiting tid s \<longleftrightarrow> (case map_of (fx_map s) tid of None \<Rightarrow> False | Some a \<Rightarrow> a \<noteq> 0)"

definition get_wait_address :: "int \<Rightarrow> futex_state \<Rightarrow> u64" where
  "get_wait_address tid s = (case map_of (fx_map s) tid of None \<Rightarrow> 0 | Some a \<Rightarrow> a)"

definition queue_at :: "futex_state \<Rightarrow> u64 \<Rightarrow> futex_waiter list" where
  "queue_at s a = (case map_of (fx_waiters s) a of None \<Rightarrow> [] | Some q \<Rightarrow> q)"

definition add_waiter :: "futex_waiter \<Rightarrow> futex_state \<Rightarrow> futex_state" where
  "add_waiter w s =
     s\<lparr>fx_waiters := om_put (w_uaddr w) (queue_at s (w_uaddr w) @ [w]) (fx_waiters s),
       fx_map := om_put (w_tid w) (w_uaddr w) (fx_map s)\<rparr>"

fun erase_waiter :: "int \<Rightarrow> futex_waiter list \<Rightarrow> futex_waiter list option" where
  "erase_waiter tid [] = None"
| "erase_waiter tid (w # q) =
     (if w_tid w = tid then Some q else map_option (\<lambda>q'. w # q') (erase_waiter tid q))"

definition remove_waiter :: "int \<Rightarrow> futex_state \<Rightarrow> bool \<times> futex_state" where
  "remove_waiter tid s =
     (case map_of (fx_map s) tid of
        None \<Rightarrow> (False, s)
      | Some uaddr \<Rightarrow>
          if uaddr = 0 then (False, s)
          else
            (let s1 = s\<lparr>fx_waiters := om_emplace uaddr [] (fx_waiters s)\<rparr>
             in case erase_waiter tid (queue_at s1 uaddr) of
                  None \<Rightarrow> (False, s1)
                | Some q \<Rightarrow>
                    (True, s1\<lparr>fx_map := om_del tid (fx_map s1),
                             fx_waiters := (if q = [] then om_del uaddr (fx_waiters s1)
                                            else om_put uaddr q (fx_waiters s1))\<rparr>)))"

definition wake_thread :: "int \<Rightarrow> futex_state \<Rightarrow> bool \<times> futex_state" where
  "wake_thread tid s = remove_waiter tid s"

definition get_waiters :: "u64 \<Rightarrow> futex_state \<Rightarrow> int list" where
  "get_waiters uaddr s =
     (case map_of (fx_waiters s) uaddr of None \<Rightarrow> [] | Some q \<Rightarrow> map w_tid q)"

definition wakeable :: "u32 \<Rightarrow> bool \<Rightarrow> futex_waiter \<Rightarrow> bool" where
  "wakeable bitset private_wait w \<longleftrightarrow> w_private w = private_wait \<and> w_bitset w AND bitset \<noteq> 0"

fun wake_scan ::
  "int \<Rightarrow> u32 \<Rightarrow> bool \<Rightarrow> int \<Rightarrow> futex_waiter list \<Rightarrow> (int, u64) omap
     \<Rightarrow> int \<times> futex_waiter list \<times> (int, u64) omap" where
  "wake_scan nr_wake bitset private_wait woken [] m = (woken, [], m)"
| "wake_scan nr_wake bitset private_wait woken (w # q) m =
     (if w_private w = private_wait \<and> woken < nr_wake \<and> w_bitset w AND bitset \<noteq> 0
      then wake_scan nr_wake bitset private_wait (woken + 1) q (om_del (w_tid w) m)
      else
        (let (n, remaining, m') = wake_scan nr_wake bitset private_wait woken q m
         in (n, w # remaining, m')))"

definition futex_wake :: "u64 \<Rightarrow> int \<Rightarrow> u32 \<Rightarrow> bool \<Rightarrow> futex_state \<Rightarrow> int \<times> futex_state" where
  "futex_wake uaddr nr_wake bitset private_wait s =
     (case map_of (fx_waiters s) uaddr of
        None \<Rightarrow> (0, s)
      | Some q \<Rightarrow>
          if q = [] then (0, s)
          else
            (let (woken, remaining, m) = wake_scan nr_wake bitset private_wait 0 q (fx_map s)
             in (woken, s\<lparr>fx_map := m,
                   fx_waiters := (if remaining = [] then om_del uaddr (fx_waiters s)
                                  else om_put uaddr remaining (fx_waiters s))\<rparr>)))"

fun move_waiters ::
  "bool \<Rightarrow> u64 \<Rightarrow> nat \<Rightarrow> futex_waiter list \<Rightarrow> futex_waiter list \<Rightarrow> (int, u64) omap
     \<Rightarrow> futex_waiter list \<times> futex_waiter list \<times> (int, u64) omap" where
  "move_waiters private_wait uaddr2 remaining [] target m = ([], target, m)"
| "move_waiters private_wait uaddr2 remaining (w # q) target m =
     (if remaining = 0 then (w # q, target, m)
      else if w_private w \<noteq> private_wait
      then
        (let (q', target', m') = move_waiters private_wait uaddr2 remaining q target m
         in (w # q', target', m'))
      else move_waiters private_wait uaddr2 (remaining - 1) q
             (target @ [w\<lparr>w_uaddr := uaddr2\<rparr>]) (om_put (w_tid w) uaddr2 m))"

definition futex_requeue ::
  "u64 \<Rightarrow> u64 \<Rightarrow> int \<Rightarrow> int \<Rightarrow> bool \<Rightarrow> futex_state \<Rightarrow> int \<times> futex_state" where
  "futex_requeue uaddr1 uaddr2 nr_wake nr_requeue private_wait s =
     (if uaddr1 mod 4 \<noteq> 0 \<or> uaddr2 mod 4 \<noteq> 0 \<or> nr_wake < 0 \<or> nr_requeue < 0 then (- EINVAL, s)
      else
        (let (woken, s1) = futex_wake uaddr1 nr_wake (- 1) private_wait s
         in case map_of (fx_waiters s1) uaddr1 of
              None \<Rightarrow> (woken, s1)
            | Some queue \<Rightarrow>
                (let eligible = int (length (filter (\<lambda>w. w_private w = private_wait) queue));
                     moved = min nr_requeue eligible
                 in if uaddr1 = uaddr2 then (woken + moved, s1)
                    else
                      (let (queue', target, m) =
                         move_waiters private_wait uaddr2 (nat moved) queue (queue_at s1 uaddr2) (fx_map s1);
                           ws1 = (if queue' = [] then om_del uaddr1 (fx_waiters s1)
                                  else om_put uaddr1 queue' (fx_waiters s1));
                           ws2 = (if target = [] then om_del uaddr2 ws1 else om_put uaddr2 target ws1)
                       in (woken + moved, s1\<lparr>fx_waiters := ws2, fx_map := m\<rparr>)))))"

fun wake_range ::
  "u64 \<Rightarrow> u64 \<Rightarrow> (u64 \<times> futex_waiter list) list \<Rightarrow> futex_state \<Rightarrow> int \<times> futex_state" where
  "wake_range start end [] s = (0, s)"
| "wake_range start end ((addr, queue) # rest) s =
     (if start \<le> addr \<and> addr < end
      then
        (let s1 = s\<lparr>fx_map := fold (\<lambda>w m. om_del (w_tid w) m) queue (fx_map s),
                    fx_waiters := om_del addr (fx_waiters s)\<rparr>;
             (n, s2) = wake_range start end rest s1
         in (int (length queue) + n, s2))
      else wake_range start end rest s)"

definition wake_waiters_in_range :: "u64 \<Rightarrow> u64 \<Rightarrow> futex_state \<Rightarrow> int \<times> futex_state" where
  "wake_waiters_in_range start end s = wake_range start end (fx_waiters s) s"

definition handle_futex ::
  "int \<Rightarrow> u64 \<Rightarrow> int \<Rightarrow> int \<Rightarrow> u64 \<Rightarrow> u64 \<Rightarrow> int \<Rightarrow> u64 option \<Rightarrow> futex_state \<Rightarrow> (futex_state, int) outcome" where
  "handle_futex tid uaddr futex_op val timeout_addr uaddr2 val3 stackval s =
     (let op = get_op futex_op
      in if op \<noteq> FUTEX_WAIT \<and> op \<noteq> FUTEX_WAIT_BITSET \<and> op \<noteq> FUTEX_WAKE \<and> op \<noteq> FUTEX_WAKE_BITSET \<and>
            op \<noteq> FUTEX_REQUEUE \<and> op \<noteq> FUTEX_CMP_REQUEUE
         then (Inl (Runtime_error ''unsupported futex operation''), s)
         else if has_flag futex_op FUTEX_CLOCK_REALTIME \<and> op \<noteq> FUTEX_WAIT_BITSET
         then (Inr (- ENOSYS), s)
         else if uaddr mod 4 \<noteq> 0 then (Inr (- EINVAL), s)
         else if (op = FUTEX_WAIT_BITSET \<or> op = FUTEX_WAKE_BITSET) \<and> val3 = 0 then (Inr (- EINVAL), s)
         else if op = FUTEX_WAIT \<or> op = FUTEX_WAIT_BITSET
         then
           if timeout_addr \<noteq> 0 then (Inl (Runtime_error ''timed futex wait is not modeled''), s)
           else
             (case stackval of
                None \<Rightarrow> (Inr (- EFAULT), s)
              | Some v \<Rightarrow>
                  if (ucast v :: u32) \<noteq> word_of_int val then (Inr (- EAGAIN), s)
                  else if is_thread_waiting tid s
                  then (Inl (Runtime_error ''thread already has a pending futex wait''), s)
                  else (Inr 0, add_waiter
                          \<lparr>w_tid = tid, w_uaddr = uaddr, w_val = val,
                           w_bitset = (if op = FUTEX_WAIT_BITSET then word_of_int val3 else - 1),
                           w_private = is_private futex_op\<rparr> s))
         else if op = FUTEX_WAKE \<or> op = FUTEX_WAKE_BITSET
         then apfst Inr (futex_wake uaddr (max 1 val)
                (if op = FUTEX_WAKE_BITSET then word_of_int val3 else - 1) (is_private futex_op) s)
         else if uaddr2 mod 4 \<noteq> 0 \<or> val < 0 \<or> sint (ucast timeout_addr :: u32) < 0
         then (Inr (- EINVAL), s)
         else if op = FUTEX_CMP_REQUEUE \<and> stackval = None then (Inr (- EFAULT), s)
         else if op = FUTEX_CMP_REQUEUE \<and> (ucast (the stackval) :: u32) \<noteq> word_of_int val3
         then (Inr (- EAGAIN), s)
         else apfst Inr (futex_requeue uaddr uaddr2 val (sint (ucast timeout_addr :: u32))
                (is_private futex_op) s))"

end
