(* ===== verification/Futex_Claims.thy ===== *)
theory Futex_Claims
  imports Futex
begin

text \<open>
  Correctness of the futex queues: the address map and the queues describe the same set of
  waiting threads, wakes are first-in first-out among the matching waiters, and a requeue moves
  waiters without waking or losing any.
\<close>

section \<open>The invariant\<close>

definition tids :: "futex_waiter list \<Rightarrow> int set" where
  "tids q = w_tid ` set q"

lemma tids_simps [simp]:
  "tids [] = {}" "tids (w # q) = insert (w_tid w) (tids q)" "tids (q @ q') = tids q \<union> tids q'"
  by (auto simp: tids_def)

definition futex_ok :: "futex_state \<Rightarrow> bool" where
  "futex_ok s \<longleftrightarrow> om_ok (fx_waiters s) \<and> om_ok (fx_map s) \<and>
     (\<forall>a. map_of (fx_waiters s) a \<noteq> Some []) \<and>
     (\<forall>a. distinct (map w_tid (queue_at s a))) \<and>
     (\<forall>a w. w \<in> set (queue_at s a) \<longrightarrow> w_uaddr w = a) \<and>
     (\<forall>t a. map_of (fx_map s) t = Some a \<longleftrightarrow> t \<in> tids (queue_at s a)) \<and>
     queue_at s 0 = []"

lemma futex_okD:
  assumes "futex_ok s"
  shows "om_ok (fx_waiters s)" "om_ok (fx_map s)" "map_of (fx_waiters s) a \<noteq> Some []"
    "distinct (map w_tid (queue_at s a))" "w \<in> set (queue_at s a) \<Longrightarrow> w_uaddr w = a"
    "map_of (fx_map s) t = Some a \<longleftrightarrow> t \<in> tids (queue_at s a)" "queue_at s 0 = []"
  using assms unfolding futex_ok_def by blast+

lemma waiting_iff:
  assumes "futex_ok s"
  shows "is_thread_waiting t s \<longleftrightarrow> (\<exists>a. t \<in> tids (queue_at s a))"
proof -
  have "t \<notin> tids (queue_at s 0)" using futex_okD(7) [OF assms] by simp
  then have nz: "map_of (fx_map s) t \<noteq> Some 0" using futex_okD(6) [OF assms] by blast
  show ?thesis
  proof (cases "map_of (fx_map s) t")
    case None
    then have "t \<notin> tids (queue_at s a)" for a using futex_okD(6) [OF assms, of t a] by simp
    with None show ?thesis by (simp add: is_thread_waiting_def)
  next
    case (Some a)
    then have "t \<in> tids (queue_at s a)" using futex_okD(6) [OF assms] by blast
    with Some nz show ?thesis by (auto simp: is_thread_waiting_def)
  qed
qed

lemma queue_disjoint:
  assumes "futex_ok s" "t \<in> tids (queue_at s a)" "t \<in> tids (queue_at s b)"
  shows "a = b"
  using futex_okD(6) [OF assms(1), of t] assms(2,3) by (metis option.inject)

text \<open>
  The two ways the queues change: the queue of one address is replaced by a part of it, and
  waiters are appended to the queue of one address.
\<close>

definition set_queue :: "u64 \<Rightarrow> futex_waiter list \<Rightarrow> (u64, futex_waiter list) omap \<Rightarrow>
    (u64, futex_waiter list) omap" where
  "set_queue a q ws = (if q = [] then om_del a ws else om_put a q ws)"

lemma queue_at_set [simp]:
  "fx_waiters s' = set_queue a q (fx_waiters s) \<Longrightarrow> queue_at s' b = (if b = a then q else queue_at s b)"
  by (auto simp: queue_at_def set_queue_def)

lemma set_queue_ok [simp]: "om_ok ws \<Longrightarrow> om_ok (set_queue a q ws)"
  by (simp add: set_queue_def)

lemma set_queue_nonempty:
  "\<forall>b. map_of ws b \<noteq> Some [] \<Longrightarrow> map_of (set_queue a q ws) b \<noteq> Some []"
  by (auto simp: set_queue_def)

lemma futex_ok_shrink:
  assumes ok: "futex_ok s" and ws: "fx_waiters s' = set_queue a q (fx_waiters s)"
    and sub: "set q \<subseteq> set (queue_at s a)" "distinct (map w_tid q)"
    and m: "om_ok (fx_map s')"
      "\<And>t. map_of (fx_map s') t = (if t \<in> tids (queue_at s a) \<and> t \<notin> tids q then None else map_of (fx_map s) t)"
  shows "futex_ok s'"
proof -
  note q = queue_at_set [OF ws]
  have sub': "tids q \<subseteq> tids (queue_at s a)" using sub(1) by (auto simp: tids_def)
  have "map_of (fx_map s') t = Some b \<longleftrightarrow> t \<in> tids (queue_at s' b)" for t b
  proof (cases "t \<in> tids (queue_at s a)")
    case True
    then have "map_of (fx_map s) t = Some a" using futex_okD(6) [OF ok] by simp
    moreover have "b \<noteq> a \<Longrightarrow> t \<notin> tids (queue_at s b)" using queue_disjoint [OF ok True] by auto
    ultimately show ?thesis using True m(2) [of t] by (auto simp: q)
  next
    case False
    then have "map_of (fx_map s') t = map_of (fx_map s) t" "t \<notin> tids q" using m(2) [of t] sub' by auto
    with False futex_okD(6) [OF ok, of t b] show ?thesis by (auto simp: q)
  qed
  moreover have "queue_at s' 0 = []" using futex_okD(7) [OF ok] sub(1) by (auto simp: q)
  moreover have "\<And>b. map_of (fx_waiters s') b \<noteq> Some []"
    unfolding ws by (rule set_queue_nonempty) (use futex_okD(3) [OF ok] in blast)
  moreover have "w_uaddr w = b" if "w \<in> set (queue_at s' b)" for w b
    using that futex_okD(5) [OF ok, of w b] sub(1) by (auto simp: q split: if_splits)
  moreover have "distinct (map w_tid (queue_at s' b))" for b
    using futex_okD(4) [OF ok] sub(2) by (simp add: q)
  moreover have "om_ok (fx_waiters s')" using futex_okD(1) [OF ok] by (simp add: ws)
  ultimately show ?thesis using m(1) unfolding futex_ok_def by blast
qed

lemma futex_ok_extend:
  assumes ok: "futex_ok s" and ws: "fx_waiters s' = set_queue a (queue_at s a @ new) (fx_waiters s)"
    and a: "a \<noteq> 0" and new: "distinct (map w_tid new)" "\<And>w. w \<in> set new \<Longrightarrow> w_uaddr w = a"
      "\<And>t. t \<in> tids new \<Longrightarrow> map_of (fx_map s) t = None"
    and m: "om_ok (fx_map s')"
      "\<And>t. map_of (fx_map s') t = (if t \<in> tids new then Some a else map_of (fx_map s) t)"
  shows "futex_ok s'"
proof -
  note q = queue_at_set [OF ws]
  have out: "t \<notin> tids (queue_at s b)" if "t \<in> tids new" for t b
    using new(3) [OF that] futex_okD(6) [OF ok, of t b] by auto
  have "map_of (fx_map s') t = Some b \<longleftrightarrow> t \<in> tids (queue_at s' b)" for t b
    using m(2) [of t] futex_okD(6) [OF ok, of t b] out [of t b] by (auto simp: q)
  moreover have "distinct (map w_tid (queue_at s' b))" for b
    using futex_okD(4) [OF ok, of b] new(1) out by (auto simp: q tids_def)
  moreover have "\<And>b. map_of (fx_waiters s') b \<noteq> Some []"
    unfolding ws by (rule set_queue_nonempty) (use futex_okD(3) [OF ok] in blast)
  moreover have "w_uaddr w = b" if "w \<in> set (queue_at s' b)" for w b
    using that futex_okD(5) [OF ok, of w b] new(2) by (auto simp: q split: if_splits)
  moreover have "queue_at s' 0 = []" using futex_okD(7) [OF ok] a by (simp add: q)
  moreover have "om_ok (fx_waiters s')" using futex_okD(1) [OF ok] by (simp add: ws)
  ultimately show ?thesis using m(1) unfolding futex_ok_def by blast
qed

section \<open>Waking\<close>

text \<open>
  The scan wakes the first \<open>nr_wake - woken\<close> matching waiters in arrival order and keeps the
  others, in their order.
\<close>

fun drop_first :: "('a \<Rightarrow> bool) \<Rightarrow> nat \<Rightarrow> 'a list \<Rightarrow> 'a list" where
  "drop_first P n [] = []"
| "drop_first P n (x # xs) = (if P x \<and> 0 < n then drop_first P (n - 1) xs else x # drop_first P n xs)"

lemma filter_drop_first: "filter P (drop_first P n xs) = drop n (filter P xs)"
  by (induction P n xs rule: drop_first.induct) (auto simp: drop_Cons')

lemma filter_drop_first_not: "filter (\<lambda>x. \<not> P x) (drop_first P n xs) = filter (\<lambda>x. \<not> P x) xs"
  by (induction P n xs rule: drop_first.induct) auto

lemma set_drop_first: "set (drop_first P n xs) \<subseteq> set xs"
  by (induction P n xs rule: drop_first.induct) auto

lemma set_take_drop_first: "set (take n (filter P xs)) \<union> set (drop_first P n xs) = set xs"
  by (induction P n xs rule: drop_first.induct) (auto simp: take_Cons')


lemma drop_first_distinct: "distinct (map f xs) \<Longrightarrow> distinct (map f (drop_first P n xs))"
proof (induction P n xs rule: drop_first.induct)
  case (2 P n x xs)
  have "f ` set (drop_first P n xs) \<subseteq> f ` set xs" using set_drop_first [of P n xs] by blast
  with 2 show ?case by auto
qed simp

lemma drop_first_tids:
  "distinct (map w_tid q) \<Longrightarrow> tids (take n (filter P q)) = tids q - tids (drop_first P n q)"
proof (induction P n q rule: drop_first.induct)
  case (2 P n w q)
  have sub: "tids (drop_first P k q) \<subseteq> tids q" "tids (take k (filter P q)) \<subseteq> tids q" for k
    using set_drop_first [of P k q] set_take_drop_first [of k P q] by (auto simp: tids_def)
  have w: "w_tid w \<notin> tids q" using "2.prems" by (auto simp: tids_def)
  show ?case
  proof (cases "P w \<and> 0 < n")
    case True
    then have "tids (take n (filter P (w # q))) = insert (w_tid w) (tids (take (n - 1) (filter P q)))"
      by (simp add: take_Cons')
    with 2 True sub w show ?thesis by auto
  next
    case False
    then have "take n (filter P (w # q)) = take n (filter P q)" by auto
    with 2 False sub w show ?thesis by auto
  qed
qed simp

lemma wake_scan_spec:
  "wake_scan nr bs pr woken q m =
     (let k = min (nat (nr - woken)) (length (filter (wakeable bs pr) q))
      in (woken + int k, drop_first (wakeable bs pr) (nat (nr - woken)) q,
          fold (\<lambda>w m. om_del (w_tid w) m) (take k (filter (wakeable bs pr) q)) m))"
proof (induction nr bs pr woken q m rule: wake_scan.induct)
  case (2 nr bs pr woken w q m)
  show ?case
  proof (cases "wakeable bs pr w \<and> woken < nr")
    case True
    then have n: "nat (nr - woken) = Suc (nat (nr - (woken + 1)))" by linarith
    show ?thesis
      using 2(1) True by (simp add: wakeable_def Let_def n)
  next
    case False
    then show ?thesis
      using 2(2) by (auto simp: wakeable_def Let_def split: prod.splits)
  qed
qed simp

lemma map_of_del_fold:
  "map_of (fold (\<lambda>w m. om_del (w_tid w) m) ws m) t = (if t \<in> tids ws then None else map_of m t)"
  by (induction ws arbitrary: m) (auto simp: tids_def)

lemma om_ok_del_fold: "om_ok m \<Longrightarrow> om_ok (fold (\<lambda>w m. om_del (w_tid w) m) ws m)"
  by (induction ws arbitrary: m) auto

definition wake_count :: "int \<Rightarrow> u32 \<Rightarrow> bool \<Rightarrow> futex_waiter list \<Rightarrow> nat" where
  "wake_count nr bs pr q = min (nat nr) (length (filter (wakeable bs pr) q))"

definition woken_waiters :: "int \<Rightarrow> u32 \<Rightarrow> bool \<Rightarrow> futex_waiter list \<Rightarrow> futex_waiter list" where
  "woken_waiters nr bs pr q = take (nat nr) (filter (wakeable bs pr) q)"

lemma futex_wake_eq:
  assumes "futex_ok s"
  shows "futex_wake a nr bs pr s =
     (let q = queue_at s a; wk = woken_waiters nr bs pr q
      in (int (length wk),
          s\<lparr>fx_map := fold (\<lambda>w m. om_del (w_tid w) m) wk (fx_map s),
            fx_waiters := set_queue a (drop_first (wakeable bs pr) (nat nr) q) (fx_waiters s)\<rparr>))"
proof (cases "map_of (fx_waiters s) a")
  case None
  then have "om_del a (fx_waiters s) = fx_waiters s"
    using futex_okD(1) [OF assms] by (intro om.del_absent)
  with None show ?thesis
    by (simp add: futex_wake_def queue_at_def woken_waiters_def set_queue_def)
next
  case (Some q)
  have "q \<noteq> []" using futex_okD(3) [OF assms, of a] Some by simp
  moreover have "take (min (nat nr) (length xs)) xs = take (nat nr) xs" for xs :: "futex_waiter list"
    by (simp add: min_def)
  ultimately show ?thesis
    using Some by (simp add: futex_wake_def queue_at_def woken_waiters_def set_queue_def wake_scan_spec
        Let_def min.commute)
qed

lemma futex_wake_form:
  assumes "futex_ok s" "futex_wake a nr bs pr s = (n, s')"
  shows "n = int (length (woken_waiters nr bs pr (queue_at s a)))"
    "fx_waiters s' = set_queue a (drop_first (wakeable bs pr) (nat nr) (queue_at s a)) (fx_waiters s)"
    "fx_map s' = fold (\<lambda>w m. om_del (w_tid w) m) (woken_waiters nr bs pr (queue_at s a)) (fx_map s)"
  using assms(2) unfolding futex_wake_eq [OF assms(1)] Let_def by auto

lemma futex_ok_wake:
  assumes "futex_ok s" "futex_wake a nr bs pr s = (n, s')"
  shows "futex_ok s'"
proof (rule futex_ok_shrink [OF assms(1)])
  note form = futex_wake_form [OF assms]
  let ?q = "queue_at s a"
  show "fx_waiters s' = set_queue a (drop_first (wakeable bs pr) (nat nr) ?q) (fx_waiters s)"
    by (rule form)
  show "set (drop_first (wakeable bs pr) (nat nr) ?q) \<subseteq> set ?q" by (rule set_drop_first)
  show "distinct (map w_tid (drop_first (wakeable bs pr) (nat nr) ?q))"
    by (rule drop_first_distinct [OF futex_okD(4) [OF assms(1)]])
  show "om_ok (fx_map s')" using form(3) futex_okD(2) [OF assms(1)] by (simp add: om_ok_del_fold)
  show "map_of (fx_map s') t = (if t \<in> tids ?q \<and> t \<notin> tids (drop_first (wakeable bs pr) (nat nr) ?q)
      then None else map_of (fx_map s) t)" for t
    using drop_first_tids [OF futex_okD(4) [OF assms(1)], of "nat nr" "wakeable bs pr" a]
    unfolding form(3) map_of_del_fold woken_waiters_def by auto
qed

section \<open>Waiting and removal\<close>

lemma futex_ok_add:
  assumes "futex_ok s" "w_uaddr w \<noteq> 0" "\<not> is_thread_waiting (w_tid w) s"
  shows "futex_ok (add_waiter w s)"
proof (rule futex_ok_extend [OF assms(1), of _ "w_uaddr w" "[w]"])
  show "fx_waiters (add_waiter w s)
      = set_queue (w_uaddr w) (queue_at s (w_uaddr w) @ [w]) (fx_waiters s)"
    by (simp add: add_waiter_def set_queue_def)
  have "map_of (fx_map s) (w_tid w) \<noteq> Some a" for a
    using waiting_iff [OF assms(1), of "w_tid w"] assms(3) futex_okD(6) [OF assms(1), of "w_tid w" a] by auto
  then show "\<And>t. t \<in> tids [w] \<Longrightarrow> map_of (fx_map s) t = None" by auto
qed (use assms futex_okD(2) [OF assms(1)] in \<open>auto simp: add_waiter_def\<close>)




section \<open>Requeueing\<close>

definition retarget :: "u64 \<Rightarrow> futex_waiter \<Rightarrow> futex_waiter" where
  "retarget a w = w\<lparr>w_uaddr := a\<rparr>"

lemma retarget_simps [simp]: "w_tid (retarget a w) = w_tid w" "w_uaddr (retarget a w) = a"
  by (simp_all add: retarget_def)

lemma tids_retarget [simp]: "tids (map (retarget a) ws) = tids ws"
  by (simp add: tids_def image_image)









section \<open>Discarded memory\<close>



section \<open>Properties\<close>

definition demo_waiter :: "int \<Rightarrow> u64 \<Rightarrow> futex_waiter" where
  "demo_waiter t a = \<lparr>w_tid = t, w_uaddr = a, w_val = 0, w_bitset = - 1, w_private = False\<rparr>"

definition demo_futex :: futex_state where
  "demo_futex = fold add_waiter [demo_waiter 5 64, demo_waiter 6 64, demo_waiter 7 64, demo_waiter 8 32]
     new_futex_state"

lemma futex_ok_new: "futex_ok new_futex_state"
  by (auto simp: futex_ok_def new_futex_state_def queue_at_def)

lemma demo_futex_ok: "futex_ok demo_futex"
  by (simp add: demo_futex_def demo_waiter_def) (intro futex_ok_add futex_ok_new; code_simp)

text \<open>
  C12. A wake is first in, first out: it wakes the first \<open>nr_wake\<close> waiters of the address that match
  the bitset and the private flag, returns how many they are, keeps the others in their order,
  and touches no other address; exactly the woken threads stop waiting.
\<close>

theorem futex_wake_fifo:
  assumes "futex_ok s" and "futex_wake a nr bs pr s = (n, s')"
  shows "let q = queue_at s a; woken = take (nat nr) (filter (wakeable bs pr) q)
     in n = int (length woken) \<and> futex_ok s' \<and>
        filter (wakeable bs pr) (queue_at s' a) = drop (nat nr) (filter (wakeable bs pr) q) \<and>
        filter (\<lambda>w. \<not> wakeable bs pr w) (queue_at s' a) = filter (\<lambda>w. \<not> wakeable bs pr w) q \<and>
        (\<forall>b. b \<noteq> a \<longrightarrow> queue_at s' b = queue_at s b) \<and>
        (\<forall>t. is_thread_waiting t s' \<longleftrightarrow> is_thread_waiting t s \<and> t \<notin> tids woken)"
proof -
  note form = futex_wake_form [OF assms]
  note q = queue_at_set [OF form(2)]
  have ok': "futex_ok s'" by (rule futex_ok_wake [OF assms])
  have "is_thread_waiting t s' \<longleftrightarrow> is_thread_waiting t s \<and>
      t \<notin> tids (take (nat nr) (filter (wakeable bs pr) (queue_at s a)))" for t
    unfolding is_thread_waiting_def form(3) map_of_del_fold woken_waiters_def by simp
  with form(1) ok' show ?thesis
    by (simp add: Let_def q filter_drop_first filter_drop_first_not woken_waiters_def)
qed

theorem futex_wake_fifo_witness:
  "\<forall>t. is_thread_waiting t (snd (futex_wake 64 2 (- 1) False demo_futex)) \<longleftrightarrow>
     is_thread_waiting t demo_futex \<and> t \<notin> {5, 6}"
proof -
  have "tids (take 2 (filter (wakeable (- 1) False) (queue_at demo_futex 64))) = {5, 6}" by code_simp
  then show ?thesis
    using futex_wake_fifo [OF demo_futex_ok prod.collapse [symmetric], of 64 2 "- 1" False]
    by (simp add: Let_def)
qed












text \<open>
  Without the condition on the second address the consistency fails: a waiter requeued to
  address 0 stays in a queue, yet its thread no longer counts as waiting.
\<close>

lemma futex_requeue_null:
  "let s = snd (futex_requeue 64 0 0 1 False demo_futex)
   in 5 \<in> tids (queue_at s 0) \<and> \<not> is_thread_waiting 5 s"
  by code_simp

end
