(* ===== verification/Wire.thy ===== *)
theory Wire
  imports Frontier
begin

text \<open>
  The frames that the coordinator and its workers exchange:
  \<open>src/src/core/search/protocol.h\<close> and \<open>protocol.cpp\<close>, with the message types they carry from
  \<open>src/src/core/state/snapshot_bundle.h\<close> and \<open>state_transition.h\<close>. A frame is a header of sixteen
  bytes and a payload. What is modelled is a channel without an object transport (frames of
  version 1), with its write buffer, its read buffer, its partial reads and writes and its
  deadline; the call counters are left out.

  The kernel's answers to \<open>send\<close>, \<open>recv\<close> and \<open>poll\<close> are lists that the operations consume. The
  deadline is absolute and the clock monotone, so the checks of one call succeed a number of
  times and fail from then on: that number is \<open>io_ticks\<close>, and it bounds every loop. An
  exhausted list of answers stands for a peer that stays silent until the deadline.
  Sizes are natural numbers: the size of a frame never exceeds \<open>max_frame_bytes\<close>, so that no
  subtraction of the source wraps.
\<close>

unbundle bit_operations_syntax

section \<open>Data\<close>

record limits =
  l_max_frame_bytes :: nat
  l_max_blob_bytes :: nat
  l_max_metadata_bytes :: nat
  l_max_blobs :: nat
  l_max_text_bytes :: nat

datatype transition_action = TA_Normal | TA_Timeout

datatype transition_result = CKPT_NO | CKPT_YES | CKPT_EXIT | CKPT_STOP | CKPT_DISCARD

datatype done_kind = DK_Expanded | DK_Terminal | DK_DepthCut | DK_ModelBudget | DK_Violation

record actor_action =
  aa_process :: int
  aa_thread :: int
  aa_action :: transition_action

record blob =
  b_key :: u64
  b_bytes :: "byte list"

record snapshot_bundle =
  bu_version :: u32
  bu_system_key :: u64
  bu_metadata :: "byte list"
  bu_blobs :: "blob list"

record edge =
  ed_lease_id :: u64
  ed_source :: state_key
  ed_target :: state_key
  ed_actor :: actor_action
  ed_choice :: int
  ed_choice_count :: u32
  ed_property_violation :: bool
  ed_result_code :: transition_result
  ed_bundle :: snapshot_bundle

record done_msg =
  dn_lease_id :: u64
  dn_source :: state_key
  dn_kind :: done_kind
  dn_emitted :: u64

datatype message =
    M_Hello "byte list" "byte list"
  | M_Task ticket snapshot_bundle
  | M_Edge edge
  | M_Done done_msg
  | M_Error u64 state_key "byte list"
  | M_Shutdown

fun action_index :: "transition_action \<Rightarrow> u8" where
  "action_index TA_Normal = 0"
| "action_index TA_Timeout = 1"

fun result_index :: "transition_result \<Rightarrow> u8" where
  "result_index CKPT_NO = 0"
| "result_index CKPT_YES = 1"
| "result_index CKPT_EXIT = 2"
| "result_index CKPT_STOP = 3"
| "result_index CKPT_DISCARD = 4"

fun done_index :: "done_kind \<Rightarrow> u8" where
  "done_index DK_Expanded = 0"
| "done_index DK_Terminal = 1"
| "done_index DK_DepthCut = 2"
| "done_index DK_ModelBudget = 3"
| "done_index DK_Violation = 4"

definition action_of :: "u8 \<Rightarrow> transition_action" where
  "action_of b = (if b = 0 then TA_Normal else TA_Timeout)"

definition result_of :: "u8 \<Rightarrow> transition_result" where
  "result_of b = (if b = 0 then CKPT_NO else if b = 1 then CKPT_YES else if b = 2 then CKPT_EXIT
     else if b = 3 then CKPT_STOP else CKPT_DISCARD)"

definition done_of :: "u8 \<Rightarrow> done_kind" where
  "done_of b = (if b = 0 then DK_Expanded else if b = 1 then DK_Terminal else if b = 2 then DK_DepthCut
     else if b = 3 then DK_ModelBudget else DK_Violation)"

section \<open>Little-endian numbers\<close>

definition little :: "'a::len word \<Rightarrow> byte list" where
  "little value = map (\<lambda>i. ucast (drop_bit (i * 8) value)) [0..<LENGTH('a) div 8]"

definition number :: "byte list \<Rightarrow> 'a::len word" where
  "number bytes = fold (\<lambda>i result. result OR push_bit (i * 8) (ucast (bytes ! i))) [0..<LENGTH('a) div 8] 0"

section \<open>The stream\<close>

datatype poll_answer = P_ready | P_invalid | P_error string

datatype send_answer = S_written nat | S_intr | S_again poll_answer | S_error string

datatype recv_answer = R_data "byte list" | R_intr | R_again poll_answer | R_error string

record io =
  io_ticks :: nat
  io_sends :: "send_answer list"
  io_recvs :: "recv_answer list"
  io_sent :: "byte list"

abbreviation fail :: "string \<Rightarrow> exn + 'a" where
  "fail message \<equiv> Inl (Runtime_error message)"

abbreviation deadline_exceeded :: "exn + 'a" where
  "deadline_exceeded \<equiv> fail ''Worker protocol frame deadline exceeded''"

text \<open>The outcome of \<open>poll\<close> in \<open>await_ready\<close>.\<close>

fun await_ready :: "poll_answer \<Rightarrow> exn + unit" where
  "await_ready P_ready = Inr ()"
| "await_ready P_invalid = fail ''Worker protocol descriptor is invalid''"
| "await_ready (P_error reason) = fail (''Worker protocol poll: '' @ reason)"

definition tick :: "io \<Rightarrow> io" where
  "tick io = io\<lparr>io_ticks := io_ticks io - 1\<rparr>"

function write_exact :: "byte list \<Rightarrow> io \<Rightarrow> (exn + unit) \<times> io" where
  "write_exact data io =
     (if data = [] then (Inr (), io)
      else if io_ticks io = 0 then (deadline_exceeded, io)
      else (case io_sends io of
          [] \<Rightarrow> (deadline_exceeded, io)
        | S_intr # as \<Rightarrow> write_exact data (tick io\<lparr>io_sends := as\<rparr>)
        | S_again p # as \<Rightarrow>
            (case await_ready p of
               Inl e \<Rightarrow> (Inl e, io)
             | Inr _ \<Rightarrow> write_exact data (tick io\<lparr>io_sends := as\<rparr>))
        | S_error reason # as \<Rightarrow> (fail (''Worker protocol send: '' @ reason), io)
        | S_written n # as \<Rightarrow>
            (let written = min n (length data)
             in if written = 0 then (fail ''Worker protocol write made no progress'', io)
                else write_exact (drop written data)
                  (tick io\<lparr>io_sends := as, io_sent := io_sent io @ take written data\<rparr>))))"
  by pat_completeness auto
termination
  by (relation "measure (\<lambda>(data, io). io_ticks io)") (auto simp: tick_def)

declare write_exact.simps [simp del]

text \<open>\<open>Output\<close>: a buffer of 64 KiB in front of \<open>write_exact\<close>.\<close>

abbreviation (input) BUFFER_SIZE :: int where "BUFFER_SIZE \<equiv> 65536"

type_synonym outbuf = "byte list"

definition out_flush :: "outbuf \<Rightarrow> io \<Rightarrow> (exn + unit) \<times> outbuf \<times> io" where
  "out_flush buffer io =
     (case write_exact buffer io of
        (Inl e, io) \<Rightarrow> (Inl e, buffer, io)
      | (Inr _, io) \<Rightarrow> (Inr (), [], io))"

text \<open>The buffer is never full between two rounds, so the second disjunct never ends the loop.\<close>

function out_fill :: "byte list \<Rightarrow> outbuf \<Rightarrow> io \<Rightarrow> (exn + unit) \<times> outbuf \<times> io" where
  "out_fill data buffer io =
     (if data = [] \<or> BUFFER_SIZE \<le> int (length buffer) then (Inr (), buffer, io)
      else
        (let count = (if int (length data) \<le> BUFFER_SIZE - int (length buffer) then length data
                      else nat (BUFFER_SIZE - int (length buffer)));
             buffer' = buffer @ take count data
         in if int (length buffer') = BUFFER_SIZE
            then (case out_flush buffer' io of
                    (Inl e, buffer, io) \<Rightarrow> (Inl e, buffer, io)
                  | (Inr _, buffer, io) \<Rightarrow> out_fill (drop count data) buffer io)
            else out_fill (drop count data) buffer' io))"
  by pat_completeness auto
termination
  by (relation "measure (\<lambda>(data, buffer, io). length data)") (auto split: if_splits)

declare out_fill.simps [simp del]

definition out_append :: "byte list \<Rightarrow> outbuf \<Rightarrow> io \<Rightarrow> (exn + unit) \<times> outbuf \<times> io" where
  "out_append data buffer io =
     (if BUFFER_SIZE \<le> int (length data)
      then (case out_flush buffer io of
              (Inl e, buffer, io) \<Rightarrow> (Inl e, buffer, io)
            | (Inr _, buffer, io) \<Rightarrow>
                (case write_exact data io of (r, io) \<Rightarrow> (r, buffer, io)))
      else out_fill data buffer io)"

fun out_all :: "byte list list \<Rightarrow> outbuf \<Rightarrow> io \<Rightarrow> (exn + unit) \<times> outbuf \<times> io" where
  "out_all [] buffer io = out_flush buffer io"
| "out_all (data # rest) buffer io =
     (case out_append data buffer io of
        (Inl e, buffer, io) \<Rightarrow> (Inl e, buffer, io)
      | (Inr _, buffer, io) \<Rightarrow> out_all rest buffer io)"

text \<open>\<open>Input::read\<close>: \<open>needed\<close> bytes are still wanted after \<open>got\<close>; no bytes at a clean end.\<close>

definition recv_upto :: "int \<Rightarrow> byte list \<Rightarrow> byte list \<times> byte list" where
  "recv_upto capacity bs =
     (if int (length bs) \<le> capacity then (bs, []) else (take (nat capacity) bs, drop (nat capacity) bs))"

function input_read ::
  "nat \<Rightarrow> bool \<Rightarrow> byte list \<Rightarrow> byte list \<Rightarrow> io \<Rightarrow> exn + (byte list option \<times> byte list \<times> io)" where
  "input_read needed allow_eof got buffer io =
     (if needed = 0 then Inr (Some got, buffer, io)
      else if io_ticks io = 0 then deadline_exceeded
      else if buffer \<noteq> [] then
        (let count = min needed (length buffer)
         in input_read (needed - count) allow_eof (got @ take count buffer) (drop count buffer) (tick io))
      else (case io_recvs io of
          [] \<Rightarrow> deadline_exceeded
        | R_intr # as \<Rightarrow> input_read needed allow_eof got [] (tick io\<lparr>io_recvs := as\<rparr>)
        | R_again p # as \<Rightarrow>
            andthen (await_ready p) (\<lambda>_. input_read needed allow_eof got [] (tick io\<lparr>io_recvs := as\<rparr>))
        | R_error reason # as \<Rightarrow> fail (''Worker protocol receive: '' @ reason)
        | R_data bs # as \<Rightarrow>
            (if bs = [] then
               (if got = [] \<and> allow_eof then Inr (None, [], tick io\<lparr>io_recvs := as\<rparr>)
                else fail ''Truncated worker protocol frame'')
             else
               (let direct = BUFFER_SIZE \<le> int needed;
                    (received, left) = recv_upto (if direct then int needed else BUFFER_SIZE) bs;
                    io' = tick io\<lparr>io_recvs := (if left = [] then as else R_data left # as)\<rparr>
                in if direct then input_read (needed - length received) allow_eof (got @ received) [] io'
                   else input_read needed allow_eof got received io'))))"
  by pat_completeness auto
termination
  by (relation "measure (\<lambda>(needed, allow_eof, got, buffer, io). io_ticks io)") (auto simp: tick_def)

declare input_read.simps [simp del]

section \<open>Writing\<close>

text \<open>
  A writer is the number of bytes written so far and the pieces appended. The source runs the
  encoder twice, once with no output to measure and once to write.
\<close>

type_synonym writer = "nat \<times> byte list list"

definition w_bytes :: "limits \<Rightarrow> byte list \<Rightarrow> writer \<Rightarrow> exn + writer" where
  "w_bytes lim data w =
     (if l_max_frame_bytes lim - fst w < length data
      then fail ''Worker protocol frame exceeds transfer limit''
      else Inr (fst w + length data, if data = [] then snd w else snd w @ [data]))"

definition w_scalar :: "limits \<Rightarrow> 'a::len word \<Rightarrow> writer \<Rightarrow> exn + writer" where
  "w_scalar lim value w = w_bytes lim (little value) w"

definition w_text :: "limits \<Rightarrow> byte list \<Rightarrow> writer \<Rightarrow> exn + writer" where
  "w_text lim text w =
     (if l_max_text_bytes lim < length text then fail ''Worker protocol text exceeds transfer limit''
      else andthen (w_scalar lim (of_nat (length text) :: u64) w) (w_bytes lim text))"

fun w_blobs :: "limits \<Rightarrow> nat \<Rightarrow> blob list \<Rightarrow> writer \<Rightarrow> exn + writer" where
  "w_blobs lim raw_total [] w = Inr w"
| "w_blobs lim raw_total (b # bs) w =
     (if l_max_blob_bytes lim < length (b_bytes b) \<or>
         l_max_frame_bytes lim - raw_total < length (b_bytes b)
      then fail ''Worker bundle blob exceeds transfer limit''
      else
        andthen (w_scalar lim (b_key b) w) (\<lambda>w.
        andthen (w_scalar lim (of_nat (length (b_bytes b)) :: u64) w) (\<lambda>w.
        andthen (w_bytes lim (b_bytes b) w)
          (w_blobs lim (raw_total + length (b_bytes b)) bs))))"

definition w_bundle :: "limits \<Rightarrow> snapshot_bundle \<Rightarrow> writer \<Rightarrow> exn + writer" where
  "w_bundle lim bu w =
     (if l_max_metadata_bytes lim < length (bu_metadata bu) \<or> l_max_blobs lim < length (bu_blobs bu)
      then fail ''Worker bundle metadata/object count exceeds transfer limit''
      else
        andthen (w_scalar lim (bu_version bu) w) (\<lambda>w.
        andthen (w_scalar lim (bu_system_key bu) w) (\<lambda>w.
        andthen (w_scalar lim (of_nat (length (bu_metadata bu)) :: u64) w) (\<lambda>w.
        andthen (w_bytes lim (bu_metadata bu) w) (\<lambda>w.
        andthen (w_scalar lim (of_nat (length (bu_blobs bu)) :: u64) w) (\<lambda>w.
          w_blobs lim (fst w) (bu_blobs bu) w))))))"

definition bool_byte :: "bool \<Rightarrow> u8" where
  "bool_byte b = (if b then 1 else 0)"

fun encode :: "limits \<Rightarrow> message \<Rightarrow> writer \<Rightarrow> exn + writer" where
  "encode lim (M_Hello model_id compatible) w = andthen (w_text lim model_id w) (w_text lim compatible)"
| "encode lim (M_Task t bu) w =
     andthen (w_scalar lim (t_state t) w) (\<lambda>w.
     andthen (w_scalar lim (t_worker t) w) (\<lambda>w.
     andthen (w_scalar lim (t_lease_id t) w) (\<lambda>w.
     andthen (w_scalar lim (t_depth t) w) (\<lambda>w.
     andthen (w_scalar lim (bool_byte (t_may_expand t)) w) (w_bundle lim bu)))))"
| "encode lim (M_Edge e) w =
     andthen (w_scalar lim (ed_lease_id e) w) (\<lambda>w.
     andthen (w_scalar lim (ed_source e) w) (\<lambda>w.
     andthen (w_scalar lim (ed_target e) w) (\<lambda>w.
     andthen (w_scalar lim (word_of_int (aa_process (ed_actor e)) :: u32) w) (\<lambda>w.
     andthen (w_scalar lim (word_of_int (aa_thread (ed_actor e)) :: u32) w) (\<lambda>w.
     andthen (w_scalar lim (action_index (aa_action (ed_actor e))) w) (\<lambda>w.
     andthen (w_scalar lim (word_of_int (ed_choice e) :: u32) w) (\<lambda>w.
     andthen (w_scalar lim (ed_choice_count e) w) (\<lambda>w.
     andthen (w_scalar lim (bool_byte (ed_property_violation e)) w) (\<lambda>w.
     andthen (w_scalar lim (result_index (ed_result_code e)) w) (w_bundle lim (ed_bundle e)))))))))))"
| "encode lim (M_Done d) w =
     andthen (w_scalar lim (dn_lease_id d) w) (\<lambda>w.
     andthen (w_scalar lim (dn_source d) w) (\<lambda>w.
     andthen (w_scalar lim (done_index (dn_kind d)) w) (w_scalar lim (dn_emitted d))))"
| "encode lim (M_Error lease_id source reason) w =
     andthen (w_scalar lim lease_id w) (\<lambda>w.
     andthen (w_scalar lim source w) (w_text lim reason))"
| "encode lim M_Shutdown w = Inr w"

definition wire_magic :: u32 where "wire_magic = 0x50575344"
definition wire_version :: u16 where "wire_version = 1"

fun message_index :: "message \<Rightarrow> nat" where
  "message_index (M_Hello _ _) = 0"
| "message_index (M_Task _ _) = 1"
| "message_index (M_Edge _) = 2"
| "message_index (M_Done _) = 3"
| "message_index (M_Error _ _ _) = 4"
| "message_index M_Shutdown = 5"

record channel =
  ch_fd :: int
  ch_limits :: limits
  ch_failed :: bool
  ch_input :: "byte list"

definition frame_header :: "message \<Rightarrow> nat \<Rightarrow> byte list" where
  "frame_header m sz =
     little wire_magic @ little wire_version @ little (of_nat (message_index m + 1) :: u16) @
     little (of_nat sz :: u64)"

definition send_frame :: "limits \<Rightarrow> message \<Rightarrow> io \<Rightarrow> (exn + unit) \<times> io" where
  "send_frame lim m io =
     (case encode lim m (0, []) of
        Inl e \<Rightarrow> (Inl e, io)
      | Inr (sz, pieces) \<Rightarrow>
          (case out_all (frame_header m sz # pieces) [] io of
             (Inl e, buffer, io) \<Rightarrow> (Inl e, io)
           | (Inr _, buffer, io) \<Rightarrow>
               if io_ticks io = 0 then (deadline_exceeded, io) else (Inr (), tick io)))"

definition channel_send :: "message \<Rightarrow> channel \<Rightarrow> io \<Rightarrow> (exn + unit) \<times> channel \<times> io" where
  "channel_send m ch io =
     (if ch_failed ch \<or> ch_fd ch < 0 then (fail ''Worker protocol stream is unusable'', ch, io)
      else (case send_frame (ch_limits ch) m io of
              (Inl e, io) \<Rightarrow> (Inl e, ch\<lparr>ch_failed := True\<rparr>, io)
            | (Inr _, io) \<Rightarrow> (Inr (), ch, io)))"

section \<open>Reading\<close>

text \<open>A reader is the number of payload bytes still allowed, the read buffer and the stream.\<close>

type_synonym reader = "nat \<times> byte list \<times> io"

fun r_bytes :: "nat \<Rightarrow> reader \<Rightarrow> exn + (byte list \<times> reader)" where
  "r_bytes n (remaining, buffer, io) =
     (if remaining < n then fail ''Worker protocol payload length mismatch''
      else andthen (input_read n False [] buffer io) (\<lambda>(bs, buffer, io).
        (case bs of
           None \<Rightarrow> Inr ([], (remaining - n, buffer, io))
         | Some bs \<Rightarrow> Inr (bs, (remaining - n, buffer, io)))))"

definition r_scalar :: "reader \<Rightarrow> exn + ('a::len word \<times> reader)" where
  "r_scalar r = andthen (r_bytes (LENGTH('a) div 8) r) (\<lambda>(bs, r). Inr (number bs, r))"

definition r_boolean :: "reader \<Rightarrow> exn + (bool \<times> reader)" where
  "r_boolean r =
     andthen (r_scalar r) (\<lambda>(value :: u8, r).
       if 1 < value then fail ''Invalid worker protocol boolean'' else Inr (value \<noteq> 0, r))"

definition r_length :: "nat \<Rightarrow> reader \<Rightarrow> exn + (nat \<times> reader)" where
  "r_length limit r =
     andthen (r_scalar r) (\<lambda>(value :: u64, r).
       if int limit < uint value \<or> int (fst r) < uint value
       then fail ''Worker protocol length exceeds transfer limit or payload''
       else Inr (nat (uint value), r))"

text \<open>A length, a buffer of that length, and its bytes: texts, metadata and blobs.\<close>

definition r_sized :: "nat \<Rightarrow> reader \<Rightarrow> exn + (byte list \<times> reader)" where
  "r_sized limit r = andthen (r_length limit r) (\<lambda>(n, r). r_bytes n r)"

definition r_text :: "limits \<Rightarrow> reader \<Rightarrow> exn + (byte list \<times> reader)" where
  "r_text lim r = r_sized (l_max_text_bytes lim) r"

fun r_blobs :: "limits \<Rightarrow> nat \<Rightarrow> reader \<Rightarrow> exn + (blob list \<times> reader)" where
  "r_blobs lim 0 r = Inr ([], r)"
| "r_blobs lim (Suc n) r =
     andthen (r_scalar r) (\<lambda>(key, r).
     andthen (r_sized (l_max_blob_bytes lim) r) (\<lambda>(bs, r).
     andthen (r_blobs lim n r) (\<lambda>(rest, r).
       Inr (\<lparr>b_key = key, b_bytes = bs\<rparr> # rest, r))))"

text \<open>\<open>sizeof(snapshot::Blob)\<close> is 32 and \<open>SIZE_MAX\<close> is \<open>2 ^ 64 - 1\<close>.\<close>

definition r_bundle :: "limits \<Rightarrow> reader \<Rightarrow> exn + (snapshot_bundle \<times> reader)" where
  "r_bundle lim r =
     andthen (r_scalar r) (\<lambda>(version, r).
     andthen (r_scalar r) (\<lambda>(system_key, r).
     andthen (r_sized (l_max_metadata_bytes lim) r) (\<lambda>(metadata, r).
     andthen (r_scalar r) (\<lambda>(count :: u64, r).
       if int (l_max_blobs lim) < uint count \<or> int (fst r div 16) < uint count \<or>
          18446744073709551615 div 32 < uint count
       then fail ''Worker bundle object count exceeds transfer limit or payload''
       else andthen (r_blobs lim (nat (uint count)) r) (\<lambda>(blobs, r).
         Inr (\<lparr>bu_version = version, bu_system_key = system_key, bu_metadata = metadata,
               bu_blobs = blobs\<rparr>, r))))))"

definition r_ticket :: "reader \<Rightarrow> exn + (ticket \<times> reader)" where
  "r_ticket r =
     andthen (r_scalar r) (\<lambda>(state, r).
     andthen (r_scalar r) (\<lambda>(worker, r).
     andthen (r_scalar r) (\<lambda>(lease_id, r).
     andthen (r_scalar r) (\<lambda>(depth, r).
     andthen (r_boolean r) (\<lambda>(may_expand, r).
       Inr (\<lparr>t_state = state, t_worker = worker, t_lease_id = lease_id, t_depth = depth,
             t_may_expand = may_expand\<rparr>, r))))))"

abbreviation (input) INT32_MAX :: int where "INT32_MAX \<equiv> 2147483647"

definition choice_of :: "u32 \<Rightarrow> int" where
  "choice_of choice = (if choice = - 1 then - 1 else if choice = - 2 then - 2 else uint choice)"

definition r_edge :: "limits \<Rightarrow> reader \<Rightarrow> exn + (edge \<times> reader)" where
  "r_edge lim r =
     andthen (r_scalar r) (\<lambda>(lease_id, r).
     andthen (r_scalar r) (\<lambda>(source, r).
     andthen (r_scalar r) (\<lambda>(target, r).
     andthen (r_scalar r) (\<lambda>(process :: u32, r).
     andthen (r_scalar r) (\<lambda>(thread :: u32, r).
       if INT32_MAX < uint process \<or> INT32_MAX < uint thread then fail ''Invalid worker protocol actor''
       else
     andthen (r_scalar r) (\<lambda>(action :: u8, r).
       if 1 < action then fail ''Invalid worker protocol action''
       else
     andthen (r_scalar r) (\<lambda>(choice :: u32, r).
       if INT32_MAX < uint choice \<and> choice \<noteq> - 1 \<and> choice \<noteq> - 2
       then fail ''Invalid worker protocol choice''
       else
     andthen (r_scalar r) (\<lambda>(choice_count :: u32, r).
       if INT32_MAX < uint choice_count then fail ''Invalid worker protocol choice count''
       else
     andthen (r_boolean r) (\<lambda>(property_violation, r).
     andthen (r_scalar r) (\<lambda>(result_code :: u8, r).
       if 4 < result_code then fail ''Invalid worker protocol transition result code''
       else
     andthen (r_bundle lim r) (\<lambda>(bundle, r).
       Inr (\<lparr>ed_lease_id = lease_id, ed_source = source, ed_target = target,
             ed_actor = \<lparr>aa_process = uint process, aa_thread = uint thread,
                         aa_action = action_of action\<rparr>,
             ed_choice = choice_of choice, ed_choice_count = choice_count,
             ed_property_violation = property_violation, ed_result_code = result_of result_code,
             ed_bundle = bundle\<rparr>, r))))))))))))"

definition r_done :: "reader \<Rightarrow> exn + (done_msg \<times> reader)" where
  "r_done r =
     andthen (r_scalar r) (\<lambda>(lease_id, r).
     andthen (r_scalar r) (\<lambda>(source, r).
     andthen (r_scalar r) (\<lambda>(kind :: u8, r).
       if 4 < kind then fail ''Invalid worker protocol completion kind''
       else
     andthen (r_scalar r) (\<lambda>(emitted, r).
       Inr (\<lparr>dn_lease_id = lease_id, dn_source = source, dn_kind = done_of kind,
             dn_emitted = emitted\<rparr>, r)))))"

definition decode :: "limits \<Rightarrow> u16 \<Rightarrow> reader \<Rightarrow> exn + (message \<times> reader)" where
  "decode lim type r =
     (if type = 1 then
        andthen (r_text lim r) (\<lambda>(model_id, r).
        andthen (r_text lim r) (\<lambda>(compatible, r). Inr (M_Hello model_id compatible, r)))
      else if type = 2 then
        andthen (r_ticket r) (\<lambda>(t, r).
        andthen (r_bundle lim r) (\<lambda>(bu, r). Inr (M_Task t bu, r)))
      else if type = 3 then andthen (r_edge lim r) (\<lambda>(e, r). Inr (M_Edge e, r))
      else if type = 4 then andthen (r_done r) (\<lambda>(d, r). Inr (M_Done d, r))
      else if type = 5 then
        andthen (r_scalar r) (\<lambda>(lease_id, r).
        andthen (r_scalar r) (\<lambda>(source, r).
        andthen (r_text lim r) (\<lambda>(reason, r). Inr (M_Error lease_id source reason, r))))
      else if type = 6 then Inr (M_Shutdown, r)
      else fail ''Unknown worker protocol message type'')"

text \<open>
  \<open>Channel::receive\<close> without an object channel: the message, or nothing at a clean end of the
  stream, which also marks the channel as failed.
\<close>

definition receive_frame ::
  "limits \<Rightarrow> byte list \<Rightarrow> io \<Rightarrow> exn + (message option \<times> byte list \<times> io)" where
  "receive_frame lim buffer io =
     andthen (input_read 16 True [] buffer io) (\<lambda>(h, buffer, io).
       (case h of
          None \<Rightarrow> Inr (None, buffer, io)
        | Some header \<Rightarrow>
           (let frame_version = (number (take 2 (drop 4 header)) :: u16);
                type = (number (take 2 (drop 6 header)) :: u16);
                size = (number (drop 8 header) :: u64)
            in if (number (take 4 header) :: u32) \<noteq> wire_magic \<or>
                  frame_version \<noteq> wire_version \<and> frame_version \<noteq> 2
               then fail ''Worker protocol magic/version mismatch''
               else if type < 1 \<or> 6 < type then fail ''Unknown worker protocol message type''
               else if int (l_max_frame_bytes lim) < uint size
               then fail ''Worker protocol frame exceeds transfer limit''
               else if frame_version = 2
               then fail ''Shared worker frame requires object channel and bundle message''
               else
                 andthen (decode lim type (nat (uint size), buffer, io)) (\<lambda>(m, remaining, buffer, io).
                   if remaining \<noteq> 0 then fail ''Trailing worker protocol payload bytes''
                   else if io_ticks io = 0 then deadline_exceeded
                   else Inr (Some m, buffer, tick io)))))"

text \<open>
  After a throw the channel is marked as failed and neither its buffer nor the stream is read
  again: their values are those before the call.
\<close>

definition channel_receive :: "channel \<Rightarrow> io \<Rightarrow> (exn + message option) \<times> channel \<times> io" where
  "channel_receive ch io =
     (if ch_failed ch \<or> ch_fd ch < 0 then (fail ''Worker protocol stream is unusable'', ch, io)
      else (case receive_frame (ch_limits ch) (ch_input ch) io of
              Inl e \<Rightarrow> (Inl e, ch\<lparr>ch_failed := True\<rparr>, io)
            | Inr (None, buffer, io) \<Rightarrow>
                (Inr None, ch\<lparr>ch_failed := True, ch_input := buffer\<rparr>, io)
            | Inr (Some m, buffer, io) \<Rightarrow> (Inr (Some m), ch\<lparr>ch_input := buffer\<rparr>, io)))"

definition has_buffered_input :: "channel \<Rightarrow> bool" where
  "has_buffered_input ch \<longleftrightarrow> ch_input ch \<noteq> []"

end
