(* ===== verification/Wire_Codec.thy ===== *)
theory Wire_Codec
  imports Wire
begin

text \<open>
  The correctness of the frame codec: numbers and their bytes, the read buffer as a window on
  the peer's byte stream, the write buffer as a delay, and a calculus of decoders with their
  encodings.
\<close>

section \<open>Numbers\<close>

lemma bit_fold_or:
  "bit (fold (\<lambda>i r. r OR f i) xs (r0 :: 'a::len word)) n \<longleftrightarrow> bit r0 n \<or> (\<exists>i\<in>set xs. bit (f i) n)"
  by (induction xs arbitrary: r0) (auto simp: bit_simps)

lemma bit_number:
  assumes "8 dvd LENGTH('a::len)"
  shows "bit (number bs :: 'a word) n \<longleftrightarrow> n < LENGTH('a) \<and> bit (bs ! (n div 8)) (n mod 8)"
proof -
  have *: "n < LENGTH('a) \<and> i * 8 \<le> n \<and> bit (b :: byte) (n - i * 8) \<longleftrightarrow>
        n < LENGTH('a) \<and> i = n div 8 \<and> bit b (n mod 8)" for i b
  proof (cases "i = n div 8")
    case True
    then show ?thesis by (auto simp: minus_div_mult_eq_mod)
  next
    case False
    have "\<not> bit b (n - i * 8)" if "i * 8 \<le> n"
    proof -
      have "8 \<le> n - i * 8" using False that by (auto simp: div_nat_eqI not_le)
      then show ?thesis by (auto dest: bit_imp_le_length)
    qed
    with False show ?thesis by blast
  qed
  have "bit (number bs :: 'a word) n \<longleftrightarrow>
     (\<exists>i<LENGTH('a) div 8. n < LENGTH('a) \<and> i * 8 \<le> n \<and> bit (bs ! i) (n - i * 8))"
    unfolding number_def bit_fold_or by (auto simp: bit_simps)
  then show ?thesis
    unfolding * using assms by (auto simp: less_mult_imp_div_less div_less_iff_less_mult)
qed

lemma length_little [simp]: "length (little (w :: 'a::len word)) = LENGTH('a) div 8"
  by (simp add: little_def)

lemma bit_little:
  assumes "i < LENGTH('a::len) div 8"
  shows "bit (little (w :: 'a word) ! i) j \<longleftrightarrow> j < 8 \<and> bit w (i * 8 + j)"
  using assms by (auto simp: little_def bit_simps ac_simps dest: bit_imp_le_length)

lemma number_little: "8 dvd LENGTH('a::len) \<Longrightarrow> number (little (w :: 'a word)) = w"
  by (rule bit_word_eqI)
    (simp add: bit_number bit_little less_mult_imp_div_less div_less_iff_less_mult)

lemma little_number:
  assumes "8 dvd LENGTH('a::len)" "length bs = LENGTH('a) div 8"
  shows "little (number bs :: 'a word) = bs"
proof (rule nth_equalityI)
  show "length (little (number bs :: 'a word)) = length bs" using assms by simp
next
  fix i assume "i < length (little (number bs :: 'a word))"
  then have i: "i < LENGTH('a) div 8" by simp
  show "little (number bs :: 'a word) ! i = bs ! i"
  proof (rule bit_word_eqI)
    fix j :: nat assume "j < LENGTH(8)"
    then have j: "j < 8" by simp
    with i have "i * 8 + j < LENGTH('a)" using assms(1) by auto
    with i j show "bit (little (number bs :: 'a word) ! i) j \<longleftrightarrow> bit (bs ! i) j"
      by (simp add: bit_little bit_number [OF assms(1)])
  qed
qed

lemma uint_of_nat_u64: "n < 2 ^ 64 \<Longrightarrow> uint (of_nat n :: u64) = int n"
  by (simp add: unsigned_of_nat take_bit_nat_eq_self_iff)

lemma unat_of_nat_u64: "n < 2 ^ 64 \<Longrightarrow> unat (of_nat n :: u64) = n"
  by (simp add: unsigned_of_nat take_bit_nat_eq_self_iff)

section \<open>The read buffer\<close>

fun recv_bytes :: "recv_answer \<Rightarrow> byte list" where
  "recv_bytes (R_data bs) = bs"
| "recv_bytes _ = []"

definition in_stream :: "byte list \<Rightarrow> io \<Rightarrow> byte list" where
  "in_stream buffer io = buffer @ concat (map recv_bytes (io_recvs io))"

fun recv_ok :: "recv_answer \<Rightarrow> bool" where
  "recv_ok (R_data bs) \<longleftrightarrow> bs \<noteq> []"
| "recv_ok R_intr \<longleftrightarrow> True"
| "recv_ok (R_again p) \<longleftrightarrow> p = P_ready"
| "recv_ok (R_error _) \<longleftrightarrow> False"

definition in_cost :: "byte list \<Rightarrow> io \<Rightarrow> nat" where
  "in_cost buffer io =
     length (io_recvs io) + length buffer + 2 * length (concat (map recv_bytes (io_recvs io)))"

text \<open>The kernel reports no error and the deadline leaves a round for every step.\<close>

definition ready :: "byte list \<Rightarrow> io \<Rightarrow> bool" where
  "ready buffer io \<longleftrightarrow> list_all recv_ok (io_recvs io) \<and> in_cost buffer io < io_ticks io"

lemma tick_sel [simp]:
  "io_recvs (tick io) = io_recvs io" "io_sends (tick io) = io_sends io" "io_sent (tick io) = io_sent io"
  "io_ticks (tick io) = io_ticks io - 1"
  by (auto simp: tick_def)

lemma recv_upto_split:
  assumes "recv_upto cap bs = (x, y)" "0 < cap" "bs \<noteq> []"
  shows "bs = x @ y" "x \<noteq> []" "int (length x) \<le> cap"
  using assms by (auto simp: recv_upto_def split: if_splits)

text \<open>
  One round of \<open>Input::read\<close> either ends the call or goes on having moved \<open>d\<close> from the stream to
  the caller; it goes on when the stream has bytes and the kernel is ready.
\<close>

definition in_round :: "nat \<Rightarrow> bool \<Rightarrow> byte list \<Rightarrow> byte list \<Rightarrow> io \<Rightarrow> byte list \<Rightarrow> nat \<Rightarrow> byte list \<Rightarrow> io \<Rightarrow> bool"
  where
  "in_round needed eof got buffer io d needed' buffer' io' \<longleftrightarrow>
     input_read needed eof got buffer io = input_read needed' eof (got @ d) buffer' io' \<and>
     needed = needed' + length d \<and> in_stream buffer io = d @ in_stream buffer' io' \<and>
     io_ticks io = Suc (io_ticks io') \<and> in_cost buffer' io' < in_cost buffer io \<and>
     (list_all recv_ok (io_recvs io) \<longrightarrow> list_all recv_ok (io_recvs io'))"

lemma in_round_buffer:
  assumes "needed \<noteq> 0" "io_ticks io \<noteq> 0" "buffer \<noteq> []"
  defines "c \<equiv> min needed (length buffer)"
  shows "in_round needed eof got buffer io (take c buffer) (needed - c) (drop c buffer) (tick io)"
proof -
  have "0 < c" "c \<le> needed" "c \<le> length buffer" using assms by auto
  then show ?thesis
    using assms(1-3) unfolding in_round_def
    by (subst input_read.simps) (auto simp: in_stream_def in_cost_def Let_def c_def)
qed

lemma in_round_skip:
  assumes "needed \<noteq> 0" "io_ticks io \<noteq> 0" "io_recvs io = a # as" "a = R_intr \<or> a = R_again P_ready"
  shows "in_round needed eof got [] io [] needed [] (tick io\<lparr>io_recvs := as\<rparr>)"
  using assms unfolding in_round_def
  by (subst input_read.simps) (auto simp: in_stream_def in_cost_def)

lemma in_round_data:
  assumes "needed \<noteq> 0" "io_ticks io \<noteq> 0" "io_recvs io = R_data x # as" "x \<noteq> []"
  shows "\<exists>d n' b' io'. in_round needed eof got [] io d n' b' io'"
proof -
  obtain r l where rl: "recv_upto (if BUFFER_SIZE \<le> int needed then int needed else BUFFER_SIZE) x = (r, l)"
    by fastforce
  note split = recv_upto_split [OF rl _ assms(4)]
  have x: "x = r @ l" "r \<noteq> []" "BUFFER_SIZE \<le> int needed \<Longrightarrow> length r \<le> needed"
    using split assms(1) by auto
  define io2 where "io2 = tick io\<lparr>io_recvs := (if l = [] then as else R_data l # as)\<rparr>"
  have run: "input_read needed eof got [] io =
     (if BUFFER_SIZE \<le> int needed then input_read (needed - length r) eof (got @ r) [] io2
      else input_read needed eof got r io2)"
    using assms rl by (subst input_read.simps) (simp add: io2_def Let_def)
  have io2: "in_stream [] io = r @ in_stream [] io2" "io_ticks io = Suc (io_ticks io2)"
    "in_cost r io2 < in_cost [] io" "in_cost [] io2 < in_cost [] io"
    "list_all recv_ok (io_recvs io) \<longrightarrow> list_all recv_ok (io_recvs io2)"
    using x assms(2,3) by (auto simp: io2_def in_stream_def in_cost_def)
  have "in_round needed eof got [] io r (needed - length r) [] io2" if "BUFFER_SIZE \<le> int needed"
    using that run x io2 unfolding in_round_def by simp
  moreover have "in_round needed eof got [] io [] needed r io2" if "\<not> BUFFER_SIZE \<le> int needed"
    using that run io2 unfolding in_round_def by (simp add: in_stream_def)
  ultimately show ?thesis by blast
qed

lemma in_round_cases:
  assumes "needed \<noteq> 0"
  obtains (stop) "\<not> (ready buffer io \<and> in_stream buffer io \<noteq> [])"
      "\<And>bs b io'. input_read needed eof got buffer io \<noteq> Inr (Some bs, b, io')"
  | (go) d n' b' io' where "in_round needed eof got buffer io d n' b' io'"
proof -
  consider (late) "io_ticks io = 0" | (buf) "io_ticks io \<noteq> 0" "buffer \<noteq> []"
    | (dry) "io_ticks io \<noteq> 0" "buffer = []" "io_recvs io = []"
    | (recv) a as where "io_ticks io \<noteq> 0" "buffer = []" "io_recvs io = a # as"
    by (metis list.exhaust)
  then show thesis
  proof cases
    case late
    then show thesis using assms
      by (intro stop) (auto simp: ready_def input_read.simps [of needed])
  next
    case buf
    from in_round_buffer [OF assms buf] show thesis by (rule go)
  next
    case dry
    then show thesis using assms
      by (intro stop) (auto simp: in_stream_def input_read.simps [of needed])
  next
    case recv
    note here = input_read.simps [of needed eof got buffer io]
    show thesis
    proof (cases "(\<exists>x. a = R_data x \<and> x \<noteq> []) \<or> a = R_intr \<or> a = R_again P_ready")
      case True
      then show thesis
        using go recv in_round_data [OF assms recv(1)] in_round_skip [OF assms recv(1,3)] by blast
    next
      case False
      then have "\<not> recv_ok a" by (cases a) auto
      moreover have "input_read needed eof got buffer io \<noteq> Inr (Some bs, b, io')" for bs b io'
        using False recv assms unfolding here
        by (cases a) (auto simp: andthen_Inr elim: await_ready.elims)
      ultimately show thesis using recv by (intro stop) (auto simp: ready_def)
    qed
  qed
qed

lemma input_read_0 [simp]: "input_read 0 eof got buffer io = Inr (Some got, buffer, io)"
  by (simp add: input_read.simps)

lemma input_read_consumes:
  "input_read needed eof got buffer io = Inr (Some bs, buffer', io') \<Longrightarrow>
   \<exists>d. bs = got @ d \<and> length d = needed \<and> in_stream buffer io = d @ in_stream buffer' io'"
proof (induction "io_ticks io" arbitrary: needed got buffer io rule: less_induct)
  case less
  show ?case
  proof (cases "needed = 0")
    case True
    then show ?thesis using less.prems by simp
  next
    case False
    then show ?thesis
    proof (cases rule: in_round_cases [of needed buffer io eof got])
      case stop
      then show ?thesis using less.prems by blast
    next
      case (go d n' b' io2)
      note r = go [unfolded in_round_def]
      from r less.prems have "input_read n' eof (got @ d) b' io2 = Inr (Some bs, buffer', io')" by simp
      from less.hyps [OF _ this] r obtain d' where "bs = (got @ d) @ d'" "length d' = n'"
        "in_stream b' io2 = d' @ in_stream buffer' io'" by auto
      then show ?thesis using r by (intro exI [of _ "d @ d'"]) auto
    qed
  qed
qed

lemma input_read_delivers:
  "ready buffer io \<Longrightarrow> in_stream buffer io = d @ rest \<Longrightarrow> length d = needed \<Longrightarrow>
   \<exists>buffer' io'. input_read needed eof got buffer io = Inr (Some (got @ d), buffer', io') \<and>
     ready buffer' io' \<and> in_stream buffer' io' = rest"
proof (induction "io_ticks io" arbitrary: needed got buffer io d rule: less_induct)
  case less
  show ?case
  proof (cases "needed = 0")
    case True
    then show ?thesis using less.prems by auto
  next
    case False
    then show ?thesis
    proof (cases rule: in_round_cases [of needed buffer io eof got])
      case stop
      then show ?thesis using less.prems False by auto
    next
      case (go e n' b' io2)
      note r = go [unfolded in_round_def]
      obtain d' where d': "d = e @ d'" "in_stream b' io2 = d' @ rest"
        using r less.prems(2,3) by (auto simp: append_eq_append_conv2)
      have "ready b' io2" using r less.prems(1) by (auto simp: ready_def)
      from less.hyps [OF _ this d'(2) refl, of "got @ e"] d' r less.prems(3)
      show ?thesis by auto
    qed
  qed
qed

section \<open>A calculus of decoders\<close>

text \<open>
  \<open>decodes dec bs x\<close>: on a ready stream that starts with \<open>bs\<close>, and with that many payload bytes
  left, \<open>dec\<close> returns \<open>x\<close> and consumes exactly \<open>bs\<close>. \<open>canonical dec enc ok\<close>: whatever \<open>dec\<close> returns
  is valid, and what it consumed is its encoding.
\<close>

definition decodes :: "(reader \<Rightarrow> exn + ('a \<times> reader)) \<Rightarrow> byte list \<Rightarrow> 'a \<Rightarrow> bool" where
  "decodes dec bs x \<longleftrightarrow>
     (\<forall>n buffer io rest. ready buffer io \<longrightarrow> in_stream buffer io = bs @ rest \<longrightarrow> length bs \<le> n \<longrightarrow>
        (\<exists>buffer' io'. dec (n, buffer, io) = Inr (x, n - length bs, buffer', io') \<and>
           ready buffer' io' \<and> in_stream buffer' io' = rest))"

definition took :: "reader \<Rightarrow> byte list \<Rightarrow> reader \<Rightarrow> bool" where
  "took r bs r' \<longleftrightarrow> fst r = fst r' + length bs \<and>
     in_stream (fst (snd r)) (snd (snd r)) = bs @ in_stream (fst (snd r')) (snd (snd r'))"

definition canonical :: "(reader \<Rightarrow> exn + ('a \<times> reader)) \<Rightarrow> ('a \<Rightarrow> byte list) \<Rightarrow> ('a \<Rightarrow> bool) \<Rightarrow> bool" where
  "canonical dec enc ok \<longleftrightarrow> (\<forall>r x r'. dec r = Inr (x, r') \<longrightarrow> ok x \<and> took r (enc x) r')"

lemma canonicalD: "canonical dec enc ok \<Longrightarrow> dec r = Inr (x, r') \<Longrightarrow> ok x \<and> took r (enc x) r'"
  unfolding canonical_def by blast

lemma took_trans: "took r a r1 \<Longrightarrow> took r1 b r2 \<Longrightarrow> took r (a @ b) r2"
  by (simp add: took_def)

lemma took_refl [simp]: "took r [] r"
  by (simp add: took_def)

lemma decodesE:
  assumes "decodes dec bs x" "ready buffer io" "in_stream buffer io = bs @ rest" "length bs \<le> n"
  obtains buffer' io' where "dec (n, buffer, io) = Inr (x, n - length bs, buffer', io')"
    "ready buffer' io'" "in_stream buffer' io' = rest"
  using assms unfolding decodes_def by blast

lemma decodes_return [simp]: "decodes (\<lambda>r. Inr (x, r)) [] x"
  by (auto simp: decodes_def)

lemma decodes_bind:
  assumes "decodes dec a x" "decodes (f x) b y"
  shows "decodes (\<lambda>r. andthen (dec r) (\<lambda>(x, r). f x r)) (a @ b) y"
  unfolding decodes_def
proof (intro allI impI)
  fix n buffer io rest
  assume io: "ready buffer io" "in_stream buffer io = (a @ b) @ rest" and n: "length (a @ b) \<le> n"
  have 0: "in_stream buffer io = a @ b @ rest" "length a \<le> n" "length b \<le> n - length a"
    using io(2) n by auto
  obtain b1 io1 where 1: "dec (n, buffer, io) = Inr (x, n - length a, b1, io1)"
    "ready b1 io1" "in_stream b1 io1 = b @ rest"
    by (rule decodesE [OF assms(1) io(1) 0(1,2)])
  obtain b2 io2 where "f x (n - length a, b1, io1) = Inr (y, n - length a - length b, b2, io2)"
    "ready b2 io2" "in_stream b2 io2 = rest"
    by (rule decodesE [OF assms(2) 1(2,3) 0(3)])
  then show "\<exists>b' io'. andthen (dec (n, buffer, io)) (\<lambda>(x, r). f x r) = Inr (y, n - length (a @ b), b', io') \<and>
      ready b' io' \<and> in_stream b' io' = rest"
    using 1 by simp
qed

lemma decodes_last:
  assumes "decodes dec a x" "\<And>r. f x r = Inr (y, r)"
  shows "decodes (\<lambda>r. andthen (dec r) (\<lambda>(x, r). f x r)) a y"
proof -
  have "decodes (f x) [] y" using assms(2) by (simp add: decodes_def)
  from decodes_bind [of dec a x f, OF assms(1) this] show ?thesis by simp
qed

lemma andthen_pairE:
  assumes "andthen m (\<lambda>(x, r). f x r) = Inr y"
  obtains x r where "m = Inr (x, r)" "f x r = Inr y"
  using assms by (cases m) auto

text \<open>
  \<open>exactly dec P\<close>: whenever \<open>dec\<close> returns \<open>x\<close>, it has consumed bytes that \<open>P\<close> relates to \<open>x\<close>. It is
  the backward counterpart of \<open>decodes\<close>.
\<close>

definition exactly :: "(reader \<Rightarrow> exn + ('a \<times> reader)) \<Rightarrow> (byte list \<Rightarrow> 'a \<Rightarrow> bool) \<Rightarrow> bool" where
  "exactly dec P \<longleftrightarrow> (\<forall>r x r'. dec r = Inr (x, r') \<longrightarrow> (\<exists>bs. took r bs r' \<and> P bs x))"

lemma exactly_return: "P [] x \<Longrightarrow> exactly (\<lambda>r. Inr (x, r)) P"
  unfolding exactly_def using took_refl by blast

lemma exactly_bind:
  assumes "canonical dec enc ok" "\<And>x. ok x \<Longrightarrow> exactly (f x) (\<lambda>bs y. P (enc x @ bs) y)"
  shows "exactly (\<lambda>r. andthen (dec r) (\<lambda>(x, r). f x r)) P"
  unfolding exactly_def
proof (intro allI impI)
  fix r y r' assume "andthen (dec r) (\<lambda>(x, r). f x r) = Inr (y, r')"
  then obtain x r1 where 1: "dec r = Inr (x, r1)" "f x r1 = Inr (y, r')" by (rule andthen_pairE)
  from canonicalD [OF assms(1) 1(1)] have x: "ok x" "took r (enc x) r1" by auto
  from assms(2) [OF x(1)] 1(2) obtain bs where "took r1 bs r'" "P (enc x @ bs) y"
    unfolding exactly_def by blast
  with x(2) show "\<exists>bs. took r bs r' \<and> P bs y" by (blast intro: took_trans)
qed

lemma exactly_guard:
  "(\<not> C \<Longrightarrow> exactly d P) \<Longrightarrow> exactly (\<lambda>r. if C then Inl e else d r) P"
  unfolding exactly_def by auto

lemma canonicalI: "exactly dec (\<lambda>bs x. ok x \<and> bs = enc x) \<Longrightarrow> canonical dec enc ok"
  unfolding exactly_def canonical_def by blast

text \<open>Decoders that invert their encodings are prefix-free codes.\<close>

definition stream_of :: "byte list \<Rightarrow> io" where
  "stream_of bs = \<lparr>io_ticks = 2 * length bs + 2, io_sends = [], io_recvs = (if bs = [] then [] else [R_data bs]),
     io_sent = []\<rparr>"

lemma stream_of_ready: "ready [] (stream_of bs)" "in_stream [] (stream_of bs) = bs"
  by (auto simp: ready_def in_cost_def in_stream_def stream_of_def)

locale codec =
  fixes enc :: "'a \<Rightarrow> byte list" and dec :: "reader \<Rightarrow> exn + ('a \<times> reader)" and ok :: "'a \<Rightarrow> bool"
  assumes inverts: "ok x \<Longrightarrow> decodes dec (enc x) x"
    and exact: "canonical dec enc ok"
begin

lemma prefix_free:
  assumes "ok x" "ok y" "enc x @ s = enc y @ t"
  shows "x = y \<and> s = t"
proof -
  define io n where "io = stream_of (enc x @ s)" and "n = length (enc x) + length (enc y)"
  obtain b1 io1 where 1: "dec (n, [], io) = Inr (x, n - length (enc x), b1, io1)" "in_stream b1 io1 = s"
    by (rule decodesE [OF inverts [OF assms(1)] stream_of_ready [of "enc x @ s"], of n])
      (simp_all add: io_def n_def)
  obtain b2 io2 where 2: "dec (n, [], io) = Inr (y, n - length (enc y), b2, io2)" "in_stream b2 io2 = t"
    by (rule decodesE [OF inverts [OF assms(2)] stream_of_ready [of "enc y @ t"], of n])
      (simp_all add: io_def n_def assms(3))
  from 1 2 show ?thesis by auto
qed

lemma reads_valid: "dec r = Inr (x, r') \<Longrightarrow> ok x \<and> took r (enc x) r'"
  using exact by (rule canonicalD)

end

section \<open>The elementary codecs\<close>

lemma decodes_bytes: "decodes (r_bytes (length bs)) bs bs"
  unfolding decodes_def
proof (intro allI impI)
  fix n buffer io rest
  assume "ready buffer io" "in_stream buffer io = bs @ rest" "length bs \<le> n"
  with input_read_delivers [OF this(1,2) refl, of False "[]"]
  show "\<exists>b' io'. r_bytes (length bs) (n, buffer, io) = Inr (bs, n - length bs, b', io') \<and>
      ready b' io' \<and> in_stream b' io' = rest"
    by auto
qed

lemma input_read_not_None: "input_read n False got buffer io \<noteq> Inr (None, b, io')"
proof (induction "io_ticks io" arbitrary: n got buffer io rule: less_induct)
  case less
  show ?case
  proof (cases "n = 0")
    case False
    then show ?thesis
    proof (cases rule: in_round_cases [of n buffer io False got])
      case stop
      then show ?thesis using less False
        by (subst input_read.simps)
          (auto simp: Let_def andthen_Inr split: list.splits recv_answer.splits prod.splits)
    next
      case (go d n' b' io2)
      then have "io_ticks io2 < io_ticks io"
        "input_read n False got buffer io = input_read n' False (got @ d) b' io2"
        by (auto simp: in_round_def)
      then show ?thesis using less.hyps [of io2 n' "got @ d" b'] by metis
    qed
  qed simp
qed

lemma r_bytes_took: "r_bytes n r = Inr (bs, r') \<Longrightarrow> length bs = n \<and> took r bs r'"
proof -
  assume run: "r_bytes n r = Inr (bs, r')"
  obtain rem buffer io where r: "r = (rem, buffer, io)" by (cases r)
  from run obtain a b1 io1 where 0: "input_read n False [] buffer io = Inr (a, b1, io1)" "n \<le> rem"
    "(case a of None \<Rightarrow> Inr ([], rem - n, b1, io1) | Some x \<Rightarrow> Inr (x, rem - n, b1, io1)) =
       (Inr (bs, r') :: exn + _)"
    by (auto simp: r andthen_Inr split: if_splits)
  have "a \<noteq> None" using 0(1) input_read_not_None by metis
  with 0 have 1: "input_read n False [] buffer io = Inr (Some bs, b1, io1)" "n \<le> rem" "r' = (rem - n, b1, io1)"
    by auto
  from input_read_consumes [OF 1(1)] 1(2,3) show ?thesis by (auto simp: r took_def)
qed

declare r_bytes.simps [simp del]

lemma decodes_scalar:
  assumes "8 dvd LENGTH('a::len)"
  shows "decodes r_scalar (little (x :: 'a word)) x"
proof -
  have "decodes (r_bytes (LENGTH('a) div 8)) (little x) (little x)"
    using decodes_bytes [of "little x"] by simp
  from decodes_last [OF this, of "\<lambda>bs r. Inr (number bs, r)" x]
  show ?thesis unfolding r_scalar_def using number_little [OF assms, of x] by simp
qed

lemma canonical_scalar:
  assumes "8 dvd LENGTH('a::len)"
  shows "canonical r_scalar (little :: 'a word \<Rightarrow> byte list) (\<lambda>_. True)"
  unfolding canonical_def r_scalar_def
  by (auto elim!: andthen_pairE dest!: r_bytes_took simp: little_number [OF assms] simp del: split_paired_All)

lemma scalar_codec: "8 dvd LENGTH('a::len) \<Longrightarrow> codec (little :: 'a word \<Rightarrow> byte list) r_scalar (\<lambda>_. True)"
  by unfold_locales (auto intro: decodes_scalar canonical_scalar)

interpretation c8: codec "little :: u8 \<Rightarrow> byte list" r_scalar "\<lambda>_. True" by (rule scalar_codec) simp
interpretation c32: codec "little :: u32 \<Rightarrow> byte list" r_scalar "\<lambda>_. True" by (rule scalar_codec) simp
interpretation c64: codec "little :: u64 \<Rightarrow> byte list" r_scalar "\<lambda>_. True" by (rule scalar_codec) simp

lemma bool_byte_simps [simp]: "\<not> 1 < bool_byte b" "bool_byte b \<noteq> 0 \<longleftrightarrow> b"
  by (auto simp: bool_byte_def)

lemma u8_le_4: "(v :: u8) \<le> 4 \<Longrightarrow> v \<in> {0, 1, 2, 3, 4}"
proof -
  assume "v \<le> 4"
  define n where "n = unat v"
  have v: "v = of_nat n" by (simp add: n_def)
  from \<open>v \<le> 4\<close> have "n \<le> 4" by (simp add: n_def word_le_nat_alt)
  then have "n = 0 \<or> n = 1 \<or> n = 2 \<or> n = 3 \<or> n = 4" by linarith
  then show ?thesis by (auto simp: v)
qed

lemma u8_le_1: "\<not> 1 < (v :: u8) \<Longrightarrow> v \<in> {0, 1}"
  using u8_le_4 [of v] by (auto simp: word_less_nat_alt word_le_nat_alt)

lemma bool_byte_u8: "\<not> 1 < (v :: u8) \<Longrightarrow> bool_byte (v \<noteq> 0) = v"
  using u8_le_1 [of v] by (auto simp: bool_byte_def)

interpretation c_bool: codec "\<lambda>b. little (bool_byte b)" r_boolean "\<lambda>_. True"
proof unfold_locales
  fix b
  show "decodes r_boolean (little (bool_byte b)) b"
    unfolding r_boolean_def by (rule decodes_last [OF c8.inverts]) auto
next
  show "canonical r_boolean (\<lambda>b. little (bool_byte b)) (\<lambda>_. True)"
    unfolding r_boolean_def [abs_def]
    by (intro canonicalI exactly_bind [OF c8.exact] exactly_guard exactly_return) (simp add: bool_byte_u8)
qed

definition enc_sized :: "byte list \<Rightarrow> byte list" where
  "enc_sized bs = little (of_nat (length bs) :: u64) @ bs"

definition sized_ok :: "nat \<Rightarrow> byte list \<Rightarrow> bool" where
  "sized_ok limit bs \<longleftrightarrow> length bs \<le> limit \<and> length bs < 2 ^ 64"

lemma decodes_sized:
  assumes "sized_ok limit bs"
  shows "decodes (r_sized limit) (enc_sized bs) bs"
  unfolding decodes_def
proof (intro allI impI)
  fix n buffer io rest
  assume io: "ready buffer io" "in_stream buffer io = enc_sized bs @ rest" and n: "length (enc_sized bs) \<le> n"
  have 0: "in_stream buffer io = little (of_nat (length bs) :: u64) @ bs @ rest"
    "length (little (of_nat (length bs) :: u64)) \<le> n" "length bs \<le> n - 8"
    using io(2) n by (auto simp: enc_sized_def)
  obtain b1 io1 where 1: "r_scalar (n, buffer, io) = Inr (of_nat (length bs) :: u64, n - 8, b1, io1)"
    "ready b1 io1" "in_stream b1 io1 = bs @ rest"
    by (rule decodesE [OF c64.inverts [OF TrueI] io(1) 0(1,2)]) simp
  obtain b2 io2 where 2: "r_bytes (length bs) (n - 8, b1, io1) = Inr (bs, n - 8 - length bs, b2, io2)"
    "ready b2 io2" "in_stream b2 io2 = rest"
    by (rule decodesE [OF decodes_bytes 1(2,3) 0(3)])
  have "r_length limit (n, buffer, io) = Inr (length bs, n - 8, b1, io1)"
    using assms 0(3) by (simp add: r_length_def 1(1) sized_ok_def uint_of_nat_u64)
  with 2 show "\<exists>b' io'. r_sized limit (n, buffer, io) = Inr (bs, n - length (enc_sized bs), b', io') \<and>
      ready b' io' \<and> in_stream b' io' = rest"
    by (simp add: r_sized_def enc_sized_def)
qed

lemma canonical_sized: "canonical (r_sized limit) enc_sized (sized_ok limit)"
  unfolding canonical_def
proof (intro allI impI)
  fix r bs r' assume "r_sized limit r = Inr (bs, r')"
  then obtain v :: u64 and r1 where v: "r_scalar r = Inr (v, r1)" "uint v \<le> int limit"
    "r_bytes (nat (uint v)) r1 = Inr (bs, r')"
    by (auto simp: r_sized_def r_length_def andthen_Inr split: if_splits)
  from r_bytes_took [OF v(3)] have bs: "length bs = unat v" "took r1 bs r'" by (simp_all add: nat_uint_eq)
  have "took r (little v) r1" using c64.reads_valid [OF v(1)] by simp
  moreover have "of_nat (length bs) = v" using bs(1) by simp
  moreover have "unat v < 2 ^ 64" using unsigned_less [where 'a = nat, of v] by simp
  moreover have "unat v \<le> limit" using v(2) by (metis nat_le_iff nat_uint_eq)
  ultimately show "sized_ok limit bs \<and> took r (enc_sized bs) r'"
    using bs by (simp add: sized_ok_def enc_sized_def took_trans)
qed

interpretation c_sized: codec enc_sized "r_sized limit" "sized_ok limit" for limit
  by unfold_locales (auto intro: decodes_sized canonical_sized)

end
