(* ===== verification/Wire_Messages.thy ===== *)
theory Wire_Messages
  imports Wire_Codec
begin

text \<open>
  The codecs of bundles and messages, the writer against their encodings, and the write buffer.
\<close>

section \<open>Bundles\<close>

lemma decodes_guard:
  assumes "decodes d b y" "\<And>r. length b \<le> fst r \<Longrightarrow> \<not> C r"
  shows "decodes (\<lambda>r. if C r then e r else d r) b y"
  using assms unfolding decodes_def by fastforce

definition enc_blob :: "blob \<Rightarrow> byte list" where
  "enc_blob b = little (b_key b) @ enc_sized (b_bytes b)"

definition enc_blobs :: "blob list \<Rightarrow> byte list" where
  "enc_blobs bs = concat (map enc_blob bs)"

definition blobs_ok :: "limits \<Rightarrow> blob list \<Rightarrow> bool" where
  "blobs_ok lim bs \<longleftrightarrow> (\<forall>b\<in>set bs. sized_ok (l_max_blob_bytes lim) (b_bytes b))"

lemma length_enc_blobs: "16 * length bs \<le> length (enc_blobs bs)"
  by (induction bs) (auto simp: enc_blobs_def enc_blob_def enc_sized_def)

lemma decodes_blobs: "blobs_ok lim bs \<Longrightarrow> decodes (r_blobs lim (length bs)) (enc_blobs bs) bs"
proof (induction bs)
  case Nil
  then show ?case by (simp add: enc_blobs_def decodes_def)
next
  case (Cons b bs)
  then have ok: "sized_ok (l_max_blob_bytes lim) (b_bytes b)" "blobs_ok lim bs" by (auto simp: blobs_ok_def)
  have "decodes (r_blobs lim (Suc (length bs)))
      (little (b_key b) @ enc_sized (b_bytes b) @ enc_blobs bs) (b # bs)"
    unfolding r_blobs.simps [abs_def]
    by (intro decodes_bind [OF c64.inverts] decodes_bind [OF c_sized.inverts] decodes_last [OF Cons.IH] ok) auto
  then show ?case by (simp add: enc_blobs_def enc_blob_def del: r_blobs.simps)
qed

lemma canonical_blobs:
  "r_blobs lim n r = Inr (bs, r') \<Longrightarrow> length bs = n \<and> blobs_ok lim bs \<and> took r (enc_blobs bs) r'"
proof (induction n arbitrary: r bs)
  case 0
  then show ?case by (simp add: blobs_ok_def enc_blobs_def)
next
  case (Suc n)
  from Suc.prems obtain key r1 x r2 rest where 1: "took r (little (key :: u64)) r1"
    "sized_ok (l_max_blob_bytes lim) x" "took r1 (enc_sized x) r2" "r_blobs lim n r2 = Inr (rest, r')"
    "bs = \<lparr>b_key = key, b_bytes = x\<rparr> # rest"
    by (auto elim!: andthen_pairE dest!: c64.reads_valid c_sized.reads_valid)
  from Suc.IH [OF 1(4)] 1 show ?case
    by (auto simp: blobs_ok_def enc_blobs_def enc_blob_def intro: took_trans)
qed

definition enc_bundle :: "snapshot_bundle \<Rightarrow> byte list" where
  "enc_bundle bu =
     little (bu_version bu) @ little (bu_system_key bu) @ enc_sized (bu_metadata bu) @
     little (of_nat (length (bu_blobs bu)) :: u64) @ enc_blobs (bu_blobs bu)"

text \<open>No vector holds more than \<open>2 ^ 59\<close> blobs of 32 bytes.\<close>

definition bundle_ok :: "limits \<Rightarrow> snapshot_bundle \<Rightarrow> bool" where
  "bundle_ok lim bu \<longleftrightarrow>
     sized_ok (l_max_metadata_bytes lim) (bu_metadata bu) \<and> blobs_ok lim (bu_blobs bu) \<and>
     length (bu_blobs bu) \<le> l_max_blobs lim \<and> length (bu_blobs bu) < 2 ^ 59"

lemma decodes_bundle:
  assumes "bundle_ok lim bu"
  shows "decodes (r_bundle lim) (enc_bundle bu) bu"
proof -
  note ok = assms [unfolded bundle_ok_def]
  have u: "uint (of_nat (length (bu_blobs bu)) :: u64) = int (length (bu_blobs bu))"
    using ok by (intro uint_of_nat_u64) auto
  have d: "decodes (r_blobs lim (nat (uint (of_nat (length (bu_blobs bu)) :: u64))))
      (enc_blobs (bu_blobs bu)) (bu_blobs bu)"
    unfolding u using decodes_blobs ok by simp
  have fit: "\<not> (int (l_max_blobs lim) < uint (of_nat (length (bu_blobs bu)) :: u64) \<or>
      int (fst r div 16) < uint (of_nat (length (bu_blobs bu)) :: u64) \<or>
      18446744073709551615 div 32 < uint (of_nat (length (bu_blobs bu)) :: u64))"
    if "length (enc_blobs (bu_blobs bu)) \<le> fst r" for r :: reader
    unfolding u using that ok length_enc_blobs [of "bu_blobs bu"] by auto
  show ?thesis
    unfolding r_bundle_def [abs_def] enc_bundle_def
    by (intro decodes_bind [OF c32.inverts] decodes_bind [OF c64.inverts] decodes_bind [OF c_sized.inverts]
        decodes_guard [OF _ fit] decodes_last [OF d]) (use ok in auto)
qed

lemma canonical_bundle: "canonical (r_bundle lim) enc_bundle (bundle_ok lim)"
  unfolding canonical_def
proof (intro allI impI)
  fix r bu r' assume "r_bundle lim r = Inr (bu, r')"
  then obtain v k x c r1 r2 r3 r4 bs where 1: "took r (little (v :: u32)) r1" "took r1 (little (k :: u64)) r2"
    "sized_ok (l_max_metadata_bytes lim) x" "took r2 (enc_sized x) r3" "took r3 (little (c :: u64)) r4"
    "r_blobs lim (nat (uint c)) r4 = Inr (bs, r')" "uint c \<le> int (l_max_blobs lim)"
    "uint c \<le> 18446744073709551615 div 32"
    "bu = \<lparr>bu_version = v, bu_system_key = k, bu_metadata = x, bu_blobs = bs\<rparr>"
    unfolding r_bundle_def
    by (auto elim!: andthen_pairE dest!: c32.reads_valid c64.reads_valid c_sized.reads_valid
        split: if_splits simp: not_less)
  from canonical_blobs [OF 1(6)] have bs: "length bs = nat (uint c)" "blobs_ok lim bs"
    "took r4 (enc_blobs bs) r'" by auto
  have "of_nat (length bs) = c" using bs(1) by (simp add: nat_uint_eq)
  moreover have "length bs \<le> l_max_blobs lim" "length bs < 2 ^ 59"
    unfolding bs(1) using 1(7,8) by (auto simp: nat_le_iff nat_less_iff simp del: nat_uint_eq)
  ultimately show "bundle_ok lim bu \<and> took r (enc_bundle bu) r'"
    using 1(1-5,9) bs(2,3) by (auto simp: bundle_ok_def enc_bundle_def intro!: took_trans)
qed

interpretation c_bundle: codec enc_bundle "r_bundle lim" "bundle_ok lim" for lim
  by unfold_locales (auto intro: decodes_bundle canonical_bundle)

section \<open>Messages\<close>

definition enc_ticket :: "ticket \<Rightarrow> byte list" where
  "enc_ticket t = little (t_state t) @ little (t_worker t) @ little (t_lease_id t) @ little (t_depth t) @
     little (bool_byte (t_may_expand t))"

interpretation c_ticket: codec enc_ticket r_ticket "\<lambda>_. True"
proof unfold_locales
  fix t :: ticket
  show "decodes r_ticket (enc_ticket t) t"
    unfolding r_ticket_def [abs_def] enc_ticket_def
    by (intro decodes_bind [OF c64.inverts] decodes_last [OF c_bool.inverts]) auto
next
  show "canonical r_ticket enc_ticket (\<lambda>_. True)"
    unfolding r_ticket_def [abs_def]
    by (intro canonicalI exactly_bind [OF c64.exact] exactly_bind [OF c_bool.exact] exactly_return)
      (simp add: enc_ticket_def)
qed

text \<open>Enumerations as bytes.\<close>

lemma index_bounds [simp]: "action_index a \<le> 1" "result_index c \<le> 4" "done_index k \<le> 4"
  by (cases a, simp_all) (cases c, simp_all, cases k, simp_all)

lemma of_index [simp]: "action_of (action_index a) = a" "result_of (result_index c) = c" "done_of (done_index k) = k"
  by (cases a, simp_all add: action_of_def)
    (cases c, simp_all add: result_of_def, cases k, simp_all add: done_of_def)

lemma index_of:
  "\<not> 1 < b \<Longrightarrow> action_index (action_of b) = b" "\<not> 4 < b \<Longrightarrow> result_index (result_of b) = b"
  "\<not> 4 < b \<Longrightarrow> done_index (done_of b) = b"
  using u8_le_1 [of b] u8_le_4 [of b] by (auto simp: action_of_def result_of_def done_of_def not_less)

lemma uint_u32: "0 \<le> p \<Longrightarrow> p \<le> INT32_MAX \<Longrightarrow> uint (word_of_int p :: u32) = p"
  by (simp add: uint_word_of_int_eq take_bit_int_eq_self_iff)

definition choice_ok :: "int \<Rightarrow> bool" where
  "choice_ok c \<longleftrightarrow> - 2 \<le> c \<and> c \<le> INT32_MAX"

lemma choice_of_word:
  assumes "choice_ok c"
  shows "choice_of (word_of_int c) = c"
    "\<not> (INT32_MAX < uint (word_of_int c :: u32) \<and> (word_of_int c :: u32) \<noteq> - 1 \<and> (word_of_int c :: u32) \<noteq> - 2)"
proof -
  consider "c = - 1" | "c = - 2" | "0 \<le> c" "c \<le> INT32_MAX"
    using assms unfolding choice_ok_def by linarith
  then have "choice_of (word_of_int c) = c \<and>
    \<not> (INT32_MAX < uint (word_of_int c :: u32) \<and> (word_of_int c :: u32) \<noteq> - 1 \<and> (word_of_int c :: u32) \<noteq> - 2)"
  proof cases
    case 3
    then have u: "uint (word_of_int c :: u32) = c" by (rule uint_u32)
    have "uint (- 1 :: u32) = 4294967295" "uint (- 2 :: u32) = 4294967294"
      by (simp_all add: unsigned_minus_1_eq_mask mask_eq_exp_minus_1)
    then have "(word_of_int c :: u32) \<noteq> - 1" "(word_of_int c :: u32) \<noteq> - 2" using u 3 by auto
    then show ?thesis using u 3 by (simp add: choice_of_def)
  qed (simp_all add: choice_of_def)
  then show "choice_of (word_of_int c) = c"
    "\<not> (INT32_MAX < uint (word_of_int c :: u32) \<and> (word_of_int c :: u32) \<noteq> - 1 \<and> (word_of_int c :: u32) \<noteq> - 2)"
    by blast+
qed

lemma word_of_choice:
  assumes "\<not> (INT32_MAX < uint w \<and> w \<noteq> - 1 \<and> w \<noteq> - 2)"
  shows "word_of_int (choice_of w) = w" "choice_ok (choice_of w)"
  using assms by (auto simp: choice_of_def choice_ok_def not_less) (smt (verit) uint_ge_0)+

definition enc_edge :: "edge \<Rightarrow> byte list" where
  "enc_edge e =
     little (ed_lease_id e) @ little (ed_source e) @ little (ed_target e) @
     little (word_of_int (aa_process (ed_actor e)) :: u32) @ little (word_of_int (aa_thread (ed_actor e)) :: u32) @
     little (action_index (aa_action (ed_actor e))) @ little (word_of_int (ed_choice e) :: u32) @
     little (ed_choice_count e) @ little (bool_byte (ed_property_violation e)) @
     little (result_index (ed_result_code e)) @ enc_bundle (ed_bundle e)"

definition edge_ok :: "limits \<Rightarrow> edge \<Rightarrow> bool" where
  "edge_ok lim e \<longleftrightarrow>
     0 \<le> aa_process (ed_actor e) \<and> aa_process (ed_actor e) \<le> INT32_MAX \<and>
     0 \<le> aa_thread (ed_actor e) \<and> aa_thread (ed_actor e) \<le> INT32_MAX \<and>
     choice_ok (ed_choice e) \<and> uint (ed_choice_count e) \<le> INT32_MAX \<and> bundle_ok lim (ed_bundle e)"

lemma decodes_edge:
  assumes "edge_ok lim e"
  shows "decodes (r_edge lim) (enc_edge e) e"
proof -
  note ok = assms [unfolded edge_ok_def]
  show ?thesis
    unfolding r_edge_def [abs_def] enc_edge_def
    by (intro decodes_bind [OF c32.inverts] decodes_bind [OF c64.inverts] decodes_bind [OF c8.inverts]
        decodes_bind [OF c_bool.inverts] decodes_last [OF c_bundle.inverts] decodes_guard TrueI)
      (use ok in \<open>auto simp: uint_u32 choice_of_word not_less\<close>)
qed

lemma canonical_edge: "canonical (r_edge lim) enc_edge (edge_ok lim)"
proof (rule canonicalI)
  show "exactly (r_edge lim) (\<lambda>bs x. edge_ok lim x \<and> bs = enc_edge x)"
    unfolding r_edge_def [abs_def]
    by (intro exactly_bind [OF c64.exact] exactly_bind [OF c32.exact] exactly_bind [OF c8.exact]
        exactly_bind [OF c_bool.exact] exactly_bind [OF c_bundle.exact] exactly_guard exactly_return)
      (simp add: edge_ok_def enc_edge_def index_of word_of_choice)
qed

interpretation c_edge: codec enc_edge "r_edge lim" "edge_ok lim" for lim
  by unfold_locales (auto intro: decodes_edge canonical_edge)

definition enc_done :: "done_msg \<Rightarrow> byte list" where
  "enc_done d = little (dn_lease_id d) @ little (dn_source d) @ little (done_index (dn_kind d)) @ little (dn_emitted d)"

interpretation c_done: codec enc_done r_done "\<lambda>_. True"
proof unfold_locales
  fix d :: done_msg
  show "decodes r_done (enc_done d) d"
    unfolding r_done_def [abs_def] enc_done_def
    by (intro decodes_bind [OF c64.inverts] decodes_bind [OF c8.inverts] decodes_last [OF c64.inverts]
        decodes_guard) (auto simp: not_less)
next
  show "canonical r_done enc_done (\<lambda>_. True)"
    unfolding r_done_def [abs_def]
    by (intro canonicalI exactly_bind [OF c64.exact] exactly_bind [OF c8.exact] exactly_guard exactly_return)
      (simp add: enc_done_def index_of)
qed

fun enc_message :: "message \<Rightarrow> byte list" where
  "enc_message (M_Hello model_id compatible) = enc_sized model_id @ enc_sized compatible"
| "enc_message (M_Task t bu) = enc_ticket t @ enc_bundle bu"
| "enc_message (M_Edge e) = enc_edge e"
| "enc_message (M_Done d) = enc_done d"
| "enc_message (M_Error lease_id source reason) = little lease_id @ little source @ enc_sized reason"
| "enc_message M_Shutdown = []"

fun message_ok :: "limits \<Rightarrow> message \<Rightarrow> bool" where
  "message_ok lim (M_Hello model_id compatible) \<longleftrightarrow>
     sized_ok (l_max_text_bytes lim) model_id \<and> sized_ok (l_max_text_bytes lim) compatible"
| "message_ok lim (M_Task t bu) \<longleftrightarrow> bundle_ok lim bu"
| "message_ok lim (M_Edge e) \<longleftrightarrow> edge_ok lim e"
| "message_ok lim (M_Done d) \<longleftrightarrow> True"
| "message_ok lim (M_Error lease_id source reason) \<longleftrightarrow> sized_ok (l_max_text_bytes lim) reason"
| "message_ok lim M_Shutdown \<longleftrightarrow> True"

definition message_type :: "message \<Rightarrow> u16" where
  "message_type m = of_nat (message_index m + 1)"

lemma message_type_simps [simp]:
  "message_type (M_Hello a b) = 1" "message_type (M_Task t bu) = 2" "message_type (M_Edge e) = 3"
  "message_type (M_Done d) = 4" "message_type (M_Error l x r) = 5" "message_type M_Shutdown = 6"
  by (simp_all add: message_type_def)

lemmas message_inverts =
  decodes_bind [OF c_sized.inverts] decodes_bind [OF c_ticket.inverts] decodes_bind [OF c64.inverts]
  decodes_last [OF c_sized.inverts] decodes_last [OF c_bundle.inverts] decodes_last [OF c_edge.inverts]
  decodes_last [OF c_done.inverts] decodes_return

lemmas message_exact =
  exactly_bind [OF c_sized.exact] exactly_bind [OF c_ticket.exact] exactly_bind [OF c64.exact]
  exactly_bind [OF c_bundle.exact] exactly_bind [OF c_edge.exact] exactly_bind [OF c_done.exact] exactly_return

lemma decodes_message: "message_ok lim m \<Longrightarrow> decodes (decode lim (message_type m)) (enc_message m) m"
  unfolding decode_def [abs_def] r_text_def
  by (cases m; simp; intro message_inverts; simp)

lemma exactly_message:
  "exactly (decode lim type) (\<lambda>bs m. message_ok lim m \<and> type = message_type m \<and> bs = enc_message m)"
proof -
  consider "type = 1" | "type = 2" | "type = 3" | "type = 4" | "type = 5" | "type = 6"
    | "type \<notin> {1, 2, 3, 4, 5, 6}" by auto
  then show ?thesis
  proof cases
    case 7
    then show ?thesis by (simp add: exactly_def decode_def)
  qed (simp_all add: decode_def [abs_def] r_text_def; intro message_exact; simp)+
qed

section \<open>The writer\<close>

text \<open>
  \<open>writes_at lim P put bs w\<close>: from a writer \<open>w\<close> within the limit, \<open>put\<close> appends \<open>bs\<close> when \<open>P\<close>
  holds and they fit, and throws otherwise.
\<close>

definition writes_at :: "limits \<Rightarrow> bool \<Rightarrow> (writer \<Rightarrow> exn + writer) \<Rightarrow> byte list \<Rightarrow> writer \<Rightarrow> bool" where
  "writes_at lim P put bs w \<longleftrightarrow>
     fst w \<le> l_max_frame_bytes lim \<longrightarrow>
     (if P \<and> fst w + length bs \<le> l_max_frame_bytes lim
      then \<exists>pieces. put w = Inr (fst w + length bs, pieces) \<and> concat pieces = concat (snd w) @ bs
      else \<exists>e. put w = Inl e)"

lemma writes_bytes: "writes_at lim True (w_bytes lim bs) bs w"
  by (auto simp: writes_at_def w_bytes_def)

lemma writes_scalar: "writes_at lim True (w_scalar lim x) (little x) w"
  unfolding w_scalar_def [abs_def] by (rule writes_bytes)

lemma writes_bind:
  assumes "writes_at lim P f a w" "\<And>w'. fst w' = fst w + length a \<Longrightarrow> writes_at lim Q g b w'"
  shows "writes_at lim (P \<and> Q) (\<lambda>w. andthen (f w) g) (a @ b) w"
  unfolding writes_at_def
proof (intro allI impI)
  assume w: "fst w \<le> l_max_frame_bytes lim"
  show "if (P \<and> Q) \<and> fst w + length (a @ b) \<le> l_max_frame_bytes lim
    then \<exists>pieces. andthen (f w) g = Inr (fst w + length (a @ b), pieces) \<and> concat pieces = concat (snd w) @ a @ b
    else \<exists>e. andthen (f w) g = Inl e"
  proof (cases "P \<and> fst w + length a \<le> l_max_frame_bytes lim")
    case True
    then obtain ps where f: "f w = Inr (fst w + length a, ps)" "concat ps = concat (snd w) @ a"
      using assms(1) w by (auto simp: writes_at_def)
    show ?thesis
      using assms(2) [of "(fst w + length a, ps)", unfolded writes_at_def] f True
      by (auto split: if_splits)
  next
    case False
    then obtain e where "f w = Inl e" using assms(1) w by (auto simp: writes_at_def)
    then show ?thesis using False by auto
  qed
qed

lemma writes_check:
  assumes "\<And>w. writes_at lim P f a w"
  shows "writes_at lim (\<not> C \<and> P) (\<lambda>w. if C then Inl e else f w) a w"
  using assms [of w] by (auto simp: writes_at_def)

lemma writes_sized:
  "writes_at lim True (\<lambda>w. andthen (w_scalar lim (of_nat (length bs) :: u64) w) (w_bytes lim bs)) (enc_sized bs) w"
  using writes_bind [OF writes_scalar writes_bytes] by (simp add: enc_sized_def)

lemma writes_text:
  "writes_at lim (length t \<le> l_max_text_bytes lim) (w_text lim t) (enc_sized t) w"
  using writes_check [OF writes_sized, of lim "l_max_text_bytes lim < length t" _ t]
  unfolding w_text_def [abs_def] by (simp add: not_less)

lemma writes_blobs:
  "raw \<le> fst w \<Longrightarrow>
   writes_at lim (\<forall>b\<in>set bs. length (b_bytes b) \<le> l_max_blob_bytes lim) (w_blobs lim raw bs) (enc_blobs bs) w"
proof (induction bs arbitrary: raw w)
  case Nil
  then show ?case by (cases w) (simp add: writes_at_def enc_blobs_def)
next
  case (Cons b bs)
  have body: "writes_at lim (True \<and> True \<and> True \<and> (\<forall>b\<in>set bs. length (b_bytes b) \<le> l_max_blob_bytes lim))
     (\<lambda>w. andthen (w_scalar lim (b_key b) w) (\<lambda>w.
          andthen (w_scalar lim (of_nat (length (b_bytes b)) :: u64) w) (\<lambda>w.
          andthen (w_bytes lim (b_bytes b) w) (w_blobs lim (raw + length (b_bytes b)) bs))))
     (little (b_key b) @ little (of_nat (length (b_bytes b)) :: u64) @ b_bytes b @ enc_blobs bs) w"
    by (intro writes_bind writes_scalar writes_bytes Cons.IH) (use Cons.prems in simp)
  then show ?case using Cons.prems
    by (auto simp: writes_at_def enc_blobs_def enc_blob_def enc_sized_def split: if_splits)
qed

lemma writes_bundle:
  "writes_at lim (length (bu_metadata bu) \<le> l_max_metadata_bytes lim \<and> length (bu_blobs bu) \<le> l_max_blobs lim \<and>
      (\<forall>b\<in>set (bu_blobs bu). length (b_bytes b) \<le> l_max_blob_bytes lim)) (w_bundle lim bu) (enc_bundle bu) w"
proof -
  have blobs: "writes_at lim (\<forall>b\<in>set (bu_blobs bu). length (b_bytes b) \<le> l_max_blob_bytes lim)
      (\<lambda>w. w_blobs lim (fst w) (bu_blobs bu) w) (enc_blobs (bu_blobs bu)) w" for w
    using writes_blobs [of "fst w" w lim "bu_blobs bu"] by (simp add: writes_at_def)
  have "writes_at lim (\<not> (l_max_metadata_bytes lim < length (bu_metadata bu) \<or> l_max_blobs lim < length (bu_blobs bu)) \<and>
      True \<and> True \<and> True \<and> True \<and> True \<and> (\<forall>b\<in>set (bu_blobs bu). length (b_bytes b) \<le> l_max_blob_bytes lim))
     (w_bundle lim bu)
     (little (bu_version bu) @ little (bu_system_key bu) @ little (of_nat (length (bu_metadata bu)) :: u64) @
      bu_metadata bu @ little (of_nat (length (bu_blobs bu)) :: u64) @ enc_blobs (bu_blobs bu)) w"
    unfolding w_bundle_def [abs_def]
    by (intro writes_check writes_bind writes_scalar writes_bytes blobs)
  then show ?thesis by (simp add: enc_bundle_def enc_sized_def not_less conj_assoc)
qed

text \<open>What the writer asks of a message.\<close>

fun bundle_sendable :: "limits \<Rightarrow> snapshot_bundle \<Rightarrow> bool" where
  "bundle_sendable lim bu \<longleftrightarrow>
     length (bu_metadata bu) \<le> l_max_metadata_bytes lim \<and> length (bu_blobs bu) \<le> l_max_blobs lim \<and>
     (\<forall>b\<in>set (bu_blobs bu). length (b_bytes b) \<le> l_max_blob_bytes lim)"

fun sendable :: "limits \<Rightarrow> message \<Rightarrow> bool" where
  "sendable lim (M_Hello model_id compatible) \<longleftrightarrow>
     length model_id \<le> l_max_text_bytes lim \<and> length compatible \<le> l_max_text_bytes lim"
| "sendable lim (M_Task t bu) \<longleftrightarrow> bundle_sendable lim bu"
| "sendable lim (M_Edge e) \<longleftrightarrow> bundle_sendable lim (ed_bundle e)"
| "sendable lim (M_Done d) \<longleftrightarrow> True"
| "sendable lim (M_Error lease_id source reason) \<longleftrightarrow> length reason \<le> l_max_text_bytes lim"
| "sendable lim M_Shutdown \<longleftrightarrow> True"

lemma writes_P: "writes_at lim P put bs w \<Longrightarrow> P = Q \<Longrightarrow> bs = cs \<Longrightarrow> writes_at lim Q put cs w"
  by simp

lemma encode_writes: "writes_at lim (sendable lim m) (encode lim m) (enc_message m) w"
proof (cases m)
  case (M_Hello a b)
  show ?thesis unfolding M_Hello encode.simps [abs_def]
    by (rule writes_P, (rule writes_bind writes_text)+) simp_all
next
  case (M_Task t bu)
  show ?thesis unfolding M_Task encode.simps [abs_def]
    by (rule writes_P, (rule writes_bind writes_scalar writes_bundle)+) (simp_all add: enc_ticket_def)
next
  case (M_Edge e)
  show ?thesis unfolding M_Edge encode.simps [abs_def]
    by (rule writes_P, (rule writes_bind writes_scalar writes_bundle)+) (simp_all add: enc_edge_def)
next
  case (M_Done d)
  show ?thesis unfolding M_Done encode.simps [abs_def]
    by (rule writes_P, (rule writes_bind writes_scalar)+) (simp_all add: enc_done_def)
next
  case (M_Error l x r)
  show ?thesis unfolding M_Error encode.simps [abs_def]
    by (rule writes_P, (rule writes_bind writes_scalar writes_text)+) simp_all
next
  case M_Shutdown
  show ?thesis unfolding M_Shutdown by (cases w) (simp add: writes_at_def)
qed

lemma message_ok_sendable: "message_ok lim m \<Longrightarrow> sendable lim m"
  by (cases m) (auto simp: sized_ok_def bundle_ok_def blobs_ok_def edge_ok_def)

lemma encode_ok:
  "encode lim m (0, []) = Inr (n, pieces) \<Longrightarrow>
   n = length (enc_message m) \<and> concat pieces = enc_message m \<and> n \<le> l_max_frame_bytes lim \<and> sendable lim m"
  using encode_writes [of lim m "(0, [])"] by (auto simp: writes_at_def split: if_splits)

lemma encode_fits:
  assumes "sendable lim m" "length (enc_message m) \<le> l_max_frame_bytes lim"
  obtains pieces where "encode lim m (0, []) = Inr (length (enc_message m), pieces)" "concat pieces = enc_message m"
  using encode_writes [of lim m "(0, [])"] assms by (auto simp: writes_at_def)

end
