(* ===== verification/Wire_Claims.thy ===== *)
theory Wire_Claims
  imports Wire_Messages
begin

text \<open>
  The write buffer as a delay of the byte stream, whole frames, and the properties of the
  channel.
\<close>

section \<open>The write buffer\<close>




definition emitted :: "byte list \<Rightarrow> byte list \<Rightarrow> exn + unit \<Rightarrow> io \<Rightarrow> byte list \<Rightarrow> io \<Rightarrow> bool" where
  "emitted buffer data r io buffer' io' \<longleftrightarrow>
     io_recvs io' = io_recvs io \<and>
     (\<exists>k. io_sent io' = io_sent io @ take k (buffer @ data)) \<and>
     (r = Inr () \<longrightarrow> io_sent io' @ buffer' = io_sent io @ buffer @ data)"

lemma write_exact_emits:
  "write_exact data io = (r, io') \<Longrightarrow> emitted [] data r io [] io'"
proof (induction data io rule: write_exact.induct)
  case (1 data io)
  note here = "1.prems" [unfolded write_exact.simps [of data io]]
  consider (stop) "r \<noteq> Inr ()" "io' = io" | (nil) "data = []" "r = Inr ()" "io' = io"
    | (skip) a as where "data \<noteq> []" "io_ticks io \<noteq> 0" "io_sends io = a # as"
        "a = S_intr \<or> (\<exists>p x. a = S_again p \<and> await_ready p = Inr x)"
        "write_exact data (tick io\<lparr>io_sends := as\<rparr>) = (r, io')"
    | (wrote) n as w where "data \<noteq> []" "io_ticks io \<noteq> 0" "io_sends io = S_written n # as"
        "w = min n (length data)" "w \<noteq> 0"
        "write_exact (drop w data) (tick io\<lparr>io_sends := as, io_sent := io_sent io @ take w data\<rparr>) = (r, io')"
    using here by (auto simp: Let_def dest!: sym [of "Inl _"] split: if_splits list.splits send_answer.splits sum.splits)
  then show ?case
  proof cases
    case stop
    then show ?thesis by (auto simp: emitted_def intro: exI [of _ 0])
  next
    case nil
    then show ?thesis by (auto simp: emitted_def)
  next
    case skip
    then have "emitted [] data r (tick io\<lparr>io_sends := as\<rparr>) [] io'" using "1.IH" by blast
    then show ?thesis by (simp add: emitted_def)
  next
    case wrote
    from "1.IH"(1) [OF wrote(1-3) refl wrote(4,5,6)] obtain k where
      "io_sent io' = io_sent io @ take w data @ take k (drop w data)"
      "r = Inr () \<longrightarrow> io_sent io' = io_sent io @ data" "io_recvs io' = io_recvs io"
      by (auto simp: emitted_def)
    moreover have "take w data @ take k (drop w data) = take (w + k) data"
      using wrote(4) by (simp add: take_add)
    ultimately show ?thesis by (auto simp: emitted_def)
  qed
qed


lemma emitted_seq:
  assumes "emitted b a (Inr ()) io b1 io1" "emitted b1 c r io1 b2 io2"
  shows "emitted b (a @ c) r io b2 io2"
proof -
  from assms(1) obtain x where x: "io_sent io1 = io_sent io @ x" "io_sent io1 @ b1 = io_sent io @ b @ a"
    by (auto simp: emitted_def)
  then have ba: "(b @ a) @ c = x @ b1 @ c" by simp
  from assms(2) obtain k where "io_sent io2 = io_sent io1 @ take k (b1 @ c)" by (auto simp: emitted_def)
  then have "io_sent io2 = io_sent io @ take (length x + k) ((b @ a) @ c)"
    using x(1) unfolding ba by simp
  then have "\<exists>k. io_sent io2 = io_sent io @ take k (b @ a @ c)" unfolding append_assoc by blast
  then show ?thesis using assms x(2) unfolding emitted_def by auto
qed

lemma emitted_fail: "emitted b a (Inl e) io b1 io1 \<Longrightarrow> emitted b (a @ c) (Inl e) io b2 io1"
proof -
  assume "emitted b a (Inl e) io b1 io1"
  then obtain k where "io_sent io1 = io_sent io @ take k (b @ a)" "io_recvs io1 = io_recvs io"
    by (auto simp: emitted_def)
  moreover have "take k (b @ a) = take (min k (length (b @ a))) (b @ a @ c)"
    by (simp add: min_def)
  ultimately have "\<exists>k. io_sent io1 = io_sent io @ take k (b @ a @ c)" by metis
  then show ?thesis using \<open>io_recvs io1 = io_recvs io\<close> unfolding emitted_def by simp
qed

lemma emitted_buffer: "emitted b d (Inr ()) io (b @ d) io"
  by (auto simp: emitted_def intro: exI [of _ 0])

lemma out_flush_emits:
  assumes "out_flush b io = (r, b', io')"
  shows "emitted b [] r io b' io'" "r = Inr () \<Longrightarrow> b' = []"
  using assms write_exact_emits [of b io]
  by (auto simp: out_flush_def emitted_def split: prod.splits sum.splits intro: exI [of _ "length b"])


lemma out_fill_step:
  assumes "data \<noteq> []" "int (length b) < BUFFER_SIZE"
  obtains c where "0 < c" "c \<le> length data" "int (length (b @ take c data)) \<le> BUFFER_SIZE"
    "out_fill data b io =
       (if int (length (b @ take c data)) = BUFFER_SIZE
        then (case out_flush (b @ take c data) io of
                (Inl e, b, io) \<Rightarrow> (Inl e, b, io) | (Inr _, b, io) \<Rightarrow> out_fill (drop c data) b io)
        else out_fill (drop c data) (b @ take c data) io)"
proof -
  define c where "c = (if int (length data) \<le> BUFFER_SIZE - int (length b) then length data
                      else nat (BUFFER_SIZE - int (length b)))"
  have "0 < c" "c \<le> length data" "int (length (b @ take c data)) \<le> BUFFER_SIZE"
    using assms by (auto simp: c_def)
  then show thesis
    by (rule that) (use assms in \<open>subst out_fill.simps, simp add: c_def [symmetric] Let_def\<close>)
qed

lemma out_fill_emits:
  "out_fill data b io = (r, b', io') \<Longrightarrow> int (length b) < BUFFER_SIZE \<Longrightarrow>
   emitted b data r io b' io' \<and> (r = Inr () \<longrightarrow> int (length b') < BUFFER_SIZE)"
proof (induction "length data" arbitrary: data b io rule: less_induct)
  case less
  show ?case
  proof (cases "data = []")
    case True
    then show ?thesis using less.prems emitted_buffer [of b "[]" io] by (auto simp: out_fill.simps)
  next
    case False
    obtain c where c: "0 < c" "c \<le> length data" "int (length (b @ take c data)) \<le> BUFFER_SIZE"
      "out_fill data b io =
       (if int (length (b @ take c data)) = BUFFER_SIZE
        then (case out_flush (b @ take c data) io of
                (Inl e, b, io) \<Rightarrow> (Inl e, b, io) | (Inr _, b, io) \<Rightarrow> out_fill (drop c data) b io)
        else out_fill (drop c data) (b @ take c data) io)"
      by (rule out_fill_step [OF False less.prems(2)])
    have shorter: "length (drop c data) < length data" using c(1,2) by simp
    have data: "data = take c data @ drop c data" by simp
    show ?thesis
    proof (cases "int (length (b @ take c data)) = BUFFER_SIZE")
      case full: True
      obtain r1 b1 io1 where f: "out_flush (b @ take c data) io = (r1, b1, io1)" by (metis prod_cases3)
      note e1 = emitted_seq [OF emitted_buffer out_flush_emits(1) [OF f], simplified]
      show ?thesis
      proof (cases r1)
        case (Inl x)
        then have "r = Inl x" "io' = io1" using less.prems(1) c(4) full f by auto
        then show ?thesis using emitted_fail [OF e1 [unfolded Inl], of "drop c data" b'] data by simp
      next
        case (Inr u)
        then have ok: "r1 = Inr ()" by simp
        then have run: "out_fill (drop c data) b1 io1 = (r, b', io')" "b1 = []"
          using less.prems(1) c(4) full f out_flush_emits(2) [OF f] by auto
        from less.hyps [OF shorter run(1)] run(2)
        show ?thesis using emitted_seq [OF e1 [unfolded ok], of "drop c data"] by auto
      qed
    next
      case False
      then have run: "out_fill (drop c data) (b @ take c data) io = (r, b', io')"
        using less.prems(1) c(4) by auto
      from less.hyps [OF shorter run] False c(3)
      show ?thesis using emitted_seq [OF emitted_buffer [of b "take c data" io], of "drop c data"] by auto
    qed
  qed
qed


lemma out_append_emits:
  assumes "out_append data b io = (r, b', io')" "int (length b) < BUFFER_SIZE"
  shows "emitted b data r io b' io' \<and> (r = Inr () \<longrightarrow> int (length b') < BUFFER_SIZE)"
proof (cases "BUFFER_SIZE \<le> int (length data)")
  case True
  obtain r1 b1 io1 where f: "out_flush b io = (r1, b1, io1)" by (metis prod_cases3)
  note e1 = out_flush_emits [OF f]
  show ?thesis
  proof (cases r1)
    case (Inl x)
    then have "r = Inl x" "io' = io1" using assms(1) True f by (auto simp: out_append_def)
    then show ?thesis using emitted_fail [OF e1(1) [unfolded Inl], of data b'] by simp
  next
    case (Inr u)
    then have ok: "r1 = Inr ()" by simp
    then have "write_exact data io1 = (r, io')" "b' = []" "b1 = []"
      using assms(1) True f e1(2) by (auto simp: out_append_def split: prod.splits)
    then show ?thesis using emitted_seq [OF e1(1) [unfolded ok], of data r "[]" io'] write_exact_emits by simp
  qed
next
  case False
  then show ?thesis using out_fill_emits [of data b io r b' io'] assms by (simp add: out_append_def)
qed


lemma out_all_emits:
  "out_all ds b io = (r, b', io') \<Longrightarrow> int (length b) < BUFFER_SIZE \<Longrightarrow>
   emitted b (concat ds) r io b' io' \<and> (r = Inr () \<longrightarrow> b' = [])"
proof (induction ds arbitrary: b io)
  case Nil
  then show ?case using out_flush_emits [of b io r b' io'] by simp
next
  case (Cons d ds)
  obtain r1 b1 io1 where f: "out_append d b io = (r1, b1, io1)" by (metis prod_cases3)
  from out_append_emits [OF f Cons.prems(2)] have e1: "emitted b d r1 io b1 io1"
    "r1 = Inr () \<Longrightarrow> int (length b1) < BUFFER_SIZE" by auto
  show ?case
  proof (cases r1)
    case (Inl x)
    then have "r = Inl x" "io' = io1" using Cons.prems(1) f by auto
    then show ?thesis using emitted_fail [OF e1(1) [unfolded Inl], of "concat ds" b'] by simp
  next
    case (Inr u)
    then have ok: "r1 = Inr ()" by simp
    then have "out_all ds b1 io1 = (r, b', io')" using Cons.prems(1) f by simp
    from Cons.IH [OF this e1(2) [OF ok]] show ?thesis
      using emitted_seq [OF e1(1) [unfolded ok], of "concat ds" r b' io'] by simp
  qed
qed


section \<open>Frames\<close>

definition frame :: "message \<Rightarrow> byte list" where
  "frame m = frame_header m (length (enc_message m)) @ enc_message m"

lemma length_frame_header [simp]: "length (frame_header m n) = 16"
  by (simp add: frame_header_def)

lemma send_frame_sends:
  assumes "send_frame lim m io = (r, io')"
  shows "(\<exists>k. io_sent io' = io_sent io @ take k (frame m)) \<and>
     (r = Inr () \<longrightarrow> io_sent io' = io_sent io @ frame m \<and> sendable lim m \<and>
       length (enc_message m) \<le> l_max_frame_bytes lim)"
proof (cases "encode lim m (0, [])")
  case (Inl e)
  then show ?thesis using assms by (auto simp: send_frame_def intro: exI [of _ 0])
next
  case (Inr w)
  then obtain pieces where e: "encode lim m (0, []) = Inr (length (enc_message m), pieces)"
    "concat pieces = enc_message m" "length (enc_message m) \<le> l_max_frame_bytes lim" "sendable lim m"
    using encode_ok [of lim m "fst w" "snd w"] by (cases w) auto
  obtain r1 b1 io1 where
    out: "out_all (frame_header m (length (enc_message m)) # pieces) [] io = (r1, b1, io1)" by (metis prod_cases3)
  have em: "emitted [] (frame m) r1 io b1 io1" "r1 = Inr () \<longrightarrow> b1 = []"
    using out_all_emits [OF out] e(2) by (auto simp: frame_def)
  have "io_sent io' = io_sent io1" "r = Inr () \<Longrightarrow> r1 = Inr ()"
    using assms e(1) out by (auto simp: send_frame_def split: sum.splits if_splits)
  then show ?thesis using em e(3,4) by (auto simp: emitted_def)
qed


lemma header_fields:
  "number (take 4 (frame_header m n)) = wire_magic"
  "number (take 2 (drop 4 (frame_header m n))) = wire_version"
  "number (take 2 (drop 6 (frame_header m n))) = message_type m"
  "number (drop 8 (frame_header m n)) = (of_nat n :: u64)"
  by (simp_all add: frame_header_def number_little message_type_def)

lemma header_canonical:
  assumes "length h = 16" "number (take 4 h) = wire_magic" "number (take 2 (drop 4 h)) = wire_version"
    "number (take 2 (drop 6 h)) = message_type m" "number (drop 8 h) = (of_nat n :: u64)"
  shows "h = frame_header m n"
proof -
  have "little wire_magic = take 4 h" "little wire_version = take 2 (drop 4 h)"
    "little (message_type m) = take 2 (drop 6 h)" "little (of_nat n :: u64) = drop 8 h"
    using assms(1) by (simp_all add: little_number flip: assms(2-))
  then have "frame_header m n = take 4 h @ take 2 (drop 4 h) @ take 2 (drop 6 h) @ drop 8 h"
    by (simp add: frame_header_def message_type_def)
  also have "\<dots> = take 8 h @ drop 8 h"
    using take_add [of 4 2 h] take_add [of 6 2 h] by simp
  finally show ?thesis by simp
qed

lemma message_type_range: "\<not> (message_type m < 1 \<or> 6 < message_type m)"
  by (cases m) simp_all

lemma receive_frame_reads:
  assumes "message_ok lim m" "length (enc_message m) \<le> l_max_frame_bytes lim" "l_max_frame_bytes lim < 2 ^ 64"
    and "ready buffer io" "in_stream buffer io = frame m @ rest"
  shows "\<exists>buffer' io'. receive_frame lim buffer io = Inr (Some m, buffer', io') \<and> in_stream buffer' io' = rest"
proof -
  let ?n = "length (enc_message m)"
  have "in_stream buffer io = frame_header m ?n @ enc_message m @ rest" using assms(5) by (simp add: frame_def)
  from input_read_delivers [OF assms(4) this length_frame_header, of True "[]"] obtain b1 io1 where
    1: "input_read 16 True [] buffer io = Inr (Some (frame_header m ?n), b1, io1)" "ready b1 io1"
      "in_stream b1 io1 = enc_message m @ rest" by auto
  have u: "uint (of_nat ?n :: u64) = int ?n" using assms(2,3) by (intro uint_of_nat_u64) simp
  obtain b2 io2 where 2: "decode lim (message_type m) (?n, b1, io1) = Inr (m, ?n - ?n, b2, io2)"
    "ready b2 io2" "in_stream b2 io2 = rest"
    by (rule decodesE [OF decodes_message [OF assms(1)] 1(2,3) order_refl])
  have "io_ticks io2 \<noteq> 0" using 2(2) by (simp add: ready_def)
  then have "receive_frame lim buffer io = Inr (Some m, b2, tick io2)"
    using 2(1) message_type_range [of m] assms(2) unfolding receive_frame_def 1(1)
    by (simp add: header_fields u wire_version_def)
  then show ?thesis using 2(3) by (simp add: in_stream_def)
qed

lemma receive_frame_exact:
  assumes "receive_frame lim buffer io = Inr (Some m, buffer', io')"
  shows "message_ok lim m \<and> length (enc_message m) \<le> l_max_frame_bytes lim \<and>
    in_stream buffer io = frame m @ in_stream buffer' io'"
proof -
  from assms obtain h b1 io1 b2 io2 where
    1: "input_read 16 True [] buffer io = Inr (Some h, b1, io1)"
    and head: "number (take 4 h) = wire_magic" "number (take 2 (drop 4 h)) = wire_version"
    and n: "uint (number (drop 8 h) :: u64) \<le> int (l_max_frame_bytes lim)"
    and 2: "decode lim (number (take 2 (drop 6 h))) (nat (uint (number (drop 8 h) :: u64)), b1, io1) = Inr (m, 0, b2, io2)"
    and out: "buffer' = b2" "io' = tick io2"
    by (auto simp: receive_frame_def andthen_Inr Let_def split: if_splits option.splits)
  from input_read_consumes [OF 1] have h: "length h = 16" "in_stream buffer io = h @ in_stream b1 io1" by auto
  from exactly_message [unfolded exactly_def, rule_format, OF 2] have m: "message_ok lim m"
    "number (take 2 (drop 6 h)) = message_type m"
    "took (nat (uint (number (drop 8 h) :: u64)), b1, io1) (enc_message m) (0, b2, io2)" by auto
  then have len: "length (enc_message m) = nat (uint (number (drop 8 h) :: u64))"
    and s: "in_stream b1 io1 = enc_message m @ in_stream b2 io2" by (simp_all add: took_def)
  have "h = frame_header m (length (enc_message m))"
    by (rule header_canonical [OF h(1) head m(2)]) (simp add: len)
  moreover have "length (enc_message m) \<le> l_max_frame_bytes lim" unfolding len using n by linarith
  ultimately show ?thesis using m(1) h(2) s out by (simp add: frame_def in_stream_def)
qed

section \<open>Properties\<close>

text \<open>
  C15. Round trip. A message that one channel sends without throwing is the message that the other
  channel receives, however the kernel cuts the frame into pieces on both sides, with whatever
  follows it left in the stream: the messages are valid (the actor and choice numbers are in the
  range of the type they are cast from), the receiver has the sender's limits, and it gets the
  bytes before its deadline.
\<close>

theorem wire_roundtrip:
  assumes "channel_send m tx io = (Inr (), tx', io')" "message_ok (ch_limits tx) m"
    and "ch_limits rx = ch_limits tx" "l_max_frame_bytes (ch_limits rx) < 2 ^ 64" "\<not> ch_failed rx" "0 \<le> ch_fd rx"
    and "ready (ch_input rx) in_io"
    and "in_stream (ch_input rx) in_io = drop (length (io_sent io)) (io_sent io') @ rest"
  shows "\<exists>buffer in_io'. channel_receive rx in_io = (Inr (Some m), rx\<lparr>ch_input := buffer\<rparr>, in_io') \<and>
    in_stream buffer in_io' = rest"
proof -
  have "send_frame (ch_limits tx) m io = (Inr (), io')"
    using assms(1) by (auto simp: channel_send_def split: if_splits prod.splits sum.splits)
  from send_frame_sends [OF this] have "io_sent io' = io_sent io @ frame m"
    "length (enc_message m) \<le> l_max_frame_bytes (ch_limits rx)" by (auto simp: assms(3))
  then have "\<exists>b io2. receive_frame (ch_limits rx) (ch_input rx) in_io = Inr (Some m, b, io2) \<and> in_stream b io2 = rest"
    using assms(2-8) by (intro receive_frame_reads) auto
  then show ?thesis using assms(5,6) by (auto simp: channel_receive_def)
qed

definition ex_limits :: limits where
  "ex_limits = \<lparr>l_max_frame_bytes = 200, l_max_blob_bytes = 100, l_max_metadata_bytes = 100, l_max_blobs = 10,
     l_max_text_bytes = 100\<rparr>"

definition ex_edge :: message where
  "ex_edge = M_Edge \<lparr>ed_lease_id = 7, ed_source = 258, ed_target = 515,
     ed_actor = \<lparr>aa_process = 1, aa_thread = 2, aa_action = TA_Timeout\<rparr>, ed_choice = - 1, ed_choice_count = 0,
     ed_property_violation = True, ed_result_code = CKPT_YES,
     ed_bundle = \<lparr>bu_version = 1, bu_system_key = 9, bu_metadata = [1, 2, 3],
       bu_blobs = [\<lparr>b_key = 4, b_bytes = [5, 6]\<rparr>, \<lparr>b_key = 8, b_bytes = []\<rparr>]\<rparr>\<rparr>"

definition ex_channel :: channel where
  "ex_channel = \<lparr>ch_fd = 3, ch_limits = ex_limits, ch_failed = False, ch_input = []\<rparr>"

definition ex_io :: io where
  "ex_io = \<lparr>io_ticks = 9, io_sends = [S_intr, S_written 10, S_again P_ready, S_written 500], io_recvs = [], io_sent = []\<rparr>"

definition ex_cut :: "byte list \<Rightarrow> io" where
  "ex_cut bs = \<lparr>io_ticks = 500, io_sends = [], io_recvs = [R_data (take 3 bs), R_intr, R_data (drop 3 bs)], io_sent = []\<rparr>"

abbreviation (input) "ex_sent \<equiv> io_sent (snd (snd (channel_send ex_edge ex_channel ex_io)))"

lemma ex_send: "channel_send ex_edge ex_channel ex_io =
    (Inr (), fst (snd (channel_send ex_edge ex_channel ex_io)), snd (snd (channel_send ex_edge ex_channel ex_io)))"
proof -
  have "fst (channel_send ex_edge ex_channel ex_io) = Inr ()" by code_simp
  then show ?thesis by (metis prod.collapse)
qed

lemma ex_edge_ok: "message_ok ex_limits ex_edge"
  by (simp add: ex_edge_def ex_limits_def edge_ok_def choice_ok_def bundle_ok_def sized_ok_def blobs_ok_def)

lemma ex_cut_ready: "ready [] (ex_cut ex_sent)" "in_stream [] (ex_cut ex_sent) = ex_sent"
  by code_simp (simp add: ex_cut_def in_stream_def)

theorem wire_roundtrip_witness:
  "\<exists>buffer in_io'. channel_receive ex_channel (ex_cut ex_sent) =
     (Inr (Some ex_edge), ex_channel\<lparr>ch_input := buffer\<rparr>, in_io') \<and> in_stream buffer in_io' = []"
  using wire_roundtrip [OF ex_send, of ex_channel "ex_cut ex_sent" "[]"] ex_edge_ok ex_cut_ready
  by (simp add: ex_channel_def ex_limits_def ex_io_def)

text \<open>
  C16. A receiver accepts nothing but frames that a sender could have written: when a call returns a
  message, the stream began with exactly the frame of that message, the message is valid and within
  the limits, and the stream is left right after the frame. So a channel never resynchronises in the
  middle of a frame and no two encodings stand for one message.
\<close>

theorem receive_canonical:
  assumes "channel_receive ch io = (Inr (Some m), ch', io')"
  shows "message_ok (ch_limits ch) m \<and> length (enc_message m) \<le> l_max_frame_bytes (ch_limits ch) \<and>
    in_stream (ch_input ch) io = frame m @ in_stream (ch_input ch') io' \<and> \<not> ch_failed ch'"
proof -
  from assms have run: "receive_frame (ch_limits ch) (ch_input ch) io = Inr (Some m, ch_input ch', io')"
    "\<not> ch_failed ch'"
    by (auto simp: channel_receive_def split: if_splits sum.splits prod.splits option.splits)
  from receive_frame_exact [OF run(1)] run(2) show ?thesis by simp
qed

definition ex_done :: message where
  "ex_done = M_Done \<lparr>dn_lease_id = 3, dn_source = 4, dn_kind = DK_DepthCut, dn_emitted = 5\<rparr>"

definition ex_done_io :: io where
  "ex_done_io = ex_cut (little wire_magic @ little wire_version @ little (4 :: u16) @ little (25 :: u64) @
     little (3 :: u64) @ little (4 :: u64) @ [2] @ little (5 :: u64) @ [9, 9])"

theorem receive_canonical_witness:
  "fst (channel_receive ex_channel ex_done_io) = Inr (Some ex_done) \<and>
   in_stream [] ex_done_io =
     frame ex_done @ in_stream (ch_input (fst (snd (channel_receive ex_channel ex_done_io))))
       (snd (snd (channel_receive ex_channel ex_done_io)))"
proof -
  have 1: "fst (channel_receive ex_channel ex_done_io) = Inr (Some ex_done)" by code_simp
  then have "channel_receive ex_channel ex_done_io =
      (Inr (Some ex_done), fst (snd (channel_receive ex_channel ex_done_io)),
       snd (snd (channel_receive ex_channel ex_done_io)))"
    by (metis prod.collapse)
  from receive_canonical [OF this] 1 show ?thesis by (simp add: ex_channel_def)
qed

text \<open>
  C17. The write buffer is transparent: what a call of \<open>send\<close> puts on the stream is always a prefix
  of the frame of its message, the whole frame when it returns, nothing at all when the message breaks
  a limit, and when it throws the channel is unusable from then on. Hence a stream is a sequence of whole
  frames, the last one perhaps cut.
\<close>

theorem send_writes_frame:
  assumes "channel_send m ch io = (r, ch', io')"
  shows "(\<exists>k. io_sent io' = io_sent io @ take k (frame m)) \<and>
    (r = Inr () \<longrightarrow> io_sent io' = io_sent io @ frame m \<and> ch' = ch) \<and>
    (r \<noteq> Inr () \<longrightarrow> ch_failed ch' \<or> ch_fd ch' < 0) \<and>
    (\<not> sendable (ch_limits ch) m \<or> l_max_frame_bytes (ch_limits ch) < length (enc_message m) \<longrightarrow>
       r \<noteq> Inr () \<and> io_sent io' = io_sent io)"
proof (cases "ch_failed ch \<or> ch_fd ch < 0")
  case True
  then show ?thesis using assms by (auto simp: channel_send_def intro: exI [of _ 0])
next
  case False
  obtain r1 io1 where s: "send_frame (ch_limits ch) m io = (r1, io1)" by fastforce
  have out: "io' = io1" "r = r1" "r1 = Inr () \<longrightarrow> ch' = ch" "r1 \<noteq> Inr () \<longrightarrow> ch_failed ch'"
    using assms False s by (auto simp: channel_send_def split: sum.splits)
  have "r1 \<noteq> Inr () \<and> io1 = io"
    if "\<not> sendable (ch_limits ch) m \<or> l_max_frame_bytes (ch_limits ch) < length (enc_message m)"
    using that s encode_writes [of "ch_limits ch" m "(0, [])"]
    by (auto simp: send_frame_def writes_at_def split: if_splits)
  then show ?thesis using send_frame_sends [OF s] out by auto
qed

theorem send_writes_frame_witness:
  "io_sent (snd (snd (channel_send ex_edge ex_channel ex_io))) = frame ex_edge"
  using send_writes_frame [OF ex_send] by (simp add: ex_io_def)




end
