(* ===== verification/Guest.thy ===== *)
theory Guest
  imports Linux_Abi
begin

text \<open>
  Exact transfers between the simulator and the memory of a traced process:
  \<open>src/src/core/guest.cpp\<close>, \<open>guest_transfer_exact\<close> and its two callers. The system calls
  \<open>process_vm_readv\<close> and \<open>process_vm_writev\<close> are parameters, as the record \<open>guest\<close> of the functions
  below on an arbitrary type of memories: what a read of \<open>size\<close> bytes returns (nothing on an error),
  and how many bytes a write transfers together with the memory it leaves, which may hold a part of
  the bytes even on failure. A call that is interrupted is repeated, so the record stands for the
  first answer that is not \<open>EINTR\<close>. The list of pages that the checkpoints track is not modelled.
\<close>

record 'm guest =
  vm_readv :: "int \<Rightarrow> u64 \<Rightarrow> nat \<Rightarrow> 'm \<Rightarrow> byte list option"
  vm_writev :: "int \<Rightarrow> u64 \<Rightarrow> byte list \<Rightarrow> 'm \<Rightarrow> nat option \<times> 'm"

abbreviation (input) SSIZE_MAX :: int where "SSIZE_MAX \<equiv> 9223372036854775807"
abbreviation (input) UINTPTR_MAX :: int where "UINTPTR_MAX \<equiv> 18446744073709551615"

definition transfer_refused :: "int \<Rightarrow> u64 \<Rightarrow> nat \<Rightarrow> bool" where
  "transfer_refused pid address n \<longleftrightarrow>
     pid \<le> 0 \<or> address = 0 \<or> SSIZE_MAX < int n \<or> UINTPTR_MAX - uint address < int n"

definition guest_read_exact :: "'m guest \<Rightarrow> int \<Rightarrow> u64 \<Rightarrow> nat \<Rightarrow> 'm \<Rightarrow> byte list option" where
  "guest_read_exact G pid address n m =
     (if n = 0 then Some []
      else if transfer_refused pid address n then None
      else (case vm_readv G pid address n m of
              None \<Rightarrow> None
            | Some bs \<Rightarrow> if length bs = n then Some bs else None))"

definition guest_write_exact :: "'m guest \<Rightarrow> int \<Rightarrow> u64 \<Rightarrow> byte list \<Rightarrow> 'm \<Rightarrow> bool \<times> 'm" where
  "guest_write_exact G pid address bs m =
     (if bs = [] then (True, m)
      else if transfer_refused pid address (length bs) then (False, m)
      else (case vm_writev G pid address bs m of
              (None, m) \<Rightarrow> (False, m)
            | (Some n, m) \<Rightarrow> (n = length bs, m)))"

lemma guest_read_length: "guest_read_exact G pid address n m = Some bs \<Longrightarrow> length bs = n"
  by (auto simp: guest_read_exact_def split: if_splits option.splits)

text \<open>A flat memory, on which the system calls succeed inside its range: the concrete examples use it.\<close>

record flat =
  fl_base :: u64
  fl_cells :: "byte list"

definition flat_offset :: "u64 \<Rightarrow> flat \<Rightarrow> nat" where
  "flat_offset address m = nat (uint address - uint (fl_base m))"

definition flat_inside :: "u64 \<Rightarrow> nat \<Rightarrow> flat \<Rightarrow> bool" where
  "flat_inside address n m \<longleftrightarrow> uint (fl_base m) \<le> uint address \<and>
     uint address + int n \<le> uint (fl_base m) + int (length (fl_cells m))"

definition flat_guest :: "flat guest" where
  "flat_guest =
     \<lparr>vm_readv = (\<lambda>pid address n m.
        if flat_inside address n m then Some (take n (drop (flat_offset address m) (fl_cells m))) else None),
      vm_writev = (\<lambda>pid address bs m.
        if flat_inside address (length bs) m
        then (Some (length bs), m\<lparr>fl_cells := take (flat_offset address m) (fl_cells m) @ bs @
                drop (flat_offset address m + length bs) (fl_cells m)\<rparr>)
        else (None, m))\<rparr>"

section \<open>Faithful memory\<close>

text \<open>What the transfers rely on: a completed write can be read back.\<close>

definition faithful_guest :: "'m guest \<Rightarrow> bool" where
  "faithful_guest G \<longleftrightarrow> (\<forall>pid a bs m m'. guest_write_exact G pid a bs m = (True, m') \<longrightarrow>
     guest_read_exact G pid a (length bs) m' = Some bs)"

lemma faithful_flat: "faithful_guest flat_guest"
  unfolding faithful_guest_def
proof (intro allI impI)
  fix pid a bs m m' assume w: "guest_write_exact flat_guest pid a bs m = (True, m')"
  show "guest_read_exact flat_guest pid a (length bs) m' = Some bs"
  proof (cases "bs = []")
    case False
    let ?o = "flat_offset a m"
    have i: "flat_inside a (length bs) m" "\<not> transfer_refused pid a (length bs)"
      "m' = m\<lparr>fl_cells := take ?o (fl_cells m) @ bs @ drop (?o + length bs) (fl_cells m)\<rparr>"
      using w False by (auto simp: guest_write_exact_def flat_guest_def split: if_splits)
    have o: "?o + length bs \<le> length (fl_cells m)" using i(1) unfolding flat_inside_def flat_offset_def by linarith
    then have "flat_offset a m' = ?o" "flat_inside a (length bs) m'"
      using i(1) by (simp_all add: i(3) flat_offset_def flat_inside_def)
    then show ?thesis using False i o by (simp add: guest_read_exact_def flat_guest_def)
  qed (simp add: guest_read_exact_def)
qed

section \<open>Byte channels\<close>

text \<open>
  What a pipe and a connection promise, as an interface: every call moves bytes that it sends to the
  end of those that are pending and bytes that it receives from their front. So nothing is lost,
  duplicated or reordered in a run of calls.
\<close>

locale byte_channel =
  fixes exec :: "'c \<Rightarrow> 's \<Rightarrow> 's"
    and ok :: "'s \<Rightarrow> bool"
    and sent :: "'s \<Rightarrow> byte list"
    and received :: "'s \<Rightarrow> byte list"
    and pending :: "'s \<Rightarrow> byte list"
  assumes exec_ok: "ok s \<Longrightarrow> ok (exec c s)"
    and exec_moves: "ok s \<Longrightarrow> \<exists>a b. sent (exec c s) = sent s @ a \<and> received (exec c s) = received s @ b \<and>
      pending s @ a = b @ pending (exec c s)"
begin

lemma run_ok: "ok s \<Longrightarrow> ok (fold exec cs s)"
  by (induction cs arbitrary: s) (auto simp: exec_ok)

lemma run_moves: "ok s \<Longrightarrow> initial @ sent s = received s @ pending s \<Longrightarrow>
  initial @ sent (fold exec cs s) = received (fold exec cs s) @ pending (fold exec cs s)"
proof (induction cs arbitrary: s)
  case (Cons c cs)
  obtain a b where m: "sent (exec c s) = sent s @ a" "received (exec c s) = received s @ b"
    "pending s @ a = b @ pending (exec c s)" using exec_moves [OF Cons.prems(1)] by blast
  have "initial @ sent (exec c s) = received s @ pending s @ a" unfolding m(1) append_assoc [symmetric] Cons.prems(2) by simp
  also have "\<dots> = received (exec c s) @ pending (exec c s)" unfolding m(2,3) by simp
  finally show ?case using Cons.IH [OF exec_ok [OF Cons.prems(1)]] by simp
qed simp

lemma run_fifo:
  assumes "ok s" "sent s = []" "received s = []"
  shows "pending s @ sent (fold exec cs s) = received (fold exec cs s) @ pending (fold exec cs s)"
  using run_moves [OF assms(1), of "pending s"] assms(2,3) by simp

end

end
