(* ===== verification/Vfs.thy ===== *)
theory Vfs
  imports Guest Fd_Manager "HOL-Library.Char_ord" "HOL-Library.List_Lexorder"
begin

text \<open>
  The virtual file system of one process: \<open>src/src/subsys/fs/fsstate.h\<close> and \<open>fsstate.cpp\<close>, class
  \<open>FileSystemState\<close>, in the configuration the sources build (without
  \<open>FSSTATE_DETAILED_METADATA\<close>). A path is a string, a file its bytes. The descriptor table
  \<open>fd_manager_\<close>, which the class shares with the sockets, is passed and returned separately; it is
  attached before any operation runs, so the branches for a missing table are left out. The hash of
  a path is the parameter \<open>hash\<close>, and the modelled time of the process the parameter \<open>now\<close>.
\<close>

unbundle bit_operations_syntax

section \<open>Constants\<close>

abbreviation (input) O_PATH :: int where "O_PATH \<equiv> 0x200000"
abbreviation (input) O_TMPFILE :: int where "O_TMPFILE \<equiv> 0x410000"
abbreviation (input) AT_FDCWD :: int where "AT_FDCWD \<equiv> - 100"
abbreviation (input) AT_SYMLINK_NOFOLLOW :: int where "AT_SYMLINK_NOFOLLOW \<equiv> 0x100"
abbreviation (input) AT_REMOVEDIR :: int where "AT_REMOVEDIR \<equiv> 0x200"
abbreviation (input) AT_EACCESS :: int where "AT_EACCESS \<equiv> 0x200"
abbreviation (input) AT_NO_AUTOMOUNT :: int where "AT_NO_AUTOMOUNT \<equiv> 0x800"
abbreviation (input) AT_EMPTY_PATH :: int where "AT_EMPTY_PATH \<equiv> 0x1000"
abbreviation (input) NAME_MAX :: nat where "NAME_MAX \<equiv> 255"
abbreviation (input) SEEK_SET :: int where "SEEK_SET \<equiv> 0"
abbreviation (input) SEEK_CUR :: int where "SEEK_CUR \<equiv> 1"
abbreviation (input) SEEK_END :: int where "SEEK_END \<equiv> 2"
abbreviation (input) OFF_MAX :: int where "OFF_MAX \<equiv> 9223372036854775807"
abbreviation (input) OFF_MIN :: int where "OFF_MIN \<equiv> - 9223372036854775808"

abbreviation (input) S_IFMT :: u32 where "S_IFMT \<equiv> 0xF000"
abbreviation (input) S_IFCHR :: u32 where "S_IFCHR \<equiv> 0x2000"
abbreviation (input) S_IFDIR :: u32 where "S_IFDIR \<equiv> 0x4000"
abbreviation (input) S_IFREG :: u32 where "S_IFREG \<equiv> 0x8000"
abbreviation (input) S_IFLNK :: u32 where "S_IFLNK \<equiv> 0xA000"
abbreviation (input) S_ISVTX :: u32 where "S_ISVTX \<equiv> 0x200"

definition S_ISDIR :: "u32 \<Rightarrow> bool" where "S_ISDIR m \<longleftrightarrow> m AND S_IFMT = S_IFDIR"
definition S_ISREG :: "u32 \<Rightarrow> bool" where "S_ISREG m \<longleftrightarrow> m AND S_IFMT = S_IFREG"
definition S_ISLNK :: "u32 \<Rightarrow> bool" where "S_ISLNK m \<longleftrightarrow> m AND S_IFMT = S_IFLNK"

section \<open>Data\<close>

type_synonym timespec = "int \<times> int"

record vfs_node =
  vn_content :: "byte list"
  vn_size :: int
  vn_mode :: u32
  vn_ino :: u64
  vn_mtim :: timespec

record open_file_description =
  of_path :: string
  of_offset :: int

record pipe =
  pi_buffer :: "byte list"
  pi_read_closed :: bool
  pi_write_closed :: bool

record fs_state =
  filesystem :: "(string, vfs_node) omap"
  open_files :: "(int, open_file_description) omap"
  virtual_file_mappings :: "(u64, u64) omap"
  virtual_file_mapping_sources :: "(u64, u64 \<times> string) omap"
  cwd :: string
  creation_mask :: u32
  next_inode :: u64
  pipes :: "(int, pipe) omap"
  pipe_fds :: "(int, int) omap"

definition string_of_bytes :: "byte list \<Rightarrow> string" where
  "string_of_bytes bs = map (\<lambda>b. char_of (unat b)) bs"

definition bytes_of_string :: "string \<Rightarrow> byte list" where
  "bytes_of_string s = map (\<lambda>c. of_nat (of_char c)) s"

definition modeled_fs_time :: "int \<Rightarrow> timespec list \<Rightarrow> timespec" where
  "modeled_fs_time cursor clocks =
     (if 0 \<le> cursor \<and> cursor < int (length clocks)
      then (fst (clocks ! nat cursor), snd (clocks ! nat cursor) * 1000) else (0, 0))"

section \<open>File contents\<close>

definition content_write :: "nat \<Rightarrow> byte list \<Rightarrow> byte list \<Rightarrow> byte list" where
  "content_write offset source bytes =
     (if source = [] then bytes
      else
        (let destination =
           (if length bytes < offset + length source
            then bytes @ replicate (offset + length source - length bytes) 0 else bytes)
         in take offset destination @ source @ drop (offset + length source) destination))"

definition content_resize :: "nat \<Rightarrow> byte list \<Rightarrow> byte list" where
  "content_resize n bytes = take n bytes @ replicate (n - length bytes) 0"

section \<open>Paths\<close>

definition join_paths :: "string \<Rightarrow> string \<Rightarrow> string" where
  "join_paths base rel =
     (if rel = [] then base
      else if hd rel = CHR ''/'' then rel
      else if base = [] \<or> base = ''/'' then ''/'' @ rel
      else (if last base \<noteq> CHR ''/'' then base @ ''/'' else base) @ rel)"

text \<open>
  \<open>find_last_of('/')\<close>: the position of the last slash; and the idiom
  \<open>slash == 0 ? "/" : path.substr(0, slash)\<close>, which keeps a path without a slash.
\<close>

definition find_last_slash :: "string \<Rightarrow> nat option" where
  "find_last_slash p =
     (let d = dropWhile (\<lambda>c. c \<noteq> CHR ''/'') (rev p)
      in if d = [] then None else Some (length d - 1))"

definition parent_of :: "string \<Rightarrow> string" where
  "parent_of p =
     (case find_last_slash p of None \<Rightarrow> p | Some 0 \<Rightarrow> ''/'' | Some n \<Rightarrow> take n p)"

function split_path :: "string \<Rightarrow> string list" where
  "split_path [] = []"
| "split_path (c # cs) =
     (if c = CHR ''/'' then split_path cs
      else (c # takeWhile (\<lambda>c. c \<noteq> CHR ''/'') cs) # split_path (dropWhile (\<lambda>c. c \<noteq> CHR ''/'') cs))"
  by pat_completeness auto
termination
  by (relation "measure length") (auto simp: le_imp_less_Suc length_dropWhile_le)

text \<open>\<open>resolve_path\<close>: the lexical normalisation of a path.\<close>

fun collapse :: "string list \<Rightarrow> string list \<Rightarrow> string list" where
  "collapse parts [] = parts"
| "collapse parts (part # rest) =
     (if part = ''.'' then collapse parts rest
      else if part = ''..'' then collapse (butlast parts) rest
      else collapse (parts @ [part]) rest)"

fun join_parts :: "string list \<Rightarrow> string" where
  "join_parts [] = []"
| "join_parts [p] = p"
| "join_parts (p # q # ps) = p @ ''/'' @ join_parts (q # ps)"

definition resolve_path :: "fs_state \<Rightarrow> int \<Rightarrow> string \<Rightarrow> exn + string" where
  "resolve_path fs dirfd path =
     (let normal = (\<lambda>base. ''/'' @ join_parts (collapse [] (split_path (join_paths base path))))
      in if path \<noteq> [] \<and> hd path = CHR ''/'' then Inr (normal [])
         else if dirfd = AT_FDCWD then Inr (normal (if cwd fs = [] then ''/'' else cwd fs))
         else (case map_of (open_files fs) dirfd of
                 None \<Rightarrow> Inl Out_of_range
               | Some d \<Rightarrow> Inr (normal (of_path d))))"

text \<open>
  \<open>resolve_path_checked\<close>: the walk over captured directories and links, one component at a time.
  Its result is an error number or a path. The walk follows at most forty links, so it ends.
\<close>

definition prepend :: "string \<Rightarrow> string list \<Rightarrow> string list" where
  "prepend value pending =
     split_path value @
     (if value \<noteq> [] \<and> last value = CHR ''/'' \<and> pending = [] then [[]] else []) @ pending"

function resolve_loop ::
  "(string, vfs_node) omap \<Rightarrow> bool \<Rightarrow> bool \<Rightarrow> bool \<Rightarrow> nat \<Rightarrow> string \<Rightarrow> string list \<Rightarrow> exn + (int + string)" where
  "resolve_loop files follow_final check_search creating links current [] = Inr (Inr current)"
| "resolve_loop files follow_final check_search creating links current (part # pending) =
     (case map_of files current of
        None \<Rightarrow> Inr (Inl (- ENOENT))
      | Some parent \<Rightarrow>
          if \<not> S_ISDIR (vn_mode parent) then Inr (Inl (- ENOTDIR))
          else if check_search \<and> vn_mode parent AND 0x49 \<noteq> 0x49
          then Inl (Runtime_error (''VFS search permission requires captured credentials: '' @ current))
          else if creating \<and> length pending = 1 \<and> last pending = [] then Inr (Inl (- EISDIR))
          else if NAME_MAX < length part then Inr (Inl (- ENAMETOOLONG))
          else if part = [] \<or> part = ''.''
          then resolve_loop files follow_final check_search creating links current pending
          else if part = ''..''
          then resolve_loop files follow_final check_search creating links (parent_of current) pending
          else
            (let nxt = join_paths current part
             in case map_of files nxt of
                  Some node \<Rightarrow>
                    if S_ISLNK (vn_mode node) \<and> (pending \<noteq> [] \<or> follow_final)
                    then
                      if 40 < links + 1 then Inr (Inl (- ELOOP))
                      else
                        (let target = string_of_bytes (vn_content node)
                         in if target = [] then Inr (Inl (- ENOENT))
                            else if CHR 0x00 \<in> set target
                            then Inl (Runtime_error (''Captured symlink contains a null byte: '' @ nxt))
                            else resolve_loop files follow_final check_search creating (links + 1)
                              (if hd target = CHR ''/'' then ''/'' else current)
                              (prepend target pending))
                    else resolve_loop files follow_final check_search creating links nxt pending
                | None \<Rightarrow> resolve_loop files follow_final check_search creating links nxt pending))"
  by pat_completeness auto
termination
  by (relation "measures [\<lambda>(files, f, cs, cr, links, current, pending). 40 - links,
                          \<lambda>(files, f, cs, cr, links, current, pending). length pending]")
    (auto simp: Let_def)

declare resolve_loop.simps(2) [simp del]

definition resolve_path_checked ::
  "fs_state \<Rightarrow> fd_manager \<Rightarrow> int \<Rightarrow> string \<Rightarrow> bool \<Rightarrow> bool \<Rightarrow> bool \<Rightarrow> exn + (int + string)" where
  "resolve_path_checked fs fdm dirfd path follow_final check_search creating =
     (if path = [] then Inr (Inl (- ENOENT))
      else
        (let walk = (\<lambda>current. resolve_loop (filesystem fs) follow_final check_search creating 0 current
                        (prepend path []))
         in if hd path = CHR ''/'' then walk ''/''
            else if dirfd = AT_FDCWD then walk (if cwd fs = [] then ''/'' else cwd fs)
            else if \<not> is_allocated dirfd fdm then Inr (Inl (- EBADF))
            else (case map_of (open_files fs) dirfd of
                    None \<Rightarrow> Inr (Inl (- ENOTDIR))
                  | Some d \<Rightarrow>
                      (case map_of (filesystem fs) (of_path d) of
                         None \<Rightarrow> Inl (Runtime_error ''Directory descriptor has no payload'')
                       | Some node \<Rightarrow>
                           if \<not> S_ISDIR (vn_mode node) then Inr (Inl (- ENOTDIR))
                           else walk (of_path d)))))"

end
