(* ===== verification/Vfs_Ops.thy ===== *)
theory Vfs_Ops
  imports Vfs
begin

text \<open>
  The file operations of \<open>FileSystemState\<close> (\<open>src/src/subsys/fs/fsstate.cpp\<close>) and the system call
  handlers of that file that bridge guest memory and the virtual file system. An operation returns
  its outcome and the file system and descriptor table it leaves; a negative number is an error.
\<close>

section \<open>Mapped files\<close>

definition mapped_file :: "fs_state \<Rightarrow> string \<Rightarrow> bool" where
  "mapped_file fs path \<longleftrightarrow> list_ex (\<lambda>(start, stop, source). source = path) (virtual_file_mapping_sources fs)"

definition require_unmapped_file :: "fs_state \<Rightarrow> string \<Rightarrow> exn option" where
  "require_unmapped_file fs path =
     (if mapped_file fs path
      then Some (Runtime_error ''Modification of a mapped virtual file is unsupported'') else None)"

section \<open>Construction\<close>

definition new_node :: vfs_node where
  "new_node = \<lparr>vn_content = [], vn_size = 0, vn_mode = 0, vn_ino = 0, vn_mtim = (0, 0)\<rparr>"

lemma find_last_slash_root [simp]: "find_last_slash ''/'' = Some 0"
  by (simp add: find_last_slash_def)

lemma find_last_slash_less:
  assumes "find_last_slash p = Some n"
  shows "n < length p"
proof -
  let ?d = "dropWhile (\<lambda>c. c \<noteq> CHR ''/'') (rev p)"
  have d: "?d \<noteq> []" "n = length ?d - 1"
    using assms by (auto simp: find_last_slash_def Let_def split: if_splits)
  have "length ?d \<le> length p" using length_dropWhile_le [of _ "rev p"] by simp
  moreover have "0 < length ?d" using d(1) by blast
  ultimately show ?thesis unfolding d(2) by linarith
qed

text \<open>\<open>ensure_dir_exists\<close> walks up to the root before it trusts or creates a directory.\<close>

function ensure_dir_exists :: "string \<Rightarrow> (string, vfs_node) omap \<Rightarrow> ((string, vfs_node) omap, unit) outcome" where
  "ensure_dir_exists path files =
     (case (case find_last_slash path of
              Some (Suc n) \<Rightarrow> ensure_dir_exists (take (Suc n) path) files
            | _ \<Rightarrow> if path \<noteq> ''/'' then ensure_dir_exists ''/'' files else (Inr (), files)) of
        (Inl e, files) \<Rightarrow> (Inl e, files)
      | (Inr _, files) \<Rightarrow>
          (case map_of files path of
             Some node \<Rightarrow>
               if S_ISDIR (vn_mode node) then (Inr (), files)
               else (Inl (Runtime_error (''VFS ancestor is not a directory: '' @ path)), files)
           | None \<Rightarrow> (Inr (), om_put path (new_node\<lparr>vn_mode := S_IFDIR OR 0x1ED\<rparr>) files)))"
  by pat_completeness auto
termination
  by (relation "measure (\<lambda>(path, files). if path = ''/'' then 0 else length path + 1)")
    (auto dest!: find_last_slash_less)

declare ensure_dir_exists.simps [simp del]

definition stdio_path :: "int \<Rightarrow> string" where
  "stdio_path fd = CHR 0x00 # ''stdio'' @ to_string fd"

definition new_fs_state :: fs_state where
  "new_fs_state =
     (let base = snd (ensure_dir_exists ''/'' []);
          streams = [0, 1, 2];
          files = fold (\<lambda>fd. om_emplace (stdio_path fd) (new_node\<lparr>vn_mode := S_IFCHR OR 0x180\<rparr>)) streams base;
          opened = fold (\<lambda>fd. om_emplace fd \<lparr>of_path = stdio_path fd, of_offset = 0\<rparr>) streams []
      in \<lparr>filesystem = files, open_files = opened, virtual_file_mappings = [],
          virtual_file_mapping_sources = [], cwd = [], creation_mask = 0x12, next_inode = 1,
          pipes = [], pipe_fds = []\<rparr>)"

definition set_creation_mask :: "u32 \<Rightarrow> fs_state \<Rightarrow> fs_state" where
  "set_creation_mask umask fs = fs\<lparr>creation_mask := umask AND 0x1FF\<rparr>"

definition set_cwd :: "string \<Rightarrow> fs_state \<Rightarrow> fs_state" where
  "set_cwd path fs =
     fs\<lparr>cwd := (if path = [] then ''/'' else if hd path = CHR ''/'' then path else join_paths (cwd fs) path)\<rparr>"

section \<open>Opening\<close>

abbreviation (input) guest_inode_limit :: u64 where "guest_inode_limit \<equiv> 0x8000000000000000"

type_synonym 'a fs_result = "(exn + 'a) \<times> fs_state \<times> fd_manager"

definition executable_path :: "fs_state \<Rightarrow> string option" where
  "executable_path fs =
     (case map_of (filesystem fs) ''/proc/self/exe'' of
        Some node \<Rightarrow> if S_ISLNK (vn_mode node) then Some (string_of_bytes (vn_content node)) else None
      | None \<Rightarrow> None)"

definition set_mtim :: "string \<Rightarrow> timespec \<Rightarrow> (string, vfs_node) omap \<Rightarrow> (string, vfs_node) omap" where
  "set_mtim path now files =
     (case map_of files path of None \<Rightarrow> files | Some n \<Rightarrow> om_put path (n\<lparr>vn_mtim := now\<rparr>) files)"

text \<open>The state changes of a successful open, after every check.\<close>

definition open_commit ::
  "timespec \<Rightarrow> string \<Rightarrow> int \<Rightarrow> u32 \<Rightarrow> int \<Rightarrow> fs_state \<Rightarrow> fs_state" where
  "open_commit now path flags mode fd fs =
     (let exists = om_mem path (filesystem fs);
          node = new_node\<lparr>vn_mode := S_IFREG OR ((mode AND 0xFFF) AND NOT (creation_mask fs)),
                          vn_ino := next_inode fs, vn_mtim := now\<rparr>;
          files1 = (if exists then filesystem fs
                    else set_mtim (parent_of path) now (om_emplace path node (filesystem fs)));
          files2 = (if has_flag flags O_TRUNC \<and> flags AND O_ACCMODE \<noteq> O_RDONLY
                    then (case map_of files1 path of
                            None \<Rightarrow> files1
                          | Some n \<Rightarrow> om_put path (n\<lparr>vn_content := [], vn_size := 0, vn_mtim := now\<rparr>) files1)
                    else files1)
      in fs\<lparr>filesystem := files2, next_inode := (if exists then next_inode fs else next_inode fs + 1),
            open_files := om_emplace fd \<lparr>of_path = path, of_offset = 0\<rparr> (open_files fs)\<rparr>)"

definition open_resolved ::
  "timespec \<Rightarrow> string \<Rightarrow> int \<Rightarrow> u32 \<Rightarrow> fs_state \<Rightarrow> fd_manager \<Rightarrow> int fs_result" where
  "open_resolved now path flags mode fs fdm =
     (let exclusive = has_flag flags O_CREAT \<and> has_flag flags O_EXCL;
          node = map_of (filesystem fs) path;
          is_mode = (\<lambda>P. case node of None \<Rightarrow> False | Some n \<Rightarrow> P (vn_mode n));
          candidate = get_next_fd fdm
      in if path = ''/proc/self'' \<and> has_flag flags O_NOFOLLOW
         then (Inl (Runtime_error ''Virtual proc self nofollow open is not modeled''), fs, fdm)
         else if is_mode S_ISLNK
         then (Inr (if exclusive then - EEXIST else if has_flag flags O_DIRECTORY then - ENOTDIR else - ELOOP), fs, fdm)
         else if node \<noteq> None \<and> exclusive then (Inr (- EEXIST), fs, fdm)
         else if node \<noteq> None \<and> has_flag flags O_DIRECTORY \<and> \<not> is_mode S_ISDIR then (Inr (- ENOTDIR), fs, fdm)
         else if is_mode S_ISDIR \<and> (has_flag flags O_CREAT \<or> flags AND O_ACCMODE \<noteq> O_RDONLY)
         then (Inr (- EISDIR), fs, fdm)
         else if node = None \<and> (has_flag flags O_DIRECTORY \<or> \<not> has_flag flags O_CREAT)
         then (Inr (- ENOENT), fs, fdm)
         else if executable_path fs = Some path \<and> (flags AND O_ACCMODE \<noteq> O_RDONLY \<or> has_flag flags O_TRUNC)
         then (Inr (- ETXTBSY), fs, fdm)
         else if has_flag flags O_TRUNC \<and> mapped_file fs path
         then (Inl (Runtime_error ''Modification of a mapped virtual file is unsupported''), fs, fdm)
         else if candidate < 0 then (Inr (- EMFILE), fs, fdm)
         else if om_mem candidate (open_files fs)
         then (Inl (Runtime_error ''Free descriptor still has a virtual file description''), fs, fdm)
         else if node = None \<and>
                 (case map_of (filesystem fs) (parent_of path) of None \<Rightarrow> True | Some p \<Rightarrow> \<not> S_ISDIR (vn_mode p))
         then (Inl (Runtime_error ''New virtual file has no directory parent''), fs, fdm)
         else if node = None \<and> guest_inode_limit \<le> next_inode fs
         then (Inl (Runtime_error ''Virtual guest inode domain exhausted''), fs, fdm)
         else
           (case allocate_fd FT_FILE (flags AND NOT (O_CLOEXEC OR O_CREAT OR O_EXCL OR O_TRUNC))
                   (if has_flag flags O_CLOEXEC then FD_CLOEXEC else 0) fdm of
              (Inl e, fdm) \<Rightarrow> (Inl e, fs, fdm)
            | (Inr fd, fdm) \<Rightarrow>
                if fd < 0 then (Inr fd, fs, fdm)
                else if fd \<noteq> candidate
                then (Inl (Runtime_error ''Virtual descriptor allocation changed during open''), fs, release_fd fd fdm)
                else (Inr fd, open_commit now path flags mode fd fs, fdm)))"

definition do_openat ::
  "timespec \<Rightarrow> int \<Rightarrow> string \<Rightarrow> int \<Rightarrow> u32 \<Rightarrow> fs_state \<Rightarrow> fd_manager \<Rightarrow> int fs_result" where
  "do_openat now dirfd path flags mode fs fdm =
     (if path = [] then (Inr (- ENOENT), fs, fdm)
      else if CHR 0x00 \<in> set path then (Inr (- EINVAL), fs, fdm)
      else if flags AND O_ACCMODE = O_ACCMODE \<or> has_flag flags O_CREAT \<and> has_flag flags O_DIRECTORY
      then (Inr (- EINVAL), fs, fdm)
      else if has_flag flags (O_ASYNC OR O_DIRECT OR O_NOATIME OR O_PATH) \<or> flags AND O_TMPFILE = O_TMPFILE
      then (Inl (Runtime_error ''Unsupported virtual open flags''), fs, fdm)
      else
        (case resolve_path_checked fs fdm dirfd path
                (\<not> (has_flag flags O_CREAT \<and> has_flag flags O_EXCL) \<and> \<not> has_flag flags O_NOFOLLOW)
                False (has_flag flags O_CREAT) of
           Inl e \<Rightarrow> (Inl e, fs, fdm)
         | Inr (Inl err) \<Rightarrow> (Inr err, fs, fdm)
         | Inr (Inr checked) \<Rightarrow> open_resolved now checked flags mode fs fdm))"

section \<open>Reading and writing\<close>

text \<open>\<open>do_read\<close> returns the number and the bytes that it copies to the host buffer.\<close>

definition do_read :: "int \<Rightarrow> nat \<Rightarrow> fs_state \<Rightarrow> fd_manager \<Rightarrow> (exn + (int \<times> byte list)) \<times> fs_state" where
  "do_read fd count fs fdm =
     (case map_of (open_files fs) fd of
        None \<Rightarrow> (Inr (- EBADF, []), fs)
      | Some d \<Rightarrow>
          if \<not> is_allocated fd fdm then (Inr (- EBADF, []), fs)
          else (case map_of (filesystem fs) (of_path d) of
            None \<Rightarrow> (Inl Out_of_range, fs)
          | Some node \<Rightarrow>
              if S_ISDIR (vn_mode node) then (Inr (- EISDIR, []), fs)
              else if get_status_flags fd fdm AND O_ACCMODE = O_WRONLY then (Inr (- EBADF, []), fs)
              else if int (length (vn_content node)) \<le> uint (word_of_int (of_offset d) :: u64)
              then (Inr (0, []), fs)
              else
                (let bytes = take count (drop (nat (of_offset d)) (vn_content node))
                 in if bytes = [] then (Inr (0, []), fs)
                    else (Inr (int (length bytes), bytes),
                          fs\<lparr>open_files := om_put fd (d\<lparr>of_offset := of_offset d + int (length bytes)\<rparr>)
                               (open_files fs)\<rparr>))))"

definition write_offset :: "int \<Rightarrow> fd_manager \<Rightarrow> open_file_description \<Rightarrow> vfs_node \<Rightarrow> int" where
  "write_offset fd fdm d node =
     (if has_flag (get_status_flags fd fdm) O_APPEND \<or> get_fd_type fd fdm = FT_STDIO
      then int (length (vn_content node)) else of_offset d)"

definition do_write ::
  "timespec \<Rightarrow> int \<Rightarrow> byte list \<Rightarrow> fs_state \<Rightarrow> fd_manager \<Rightarrow> (exn + int) \<times> fs_state" where
  "do_write now fd buf fs fdm =
     (case map_of (open_files fs) fd of
        None \<Rightarrow> (Inr (- EBADF), fs)
      | Some d \<Rightarrow>
          if \<not> is_allocated fd fdm then (Inr (- EBADF), fs)
          else (case map_of (filesystem fs) (of_path d) of
            None \<Rightarrow> (Inl Out_of_range, fs)
          | Some node \<Rightarrow>
              if get_status_flags fd fdm AND O_ACCMODE = O_RDONLY then (Inr (- EBADF), fs)
              else if buf = [] then (Inr 0, fs)
              else (case require_unmapped_file fs (of_path d) of
                Some e \<Rightarrow> (Inl e, fs)
              | None \<Rightarrow>
                  (let offset = write_offset fd fdm d node;
                       content = content_write (nat offset) buf (vn_content node)
                   in if OFF_MAX - offset < int (length buf) then (Inr (- EFBIG), fs)
                      else (Inr (int (length buf)),
                            fs\<lparr>open_files := om_put fd (d\<lparr>of_offset := offset + int (length buf)\<rparr>) (open_files fs),
                               filesystem := om_put (of_path d)
                                 (node\<lparr>vn_content := content, vn_size := int (length content), vn_mtim := now\<rparr>)
                                 (filesystem fs)\<rparr>)))))"

abbreviation (input) maximum_dense_growth :: int where "maximum_dense_growth \<equiv> 67108864"

definition do_ftruncate ::
  "timespec \<Rightarrow> int \<Rightarrow> int \<Rightarrow> fs_state \<Rightarrow> fd_manager \<Rightarrow> (exn + int) \<times> fs_state" where
  "do_ftruncate now fd len fs fdm =
     (if len < 0 then (Inr (- EINVAL), fs)
      else if \<not> is_allocated fd fdm then (Inr (- EBADF), fs)
      else if get_fd_type fd fdm \<noteq> FT_FILE then (Inr (- EINVAL), fs)
      else (case map_of (open_files fs) fd of
        None \<Rightarrow> (Inl (Runtime_error ''Truncated descriptor has no file payload''), fs)
      | Some d \<Rightarrow>
          (case map_of (filesystem fs) (of_path d) of
             None \<Rightarrow> (Inl Out_of_range, fs)
           | Some node \<Rightarrow>
               if \<not> S_ISREG (vn_mode node) \<or> get_status_flags fd fdm AND O_ACCMODE = O_RDONLY
               then (Inr (- EINVAL), fs)
               else (case require_unmapped_file fs (of_path d) of
                 Some e \<Rightarrow> (Inl e, fs)
               | None \<Rightarrow>
                   if int (length (vn_content node)) < len \<and> maximum_dense_growth < len - int (length (vn_content node))
                   then (Inl (Runtime_error ''Virtual ftruncate exceeds single-operation dense growth bound''), fs)
                   else (Inr 0, fs\<lparr>filesystem := om_put (of_path d)
                           (node\<lparr>vn_content := content_resize (nat len) (vn_content node), vn_size := len,
                                 vn_mtim := now\<rparr>) (filesystem fs)\<rparr>)))))"

definition do_close :: "int \<Rightarrow> fs_state \<Rightarrow> fd_manager \<Rightarrow> int fs_result" where
  "do_close fd fs fdm =
     (if \<not> is_allocated fd fdm then (Inr (- EBADF), fs, fdm)
      else if \<not> om_mem fd (open_files fs) then (Inr (- EBADF), fs, fdm)
      else (Inr 0, fs\<lparr>open_files := om_del fd (open_files fs)\<rparr>, release_fd fd fdm))"

definition do_lseek :: "int \<Rightarrow> int \<Rightarrow> int \<Rightarrow> fs_state \<Rightarrow> fd_manager \<Rightarrow> (exn + int) \<times> fs_state" where
  "do_lseek fd offset whence fs fdm =
     (case map_of (open_files fs) fd of
        None \<Rightarrow> (Inr (- EBADF), fs)
      | Some d \<Rightarrow>
          if \<not> is_allocated fd fdm then (Inr (- EBADF), fs)
          else (case map_of (filesystem fs) (of_path d) of
            None \<Rightarrow> (Inl Out_of_range, fs)
          | Some node \<Rightarrow>
              if get_fd_type fd fdm = FT_STDIO then (Inr (- ESPIPE), fs)
              else if whence \<noteq> SEEK_SET \<and> whence \<noteq> SEEK_CUR \<and> whence \<noteq> SEEK_END then (Inr (- EINVAL), fs)
              else if whence = SEEK_END \<and> S_ISDIR (vn_mode node) then (Inr (- EINVAL), fs)
              else
                (let base = (if whence = SEEK_SET then 0 else if whence = SEEK_CUR then of_offset d
                             else int (length (vn_content node)));
                     new_offset = base + offset
                 in if OFF_MAX < new_offset \<or> new_offset < OFF_MIN then (Inr (- EOVERFLOW), fs)
                    else if new_offset < 0 then (Inr (- EINVAL), fs)
                    else (Inr new_offset,
                          fs\<lparr>open_files := om_put fd (d\<lparr>of_offset := new_offset\<rparr>) (open_files fs)\<rparr>))))"

end
