(* ===== verification/Vfs_Names.thy ===== *)
theory Vfs_Names
  imports Vfs_Ops
begin

text \<open>
  The namespace operations of \<open>FileSystemState\<close>: inode identities, unlinking, renaming, status,
  access, links and the working directory, and the handlers of \<open>src/src/subsys/fs/fsstate.cpp\<close> that
  copy their arguments from guest memory.
\<close>

section \<open>Inodes\<close>

definition initial_vfs_inode :: "(string \<Rightarrow> u64) \<Rightarrow> string \<Rightarrow> u64" where
  "initial_vfs_inode hash path = hash path OR guest_inode_limit"

definition node_inode :: "(string \<Rightarrow> u64) \<Rightarrow> string \<Rightarrow> vfs_node \<Rightarrow> u64" where
  "node_inode hash path node = (if vn_ino node \<noteq> 0 then vn_ino node else initial_vfs_inode hash path)"

fun inodes_of :: "(string \<Rightarrow> u64) \<Rightarrow> u64 list \<Rightarrow> (string, vfs_node) omap \<Rightarrow> exn + (string, u64) omap" where
  "inodes_of hash owners [] = Inr []"
| "inodes_of hash owners ((path, node) # files) =
     (let inode = node_inode hash path node
      in if inode \<in> set owners then Inl (Runtime_error ''Captured VFS path inode collision'')
         else andthen (inodes_of hash (inode # owners) files) (\<lambda>rest. Inr ((path, inode) # rest)))"

definition vfs_inodes :: "(string \<Rightarrow> u64) \<Rightarrow> (string, vfs_node) omap \<Rightarrow> exn + (string, u64) omap" where
  "vfs_inodes hash files = inodes_of hash [] files"

definition inode_override_ok :: "(string \<Rightarrow> u64) \<Rightarrow> u64 \<Rightarrow> string \<Rightarrow> vfs_node \<Rightarrow> bool" where
  "inode_override_ok hash next path node \<longleftrightarrow>
     \<not> (vn_ino node \<noteq> 0 \<and>
        (vn_ino node = initial_vfs_inode hash path \<or>
         \<not> S_ISREG (vn_mode node) \<and> \<not> S_ISLNK (vn_mode node) \<or>
         vn_ino node < guest_inode_limit \<and> next \<le> vn_ino node))"

definition validate_inode_state :: "(string \<Rightarrow> u64) \<Rightarrow> fs_state \<Rightarrow> exn + unit" where
  "validate_inode_state hash fs =
     (if next_inode fs = 0 \<or> guest_inode_limit < next_inode fs
      then Inl (Runtime_error ''Invalid virtual guest inode counter'')
      else if \<not> list_all (\<lambda>(path, node). inode_override_ok hash (next_inode fs) path node) (filesystem fs)
      then Inl (Runtime_error ''Invalid virtual inode override'')
      else andthen (vfs_inodes hash (filesystem fs)) (\<lambda>_. Inr ()))"

section \<open>Leaves\<close>

datatype leaf_kind = LK_Normal | LK_Dot | LK_DotDot | LK_Root

record namespace_leaf =
  nl_kind :: leaf_kind
  nl_parent :: string
  nl_path :: string
  nl_name :: string
  nl_trailing_slash :: bool

definition leaf_unlink_flags :: "int \<Rightarrow> exn + int" where
  "leaf_unlink_flags flags =
     (if has_flag flags (NOT AT_REMOVEDIR) then Inr (- EINVAL)
      else if flags \<noteq> 0 then Inl (Runtime_error ''Directory removal is unsupported'') else Inr 0)"

definition leaf_rename_flags :: "int \<Rightarrow> exn + int" where
  "leaf_rename_flags flags =
     (if has_flag flags (NOT 7) \<or> has_flag flags 2 \<and> has_flag flags 5 then Inr (- EINVAL)
      else if has_flag flags 6 then Inl (Runtime_error ''Rename exchange/whiteout is unsupported'') else Inr 0)"

definition resolve_namespace_leaf ::
  "fs_state \<Rightarrow> fd_manager \<Rightarrow> int \<Rightarrow> string \<Rightarrow> exn + (int + namespace_leaf)" where
  "resolve_namespace_leaf fs fdm dirfd input =
     (if input = [] then Inr (Inl (- ENOENT))
      else if CHR 0x00 \<in> set input then Inr (Inl (- EINVAL))
      else
        (let stem = rev (dropWhile (\<lambda>c. c = CHR ''/'') (rev input));
             trailing = (last input = CHR ''/'')
         in if stem = []
            then Inr (Inr \<lparr>nl_kind = LK_Root, nl_parent = ''/'', nl_path = ''/'', nl_name = [],
                           nl_trailing_slash = trailing\<rparr>)
            else
              (let (name, parent) =
                 (case find_last_slash stem of
                    None \<Rightarrow> (stem, ''./'') | Some n \<Rightarrow> (drop (n + 1) stem, take (n + 1) stem))
               in andthen (resolve_path_checked fs fdm dirfd parent True False False) (\<lambda>r.
                  (case r of
                     Inl err \<Rightarrow> Inr (Inl err)
                   | Inr directory \<Rightarrow>
                       (case map_of (filesystem fs) directory of
                          None \<Rightarrow> Inr (Inl (- ENOENT))
                        | Some node \<Rightarrow>
                            if \<not> S_ISDIR (vn_mode node) then Inr (Inl (- ENOTDIR))
                            else Inr (Inr
                              \<lparr>nl_kind = (if name = ''.'' then LK_Dot else if name = ''..'' then LK_DotDot
                                           else LK_Normal),
                               nl_parent = directory,
                               nl_path = (if name = ''.'' then directory
                                          else if name = ''..'' then parent_of directory
                                          else join_paths directory name),
                               nl_name = name, nl_trailing_slash = trailing\<rparr>)))))))"

definition require_namespace_mutable :: "fs_state \<Rightarrow> string \<Rightarrow> exn + unit" where
  "require_namespace_mutable fs path =
     (if path = ''/proc/self/exe''
      then Inl (Runtime_error ''Synthetic executable link namespace mutation is unsupported'')
      else if executable_path fs = Some path
      then Inl (Runtime_error ''Running executable namespace mutation is unsupported'')
      else if list_ex (\<lambda>(fd, d). of_path d = path) (open_files fs)
      then Inl (Runtime_error ''Open virtual object namespace mutation is unsupported'')
      else (case require_unmapped_file fs path of Some e \<Rightarrow> Inl e | None \<Rightarrow> Inr ()))"

section \<open>Unlinking and renaming\<close>

text \<open>
  The checks of an operation, as a sum: \<open>Inl e\<close> throws, \<open>Inr (Inl n)\<close> returns the number \<open>n\<close>, and
  \<open>Inr (Inr x)\<close> goes on with \<open>x\<close>.
\<close>

abbreviation (input) returns :: "int \<Rightarrow> exn + (int + 'a)" where "returns n \<equiv> Inr (Inl n)"
abbreviation (input) throws :: "string \<Rightarrow> exn + 'a" where "throws message \<equiv> Inl (Runtime_error message)"

definition node_at :: "fs_state \<Rightarrow> string \<Rightarrow> exn + vfs_node" where
  "node_at fs path = (case map_of (filesystem fs) path of None \<Rightarrow> Inl Out_of_range | Some n \<Rightarrow> Inr n)"

definition unlink_checks ::
  "(string \<Rightarrow> u64) \<Rightarrow> int \<Rightarrow> string \<Rightarrow> int \<Rightarrow> fs_state \<Rightarrow> fd_manager \<Rightarrow> exn + (int + namespace_leaf)" where
  "unlink_checks hash dirfd input flags fs fdm =
     andthen (leaf_unlink_flags flags) (\<lambda>flag_error.
       if flag_error \<noteq> 0 then returns flag_error
       else andthen (resolve_namespace_leaf fs fdm dirfd input) (\<lambda>r.
         (case r of
            Inl err \<Rightarrow> returns err
          | Inr leaf \<Rightarrow>
              if nl_kind leaf \<noteq> LK_Normal then returns (- EISDIR)
              else if NAME_MAX < length (nl_name leaf) then returns (- ENAMETOOLONG)
              else (case map_of (filesystem fs) (nl_path leaf) of
                None \<Rightarrow> returns (- ENOENT)
              | Some node \<Rightarrow>
                  if nl_trailing_slash leaf \<and> \<not> S_ISDIR (vn_mode node) then returns (- ENOTDIR)
                  else if S_ISDIR (vn_mode node) then returns (- EISDIR)
                  else if \<not> S_ISREG (vn_mode node) \<and> \<not> S_ISLNK (vn_mode node)
                  then throws ''Only regular or symlink leaf deletion is supported''
                  else andthen (node_at fs (nl_parent leaf)) (\<lambda>parent.
                    if vn_mode parent AND S_ISVTX \<noteq> 0
                    then throws ''Sticky-directory namespace mutation is unsupported''
                    else andthen (require_namespace_mutable fs (nl_path leaf)) (\<lambda>_.
                      andthen (validate_inode_state hash fs) (\<lambda>_. Inr (Inr leaf))))))))"

definition do_unlinkat ::
  "(string \<Rightarrow> u64) \<Rightarrow> timespec \<Rightarrow> int \<Rightarrow> string \<Rightarrow> int \<Rightarrow> fs_state \<Rightarrow> fd_manager \<Rightarrow> (exn + int) \<times> fs_state" where
  "do_unlinkat hash now dirfd input flags fs fdm =
     (case unlink_checks hash dirfd input flags fs fdm of
        Inl e \<Rightarrow> (Inl e, fs)
      | Inr (Inl n) \<Rightarrow> (Inr n, fs)
      | Inr (Inr leaf) \<Rightarrow>
          (Inr 0, fs\<lparr>filesystem := set_mtim (nl_parent leaf) now (om_del (nl_path leaf) (filesystem fs))\<rparr>))"

definition rename_checks ::
  "(string \<Rightarrow> u64) \<Rightarrow> int \<Rightarrow> string \<Rightarrow> int \<Rightarrow> string \<Rightarrow> int \<Rightarrow> fs_state \<Rightarrow> fd_manager \<Rightarrow>
   exn + (int + namespace_leaf \<times> namespace_leaf \<times> vfs_node)" where
  "rename_checks hash olddirfd oldname newdirfd newname flags fs fdm =
     andthen (leaf_rename_flags flags) (\<lambda>flag_error.
       if flag_error \<noteq> 0 then returns flag_error
       else andthen (resolve_namespace_leaf fs fdm olddirfd oldname) (\<lambda>r1.
         (case r1 of
            Inl err \<Rightarrow> returns err
          | Inr oldleaf \<Rightarrow>
              andthen (resolve_namespace_leaf fs fdm newdirfd newname) (\<lambda>r2.
                (case r2 of
                   Inl err \<Rightarrow> returns err
                 | Inr newleaf \<Rightarrow>
                     if nl_kind oldleaf = LK_Root \<or> nl_kind newleaf = LK_Root
                     then throws ''Root/mount namespace rename is unsupported''
                     else if nl_kind oldleaf \<noteq> LK_Normal then returns (- EBUSY)
                     else if nl_kind newleaf \<noteq> LK_Normal
                     then returns (if has_flag flags 1 then - EEXIST else - EBUSY)
                     else if NAME_MAX < length (nl_name oldleaf) then returns (- ENAMETOOLONG)
                     else (case map_of (filesystem fs) (nl_path oldleaf) of
                       None \<Rightarrow> returns (- ENOENT)
                     | Some source \<Rightarrow>
                         (let target = map_of (filesystem fs) (nl_path newleaf);
                              directory = S_ISDIR (vn_mode source);
                              target_dir = (case target of None \<Rightarrow> False | Some t \<Rightarrow> S_ISDIR (vn_mode t))
                          in if NAME_MAX < length (nl_name newleaf) then returns (- ENAMETOOLONG)
                             else if has_flag flags 1 \<and> target \<noteq> None then returns (- EEXIST)
                             else if (nl_trailing_slash oldleaf \<or> nl_trailing_slash newleaf) \<and> \<not> directory
                             then returns (- ENOTDIR)
                             else if target \<noteq> None \<and> \<not> directory \<and> target_dir then returns (- EISDIR)
                             else if target \<noteq> None \<and> directory \<and> \<not> target_dir then returns (- ENOTDIR)
                             else if nl_path oldleaf = nl_path newleaf then returns 0
                             else if directory then throws ''Directory moves are unsupported''
                             else if \<not> S_ISREG (vn_mode source) \<and> \<not> S_ISLNK (vn_mode source)
                             then throws ''Only regular or symlink leaf rename is supported''
                             else andthen (node_at fs (nl_parent oldleaf)) (\<lambda>p1.
                               andthen (node_at fs (nl_parent newleaf)) (\<lambda>p2.
                               if (vn_mode p1 OR vn_mode p2) AND S_ISVTX \<noteq> 0
                               then throws ''Sticky-directory namespace mutation is unsupported''
                               else andthen (require_namespace_mutable fs (nl_path oldleaf)) (\<lambda>_.
                                 andthen (require_namespace_mutable fs (nl_path newleaf)) (\<lambda>_.
                                 andthen (validate_inode_state hash fs) (\<lambda>_.
                                   Inr (Inr (oldleaf, newleaf, source))))))))))))))"

definition renamed_inode :: "(string \<Rightarrow> u64) \<Rightarrow> string \<Rightarrow> string \<Rightarrow> vfs_node \<Rightarrow> u64" where
  "renamed_inode hash oldpath newpath source =
     (let inode = node_inode hash oldpath source
      in if inode = initial_vfs_inode hash newpath then 0 else inode)"

definition do_renameat2 ::
  "(string \<Rightarrow> u64) \<Rightarrow> timespec \<Rightarrow> int \<Rightarrow> string \<Rightarrow> int \<Rightarrow> string \<Rightarrow> int \<Rightarrow> fs_state \<Rightarrow> fd_manager \<Rightarrow>
   (exn + int) \<times> fs_state" where
  "do_renameat2 hash now olddirfd oldname newdirfd newname flags fs fdm =
     (case rename_checks hash olddirfd oldname newdirfd newname flags fs fdm of
        Inl e \<Rightarrow> (Inl e, fs)
      | Inr (Inl n) \<Rightarrow> (Inr n, fs)
      | Inr (Inr (oldleaf, newleaf, source)) \<Rightarrow>
          (let moved = source\<lparr>vn_ino := renamed_inode hash (nl_path oldleaf) (nl_path newleaf) source\<rparr>;
               files = om_put (nl_path newleaf) moved
                         (om_del (nl_path newleaf) (om_del (nl_path oldleaf) (filesystem fs)))
           in (Inr 0, fs\<lparr>filesystem := set_mtim (nl_parent newleaf) now (set_mtim (nl_parent oldleaf) now files)\<rparr>)))"

section \<open>Status, access, links and the working directory\<close>

record stat =
  st_ino :: u64
  st_mode :: u32
  st_size :: int
  st_mtim :: timespec

definition copy_vfs_stat :: "vfs_node \<Rightarrow> u64 \<Rightarrow> stat" where
  "copy_vfs_stat node inode =
     \<lparr>st_ino = inode, st_mode = vn_mode node, st_size = vn_size node, st_mtim = vn_mtim node\<rparr>"

definition stat_of :: "(string \<Rightarrow> u64) \<Rightarrow> fs_state \<Rightarrow> string \<Rightarrow> vfs_node \<Rightarrow> exn + stat" where
  "stat_of hash fs path node =
     andthen (vfs_inodes hash (filesystem fs)) (\<lambda>inodes.
       (case map_of inodes path of None \<Rightarrow> Inl Out_of_range | Some inode \<Rightarrow> Inr (copy_vfs_stat node inode)))"

definition do_stat :: "(string \<Rightarrow> u64) \<Rightarrow> string \<Rightarrow> bool \<Rightarrow> fs_state \<Rightarrow> fd_manager \<Rightarrow> exn + (int + stat)" where
  "do_stat hash path follow fs fdm =
     andthen (resolve_path_checked fs fdm AT_FDCWD path follow False False) (\<lambda>r.
       (case r of
          Inl err \<Rightarrow> returns err
        | Inr checked \<Rightarrow>
            if \<not> follow \<and> checked = ''/proc/self'' then throws ''Virtual proc self link metadata is not modeled''
            else (case map_of (filesystem fs) checked of
                    None \<Rightarrow> returns (- ENOENT)
                  | Some node \<Rightarrow> andthen (stat_of hash fs checked node) (\<lambda>s. Inr (Inr s)))))"

definition do_fstat :: "(string \<Rightarrow> u64) \<Rightarrow> int \<Rightarrow> fs_state \<Rightarrow> fd_manager \<Rightarrow> exn + (int + stat)" where
  "do_fstat hash fd fs fdm =
     (case map_of (open_files fs) fd of
        None \<Rightarrow> returns (- EBADF)
      | Some d \<Rightarrow>
          if \<not> is_allocated fd fdm then returns (- EBADF)
          else (case map_of (filesystem fs) (of_path d) of
                  None \<Rightarrow> throws ''Open descriptor has no captured payload''
                | Some node \<Rightarrow> andthen (stat_of hash fs (of_path d) node) (\<lambda>s. Inr (Inr s))))"

definition do_chdir :: "string \<Rightarrow> fs_state \<Rightarrow> fd_manager \<Rightarrow> (exn + int) \<times> fs_state" where
  "do_chdir path fs fdm =
     (if path = [] then (Inr (- ENOENT), fs)
      else (case resolve_path_checked fs fdm AT_FDCWD path True False False of
              Inl e \<Rightarrow> (Inl e, fs)
            | Inr (Inl err) \<Rightarrow> (Inr err, fs)
            | Inr (Inr resolved) \<Rightarrow>
                (case map_of (filesystem fs) resolved of
                   None \<Rightarrow> (Inr (- ENOENT), fs)
                 | Some node \<Rightarrow>
                     if \<not> S_ISDIR (vn_mode node) then (Inr (- ENOTDIR), fs)
                     else (Inr 0, fs\<lparr>cwd := resolved\<rparr>))))"

abbreviation (input) R_OK :: int where "R_OK \<equiv> 4"
abbreviation (input) W_OK :: int where "W_OK \<equiv> 2"
abbreviation (input) X_OK :: int where "X_OK \<equiv> 1"

definition permission_mode :: "fs_state \<Rightarrow> int \<Rightarrow> string \<Rightarrow> int" where
  "permission_mode fs mode path =
     (case map_of (filesystem fs) path of
        None \<Rightarrow> 0
      | Some node \<Rightarrow>
          if \<not> S_ISDIR (vn_mode node) \<and> has_flag mode W_OK then 0
          else (if vn_mode node AND 0x100 \<noteq> 0 then R_OK else 0) OR
               (if vn_mode node AND 0x80 \<noteq> 0 then W_OK else 0) OR
               (if vn_mode node AND 0x40 \<noteq> 0 then X_OK else 0))"

definition access_flags_bad :: "int \<Rightarrow> int \<Rightarrow> bool" where
  "access_flags_bad mode flags \<longleftrightarrow> has_flag mode (NOT (R_OK OR W_OK OR X_OK)) \<or>
     has_flag flags (NOT (AT_EACCESS OR AT_SYMLINK_NOFOLLOW OR AT_EMPTY_PATH))"

definition do_access :: "int \<Rightarrow> string \<Rightarrow> int \<Rightarrow> int \<Rightarrow> fs_state \<Rightarrow> fd_manager \<Rightarrow> exn + int" where
  "do_access dirfd input mode flags fs fdm =
     (if access_flags_bad mode flags then Inr (- EINVAL)
      else
        (let decide = (\<lambda>resolved.
               if \<not> om_mem resolved (filesystem fs) then Inr (- ENOENT)
               else if mode \<noteq> 0 \<and> permission_mode fs mode resolved AND mode \<noteq> mode then Inr (- EACCES)
               else Inr 0);
             walk = (\<lambda>path. andthen (resolve_path_checked fs fdm dirfd path
                        (\<not> has_flag flags AT_SYMLINK_NOFOLLOW) True False)
                      (\<lambda>r. case r of Inl err \<Rightarrow> Inr err | Inr resolved \<Rightarrow> decide resolved));
             direct = (\<lambda>path. if path \<noteq> input then (if om_mem path (filesystem fs) then decide path else Inr (- ENOENT))
                              else walk path)
         in if input = [] \<and> has_flag flags AT_EMPTY_PATH
            then
              if dirfd = AT_FDCWD then direct (if cwd fs = [] then ''/'' else cwd fs)
              else if \<not> is_allocated dirfd fdm then Inr (- EBADF)
              else (case map_of (open_files fs) dirfd of
                      None \<Rightarrow> throws ''VFS empty access on non-file descriptor is not modeled''
                    | Some d \<Rightarrow> direct (of_path d))
            else walk input))"

definition do_readlink :: "string \<Rightarrow> fs_state \<Rightarrow> fd_manager \<Rightarrow> exn + (int + byte list)" where
  "do_readlink path fs fdm =
     andthen (resolve_path_checked fs fdm AT_FDCWD path False False False) (\<lambda>r.
       (case r of
          Inl err \<Rightarrow> returns err
        | Inr resolved \<Rightarrow>
            if resolved = ''/proc/self'' then throws ''Virtual proc self link target is not modeled''
            else (case map_of (filesystem fs) resolved of
                    None \<Rightarrow> returns (- ENOENT)
                  | Some node \<Rightarrow>
                      if \<not> S_ISLNK (vn_mode node) then returns (- EINVAL) else Inr (Inr (vn_content node)))))"

section \<open>Handlers\<close>

function read_guest_chars :: "'m guest \<Rightarrow> int \<Rightarrow> u64 \<Rightarrow> int \<Rightarrow> string \<Rightarrow> 'm \<Rightarrow> int + string" where
  "read_guest_chars G pid address i got m =
     (if 4096 \<le> i then Inl (- ENAMETOOLONG)
      else (case guest_read_exact G pid (address + word_of_int i) 1 m of
              None \<Rightarrow> Inl (- EFAULT)
            | Some bs \<Rightarrow>
                if hd bs = 0 then Inr got
                else read_guest_chars G pid address (i + 1) (got @ string_of_bytes bs) m))"
  by pat_completeness auto
termination
  by (relation "measure (\<lambda>(G, pid, address, i, got, m). nat (4096 - i))") auto

declare read_guest_chars.simps [simp del]

definition read_guest_string :: "'m guest \<Rightarrow> int \<Rightarrow> u64 \<Rightarrow> 'm \<Rightarrow> int + string" where
  "read_guest_string G pid address m =
     (if address = 0 then Inl (- EFAULT) else read_guest_chars G pid address 0 [] m)"

definition emu_vfs_unlinkat ::
  "'m guest \<Rightarrow> int \<Rightarrow> (string \<Rightarrow> u64) \<Rightarrow> timespec \<Rightarrow> int \<Rightarrow> u64 \<Rightarrow> int \<Rightarrow> fs_state \<Rightarrow> fd_manager \<Rightarrow> 'm \<Rightarrow>
   (exn + int) \<times> fs_state" where
  "emu_vfs_unlinkat G pid hash now dirfd pointer flags fs fdm m =
     (case leaf_unlink_flags flags of
        Inl e \<Rightarrow> (Inl e, fs)
      | Inr err \<Rightarrow>
          if err \<noteq> 0 then (Inr err, fs)
          else (case read_guest_string G pid pointer m of
                  Inl copied \<Rightarrow> (Inr copied, fs)
                | Inr path \<Rightarrow> do_unlinkat hash now dirfd path flags fs fdm))"

definition emu_vfs_renameat2 ::
  "'m guest \<Rightarrow> int \<Rightarrow> (string \<Rightarrow> u64) \<Rightarrow> timespec \<Rightarrow> int \<Rightarrow> u64 \<Rightarrow> int \<Rightarrow> u64 \<Rightarrow> int \<Rightarrow> fs_state \<Rightarrow> fd_manager \<Rightarrow> 'm \<Rightarrow>
   (exn + int) \<times> fs_state" where
  "emu_vfs_renameat2 G pid hash now olddirfd oldpointer newdirfd newpointer flags fs fdm m =
     (case leaf_rename_flags flags of
        Inl e \<Rightarrow> (Inl e, fs)
      | Inr err \<Rightarrow>
          if err \<noteq> 0 then (Inr err, fs)
          else (case read_guest_string G pid oldpointer m of
            Inl copied \<Rightarrow> (Inr copied, fs)
          | Inr oldname \<Rightarrow>
              (case resolve_namespace_leaf fs fdm olddirfd oldname of
                 Inl e \<Rightarrow> (Inl e, fs)
               | Inr (Inl parent_error) \<Rightarrow> (Inr parent_error, fs)
               | Inr (Inr _) \<Rightarrow>
                   (case read_guest_string G pid newpointer m of
                      Inl copied \<Rightarrow> (Inr copied, fs)
                    | Inr newname \<Rightarrow> do_renameat2 hash now olddirfd oldname newdirfd newname flags fs fdm))))"

definition emu_vfs_openat ::
  "'m guest \<Rightarrow> int \<Rightarrow> timespec \<Rightarrow> int \<Rightarrow> u64 \<Rightarrow> int \<Rightarrow> u32 \<Rightarrow> fs_state \<Rightarrow> fd_manager \<Rightarrow> 'm \<Rightarrow> int fs_result" where
  "emu_vfs_openat G pid now dirfd path_ptr flags mode fs fdm m =
     (case read_guest_string G pid path_ptr m of
        Inl copied \<Rightarrow> (Inr copied, fs, fdm)
      | Inr path \<Rightarrow> do_openat now dirfd path flags mode fs fdm)"

definition emu_chdir :: "'m guest \<Rightarrow> int \<Rightarrow> u64 \<Rightarrow> fs_state \<Rightarrow> fd_manager \<Rightarrow> 'm \<Rightarrow> (exn + int) \<times> fs_state" where
  "emu_chdir G pid path_ptr fs fdm m =
     (case read_guest_string G pid path_ptr m of
        Inl copied \<Rightarrow> (Inr copied, fs)
      | Inr path \<Rightarrow> do_chdir path fs fdm)"

definition emu_vfs_accessat ::
  "'m guest \<Rightarrow> int \<Rightarrow> int \<Rightarrow> u64 \<Rightarrow> int \<Rightarrow> int \<Rightarrow> fs_state \<Rightarrow> fd_manager \<Rightarrow> 'm \<Rightarrow> exn + int" where
  "emu_vfs_accessat G pid dirfd path_ptr mode flags fs fdm m =
     (if access_flags_bad mode flags then Inr (- EINVAL)
      else (case read_guest_string G pid path_ptr m of
              Inl copied \<Rightarrow> Inr copied
            | Inr path \<Rightarrow> do_access dirfd path mode flags fs fdm))"

definition emu_getcwd :: "'m guest \<Rightarrow> int \<Rightarrow> u64 \<Rightarrow> nat \<Rightarrow> fs_state \<Rightarrow> 'm \<Rightarrow> int \<times> 'm" where
  "emu_getcwd G pid destination n fs m =
     (let path = (if cwd fs = [] then ''/'' else cwd fs)
      in if n = 0 then (- EINVAL, m)
         else if n < length path + 1 then (- ERANGE, m)
         else (case guest_write_exact G pid destination (bytes_of_string path @ [0]) m of
                 (True, m) \<Rightarrow> (int (length path + 1), m)
               | (False, m) \<Rightarrow> (- EFAULT, m)))"

definition emu_vfs_readlinkat ::
  "'m guest \<Rightarrow> int \<Rightarrow> int \<Rightarrow> u64 \<Rightarrow> u64 \<Rightarrow> u64 \<Rightarrow> fs_state \<Rightarrow> fd_manager \<Rightarrow> 'm \<Rightarrow> (exn + int) \<times> 'm" where
  "emu_vfs_readlinkat G pid dirfd path_ptr buffer n fs fdm m =
     (let count = sint (ucast n :: u32)
      in if count \<le> 0 then (Inr (- EINVAL), m)
         else (case read_guest_string G pid path_ptr m of
           Inl copied \<Rightarrow> (Inr copied, m)
         | Inr path \<Rightarrow>
             (case resolve_path_checked fs fdm dirfd path False False False of
                Inl e \<Rightarrow> (Inl e, m)
              | Inr (Inl err) \<Rightarrow> (Inr err, m)
              | Inr (Inr resolved) \<Rightarrow>
                  (case do_readlink resolved fs fdm of
                     Inl e \<Rightarrow> (Inl e, m)
                   | Inr (Inl err) \<Rightarrow> (Inr err, m)
                   | Inr (Inr target) \<Rightarrow>
                       (let bs = (if int (length target) \<le> count then target else take (nat count) target)
                        in case guest_write_exact G pid buffer bs m of
                             (True, m) \<Rightarrow> (Inr (int (length bs)), m)
                           | (False, m) \<Rightarrow> (Inr (- EFAULT), m))))))"

end
