(* ===== verification/Vfs_Path.thy ===== *)
theory Vfs_Path
  imports Vfs_Names
begin

text \<open>
  Path resolution: canonical paths as lists of components, the walk of \<open>resolve_path_checked\<close> over
  them, and that a resolved path resolves to itself.
\<close>

section \<open>Canonical paths\<close>

definition slash_free :: "string \<Rightarrow> bool" where
  "slash_free p \<longleftrightarrow> CHR ''/'' \<notin> set p"

definition component :: "string \<Rightarrow> bool" where
  "component p \<longleftrightarrow> p \<noteq> [] \<and> slash_free p \<and> p \<noteq> ''.'' \<and> p \<noteq> ''..'' \<and> length p \<le> NAME_MAX"

definition path_of :: "string list \<Rightarrow> string" where
  "path_of cs = (if cs = [] then ''/'' else concat (map (\<lambda>c. CHR ''/'' # c) cs))"

lemma path_of_Nil [simp]: "path_of [] = ''/''"
  by (simp add: path_of_def)

lemma path_of_hd: "path_of cs \<noteq> []" "hd (path_of cs) = CHR ''/''"
  by (cases cs; simp add: path_of_def)+

lemma path_of_snoc: "path_of (cs @ [c]) = (if cs = [] then CHR ''/'' # c else path_of cs @ CHR ''/'' # c)"
  by (simp add: path_of_def)

lemma last_path_of:
  assumes "component c"
  shows "last (path_of (cs @ [c])) \<noteq> CHR ''/''"
proof -
  have "c \<noteq> []" "last c \<noteq> CHR ''/''"
    using assms last_in_set [of c] unfolding component_def slash_free_def by metis+
  then show ?thesis by (simp add: path_of_snoc)
qed

lemma join_path_of:
  assumes "list_all component cs" "component c"
  shows "join_paths (path_of cs) c = path_of (cs @ [c])"
proof -
  have c: "c \<noteq> []" "hd c \<noteq> CHR ''/''" using assms(2) by (cases c; auto simp: component_def slash_free_def)+
  show ?thesis
  proof (cases cs rule: rev_cases)
    case Nil
    then show ?thesis using c by (simp add: join_paths_def path_of_def)
  next
    case (snoc ds d)
    have d: "component d" using assms(1) snoc by simp
    have l: "last (path_of cs) \<noteq> CHR ''/''" "cs \<noteq> []" using last_path_of [OF d, of ds] snoc by auto
    then have "path_of cs \<noteq> ''/''" by auto
    then show ?thesis
      using c l path_of_hd(1) [of cs] by (simp add: join_paths_def path_of_snoc)
  qed
qed

lemma find_last_slash_snoc:
  assumes "slash_free c"
  shows "find_last_slash (p @ CHR ''/'' # c) = Some (length p)"
proof -
  have "dropWhile (\<lambda>x. x \<noteq> CHR ''/'') (rev c @ CHR ''/'' # rev p) = CHR ''/'' # rev p"
    by (subst dropWhile_append2) (use assms in \<open>auto simp: slash_free_def\<close>)
  then show ?thesis unfolding find_last_slash_def by simp
qed

lemma parent_path_of:
  assumes "list_all component cs"
  shows "parent_of (path_of cs) = path_of (butlast cs)"
proof (cases cs rule: rev_cases)
  case Nil
  then show ?thesis by (simp add: parent_of_def find_last_slash_def)
next
  case (snoc ds d)
  have d: "slash_free d" using assms snoc by (simp add: component_def)
  show ?thesis
  proof (cases "ds = []")
    case True
    then show ?thesis using find_last_slash_snoc [OF d, of "[]"] snoc
      by (simp add: parent_of_def path_of_def)
  next
    case False
    then show ?thesis using find_last_slash_snoc [OF d, of "path_of ds"] snoc path_of_hd(1) [of ds]
      by (simp add: parent_of_def path_of_snoc split: nat.splits)
  qed
qed

lemma split_path_slash_free: "p \<in> set (split_path s) \<Longrightarrow> slash_free p"
  by (induction s rule: split_path.induct) (auto simp: slash_free_def split: if_splits dest: set_takeWhileD)

lemma split_path_append:
  "slash_free c \<Longrightarrow> c \<noteq> [] \<Longrightarrow> s = [] \<or> hd s = CHR ''/'' \<Longrightarrow> split_path (c @ s) = c # split_path s"
proof (cases c)
  case (Cons x xs)
  assume "slash_free c" "s = [] \<or> hd s = CHR ''/''"
  then have x: "x \<noteq> CHR ''/''" "\<And>y. y \<in> set xs \<Longrightarrow> y \<noteq> CHR ''/''"
    and s: "takeWhile (\<lambda>c. c \<noteq> CHR ''/'') s = []" "dropWhile (\<lambda>c. c \<noteq> CHR ''/'') s = s"
    using Cons by (auto simp: slash_free_def) (cases s; auto)+
  have "takeWhile (\<lambda>c. c \<noteq> CHR ''/'') (xs @ s) = xs" "dropWhile (\<lambda>c. c \<noteq> CHR ''/'') (xs @ s) = s"
    using takeWhile_append2 [of xs "\<lambda>c. c \<noteq> CHR ''/''" s] dropWhile_append2 [of xs "\<lambda>c. c \<noteq> CHR ''/''" s] x(2) s
    by auto
  with x(1) show ?thesis using Cons by simp
qed simp

lemma split_path_of: "list_all component cs \<Longrightarrow> split_path (path_of cs) = cs"
proof -
  have "split_path (concat (map (\<lambda>c. CHR ''/'' # c) cs)) = cs" if "list_all component cs"
    using that
  proof (induction cs)
    case (Cons c cs)
    have "concat (map (\<lambda>c. CHR ''/'' # c) cs) = [] \<or> hd (concat (map (\<lambda>c. CHR ''/'' # c) cs)) = CHR ''/''"
      by (cases cs) auto
    then show ?case using Cons split_path_append [of c "concat (map (\<lambda>c. CHR ''/'' # c) cs)"]
      by (simp add: component_def)
  qed simp
  moreover have "split_path ''/'' = []" by simp
  ultimately show "list_all component cs \<Longrightarrow> ?thesis" by (auto simp: path_of_def)
qed

lemma path_of_inj: "list_all component cs \<Longrightarrow> list_all component ds \<Longrightarrow> path_of cs = path_of ds \<Longrightarrow> cs = ds"
  by (metis split_path_of)

section \<open>The walk\<close>

type_synonym files = "(string, vfs_node) omap"

definition is_dir :: "files \<Rightarrow> string \<Rightarrow> bool" where
  "is_dir files p \<longleftrightarrow> (case map_of files p of None \<Rightarrow> False | Some n \<Rightarrow> S_ISDIR (vn_mode n))"

definition is_link :: "files \<Rightarrow> string \<Rightarrow> bool" where
  "is_link files p \<longleftrightarrow> (case map_of files p of None \<Rightarrow> False | Some n \<Rightarrow> S_ISLNK (vn_mode n))"

lemma dir_not_link: "is_dir files p \<Longrightarrow> \<not> is_link files p"
  by (auto simp: is_dir_def is_link_def S_ISDIR_def S_ISLNK_def split: option.splits)

text \<open>Every proper prefix of the path is a captured directory.\<close>

definition reachable :: "files \<Rightarrow> string list \<Rightarrow> bool" where
  "reachable files cs \<longleftrightarrow> list_all component cs \<and> (\<forall>k<length cs. is_dir files (path_of (take k cs)))"

lemma reachable_Nil [simp]: "reachable files []"
  by (simp add: reachable_def)

lemma reachable_snoc:
  "reachable files (cs @ [c]) \<longleftrightarrow> reachable files cs \<and> component c \<and> is_dir files (path_of cs)"
  by (auto simp: reachable_def less_Suc_eq)

lemma reachable_butlast: "reachable files cs \<Longrightarrow> reachable files (butlast cs)"
  by (cases cs rule: rev_cases) (auto simp: reachable_snoc)

lemma reachable_parent: "reachable files cs \<Longrightarrow> cs \<noteq> [] \<Longrightarrow> is_dir files (path_of (butlast cs))"
  by (cases cs rule: rev_cases) (auto simp: reachable_snoc)

lemma set_prepend: "p \<in> set (prepend v pending) \<Longrightarrow> slash_free p \<or> p \<in> set pending"
  by (auto simp: prepend_def split: if_splits dest: split_path_slash_free) (simp add: slash_free_def)

text \<open>One component of a walk that succeeds.\<close>

definition walk_inv :: "files \<Rightarrow> bool \<Rightarrow> string list \<Rightarrow> string list \<Rightarrow> bool" where
  "walk_inv files follow cs pending \<longleftrightarrow> reachable files cs \<and> (follow \<longrightarrow> \<not> is_link files (path_of cs)) \<and>
     (\<forall>p \<in> set pending. slash_free p)"

lemma resolve_step:
  assumes run: "resolve_loop files follow search creating links (path_of cs) (part # pending) = Inr (Inr r)"
    and inv: "walk_inv files follow cs (part # pending)"
  obtains links' cs' pending' where
    "resolve_loop files follow search creating links' (path_of cs') pending' = Inr (Inr r)"
    "40 - links' < 40 - links \<or> links' = links \<and> pending' = pending" "walk_inv files follow cs' pending'"
proof -
  note step = run [unfolded resolve_loop.simps(2)]
  from step obtain parent where parent: "map_of files (path_of cs) = Some parent" "S_ISDIR (vn_mode parent)"
    "length part \<le> NAME_MAX" by (auto split: option.splits if_splits)
  have dir: "is_dir files (path_of cs)" using parent by (simp add: is_dir_def)
  have cs: "list_all component cs" "reachable files cs" using inv by (auto simp: walk_inv_def reachable_def)
  have root: "is_dir files ''/''"
    using dir cs(2) by (cases "cs = []") (auto simp: reachable_def dest: spec [of _ 0])
  consider (stay) "part = [] \<or> part = ''.''" | (up) "part = ''..''"
    | (down) "\<not> (part = [] \<or> part = ''.'')" "part \<noteq> ''..''" by blast
  then show thesis
  proof cases
    case stay
    then show thesis using step parent inv
      by (intro that [of links cs pending]) (auto simp: walk_inv_def split: if_splits)
  next
    case up
    have "\<not> is_link files (path_of (butlast cs))"
      using reachable_parent [OF cs(2)] dir dir_not_link by (cases "cs = []") auto
    then show thesis using step parent inv up reachable_butlast [OF cs(2)]
      by (intro that [of links "butlast cs" pending]) (auto simp: walk_inv_def parent_path_of cs split: if_splits)
  next
    case down
    have c: "component part" using down parent(3) inv by (auto simp: component_def walk_inv_def)
    have nxt: "join_paths (path_of cs) part = path_of (cs @ [part])" by (rule join_path_of [OF cs(1) c])
    have snoc: "reachable files (cs @ [part])" using cs c dir by (simp add: reachable_snoc)
    show thesis
    proof (cases "is_link files (path_of (cs @ [part])) \<and> (pending \<noteq> [] \<or> follow)")
      case True
      then obtain node where node: "map_of files (path_of (cs @ [part])) = Some node" "S_ISLNK (vn_mode node)"
        by (auto simp: is_link_def split: option.splits)
      define target where "target = string_of_bytes (vn_content node)"
      let ?cs = "if hd target = CHR ''/'' then [] else cs"
      have go: "resolve_loop files follow search creating (links + 1) (path_of ?cs) (prepend target pending) = Inr (Inr r)"
        "links + 1 \<le> 40"
        using step parent down node True nxt
        by (auto simp: target_def Let_def split: if_splits)
      have "walk_inv files follow ?cs (prepend target pending)"
        using inv root set_prepend [of _ target pending] by (auto simp: walk_inv_def dir_not_link)
      then show thesis using go by (intro that [of "links + 1" ?cs]) auto
    next
      case False
      then show thesis using step parent down nxt snoc inv
        by (intro that [of links "cs @ [part]" pending])
          (auto simp: walk_inv_def is_link_def Let_def split: if_splits option.splits)
    qed
  qed
qed

lemma resolve_loop_reaches:
  "resolve_loop files follow search creating links (path_of cs) pending = Inr (Inr r) \<Longrightarrow>
   walk_inv files follow cs pending \<Longrightarrow>
   \<exists>rs. r = path_of rs \<and> reachable files rs \<and> (follow \<longrightarrow> \<not> is_link files r)"
proof (induction "(links, pending)" arbitrary: links pending cs
    rule: wf_induct [OF wf_measures, of "[\<lambda>(links, pending). 40 - links, \<lambda>(links, pending). length pending]"])
  case 1
  show ?case
  proof (cases pending)
    case Nil
    then show ?thesis using 1 by (auto simp: walk_inv_def)
  next
    case (Cons part rest)
    obtain links' cs' pending' where
      "resolve_loop files follow search creating links' (path_of cs') pending' = Inr (Inr r)"
      "40 - links' < 40 - links \<or> links' = links \<and> pending' = rest" "walk_inv files follow cs' pending'"
      by (rule resolve_step [OF "1.prems" [unfolded Cons]])
    then show ?thesis using "1.hyps" Cons by auto
  qed
qed

text \<open>A canonical path is walked to itself.\<close>

lemma resolve_loop_canonical:
  "reachable files (cs @ ds) \<Longrightarrow> (follow \<longrightarrow> \<not> is_link files (path_of (cs @ ds))) \<Longrightarrow>
   resolve_loop files follow False False links (path_of cs) ds = Inr (Inr (path_of (cs @ ds)))"
proof (induction ds arbitrary: cs)
  case (Cons d ds)
  have reach: "reachable files ((cs @ [d]) @ ds)" using Cons.prems(1) by simp
  have cs: "list_all component cs" "component d" "is_dir files (path_of cs)"
    using Cons.prems(1) by (auto simp: reachable_def dest: spec [of _ "length cs"])
  have "\<not> (is_link files (path_of (cs @ [d])) \<and> (ds \<noteq> [] \<or> follow))"
  proof (cases "ds = []")
    case True
    then show ?thesis using Cons.prems(2) by auto
  next
    case False
    then have "is_dir files (path_of (cs @ [d]))"
      using reach by (auto simp: reachable_def dest: spec [of _ "length (cs @ [d])"])
    then show ?thesis by (simp add: dir_not_link)
  qed
  moreover have "resolve_loop files follow False False links (path_of (cs @ [d])) ds =
      Inr (Inr (path_of ((cs @ [d]) @ ds)))"
    using Cons.IH [OF reach] Cons.prems(2) by simp
  ultimately show ?case using cs join_path_of [OF cs(1,2)]
    by (auto simp: resolve_loop.simps(2) component_def is_dir_def is_link_def Let_def split: option.splits)
qed simp

section \<open>Resolution\<close>

definition cwd_ok :: "fs_state \<Rightarrow> bool" where
  "cwd_ok fs \<longleftrightarrow> is_dir (filesystem fs) ''/'' \<and>
     (cwd fs \<noteq> [] \<longrightarrow> (\<exists>cs. cwd fs = path_of cs \<and> reachable (filesystem fs) cs \<and> is_dir (filesystem fs) (cwd fs)))"

definition dirfds_ok :: "fs_state \<Rightarrow> bool" where
  "dirfds_ok fs \<longleftrightarrow> (\<forall>fd d. map_of (open_files fs) fd = Some d \<longrightarrow> is_dir (filesystem fs) (of_path d) \<longrightarrow>
     (\<exists>cs. of_path d = path_of cs \<and> reachable (filesystem fs) cs))"

lemma resolve_reaches:
  assumes "resolve_path_checked fs fdm dirfd path follow search creating = Inr (Inr r)" "cwd_ok fs" "dirfds_ok fs"
  shows "\<exists>rs. r = path_of rs \<and> reachable (filesystem fs) rs \<and> (follow \<longrightarrow> \<not> is_link (filesystem fs) r)"
proof -
  have "\<exists>cs. reachable (filesystem fs) cs \<and> is_dir (filesystem fs) (path_of cs) \<and>
      resolve_loop (filesystem fs) follow search creating 0 (path_of cs) (prepend path []) = Inr (Inr r)"
  proof (cases "hd path = CHR ''/''")
    case True
    then show ?thesis using assms(1,2)
      by (intro exI [of _ "[]"]) (auto simp: resolve_path_checked_def cwd_ok_def split: if_splits)
  next
    case relative: False
    show ?thesis
    proof (cases "dirfd = AT_FDCWD")
      case True
      obtain cs where "(if cwd fs = [] then ''/'' else cwd fs) = path_of cs" "reachable (filesystem fs) cs"
        "is_dir (filesystem fs) (path_of cs)"
        using assms(2) by (cases "cwd fs = []") (auto simp: cwd_ok_def intro: that [of "[]"])
      then show ?thesis using assms(1) relative True
        by (intro exI [of _ cs]) (auto simp: resolve_path_checked_def Let_def split: if_splits)
    next
      case False
      then obtain d where d: "map_of (open_files fs) dirfd = Some d" "is_dir (filesystem fs) (of_path d)"
        "resolve_loop (filesystem fs) follow search creating 0 (of_path d) (prepend path []) = Inr (Inr r)"
        using assms(1) relative
        by (auto simp: resolve_path_checked_def Let_def is_dir_def split: if_splits option.splits)
      then obtain cs where "of_path d = path_of cs" "reachable (filesystem fs) cs"
        using assms(3) unfolding dirfds_ok_def by blast
      then show ?thesis using d by auto
    qed
  qed
  then obtain cs where cs: "reachable (filesystem fs) cs" "is_dir (filesystem fs) (path_of cs)"
    "resolve_loop (filesystem fs) follow search creating 0 (path_of cs) (prepend path []) = Inr (Inr r)" by blast
  have "walk_inv (filesystem fs) follow cs (prepend path [])"
    using cs(1,2) set_prepend [of _ path "[]"] by (auto simp: walk_inv_def dir_not_link)
  from resolve_loop_reaches [OF cs(3) this] show ?thesis .
qed

lemma resolve_canonical_path:
  assumes "reachable (filesystem fs) rs" "is_dir (filesystem fs) ''/''"
    "follow \<longrightarrow> \<not> is_link (filesystem fs) (path_of rs)"
  shows "resolve_path_checked fs fdm dirfd (path_of rs) follow False False = Inr (Inr (path_of rs))"
proof (cases rs rule: rev_cases)
  case Nil
  then show ?thesis using assms(2)
    by (auto simp: resolve_path_checked_def prepend_def resolve_loop.simps(2) is_dir_def split: option.splits)
next
  case (snoc ds d)
  have comps: "list_all component rs" "component d" using assms(1) snoc by (auto simp: reachable_def)
  have "prepend (path_of rs) [] = rs"
    using split_path_of [OF comps(1)] last_path_of [OF comps(2), of ds] snoc by (simp add: prepend_def)
  then show ?thesis
    using resolve_loop_canonical [of "filesystem fs" "[]" rs follow 0] assms path_of_hd [of rs]
    by (simp add: resolve_path_checked_def)
qed

end
