(* ===== verification/Vfs_Map.thy ===== *)
theory Vfs_Map
  imports Vfs_Ops
begin

text \<open>
  The record of the file mappings of a process (\<open>src/src/subsys/fs/fsstate.cpp\<close>):
  \<open>virtual_file_mapping_sources\<close> keeps the mapped ranges with their files, and
  \<open>virtual_file_mappings\<close> their union. They refine a function from addresses to files.
\<close>

section \<open>Operations\<close>

type_synonym sources = "(u64, u64 \<times> string) omap"

text \<open>\<open>mapping_coverage\<close> merges adjacent ranges from the left.\<close>

definition extend_coverage :: "(u64, u64) omap \<Rightarrow> u64 \<times> u64 \<times> string \<Rightarrow> (u64, u64) omap" where
  "extend_coverage coverage source =
     (if coverage \<noteq> [] \<and> snd (last coverage) = fst source
      then butlast coverage @ [(fst (last coverage), fst (snd source))]
      else om_emplace (fst source) (fst (snd source)) coverage)"

definition mapping_coverage :: "sources \<Rightarrow> (u64, u64) omap" where
  "mapping_coverage sources = foldl extend_coverage [] sources"

text \<open>
  The loop of \<open>remove_virtual_file_mapping\<close> over the sources in order, from the one before
  \<open>lower_bound(start)\<close>: a source that overlaps the range is cut to what is outside. The ranges
  before the first one it visits are those the loop skips (\<open>right <= start\<close>) or leaves alone.
\<close>

fun cut_sources :: "u64 \<Rightarrow> u64 \<Rightarrow> sources \<Rightarrow> sources" where
  "cut_sources start stop [] = []"
| "cut_sources start stop ((left, right, path) # rest) =
     (if \<not> left < stop then (left, right, path) # rest
      else if right \<le> start then (left, right, path) # cut_sources start stop rest
      else (if left < start then [(left, start, path)] else []) @
           (if stop < right then (stop, right, path) # rest else cut_sources start stop rest))"

fun before_lower_bound :: "u64 \<Rightarrow> sources \<Rightarrow> sources \<times> sources" where
  "before_lower_bound start [] = ([], [])"
| "before_lower_bound start (x # xs) =
     (if xs \<noteq> [] \<and> fst (hd xs) < start
      then (case before_lower_bound start xs of (skipped, rest) \<Rightarrow> (x # skipped, rest))
      else ([], x # xs))"

definition remove_virtual_file_mapping :: "u64 \<Rightarrow> u64 \<Rightarrow> fs_state \<Rightarrow> (exn + unit) \<times> fs_state" where
  "remove_virtual_file_mapping start stop fs =
     (if stop \<le> start then (Inr (), fs)
      else if start mod 4096 \<noteq> 0 \<or> stop mod 4096 \<noteq> 0
      then (Inl (Runtime_error ''Unaligned virtual file mapping removal''), fs)
      else
        (let (skipped, rest) = before_lower_bound start (virtual_file_mapping_sources fs);
             sources = skipped @ cut_sources start stop rest
         in (Inr (), fs\<lparr>virtual_file_mapping_sources := sources, virtual_file_mappings := mapping_coverage sources\<rparr>)))"

fun overlap_scan :: "u64 \<Rightarrow> u64 \<Rightarrow> u64 option \<Rightarrow> (u64, u64) omap \<Rightarrow> bool" where
  "overlap_scan start stop previous [] = (case previous of None \<Rightarrow> False | Some right \<Rightarrow> start < right)"
| "overlap_scan start stop previous ((left, right) # rest) =
     (if left < start then overlap_scan start stop (Some right) rest
      else left < stop \<or> (case previous of None \<Rightarrow> False | Some r \<Rightarrow> start < r))"

definition overlaps_virtual_file_mapping :: "u64 \<Rightarrow> u64 \<Rightarrow> fs_state \<Rightarrow> bool" where
  "overlaps_virtual_file_mapping start stop fs \<longleftrightarrow>
     \<not> stop \<le> start \<and> overlap_scan start stop None (virtual_file_mappings fs)"

text \<open>Insertion of a range that meets none, merged with its neighbours of the same file.\<close>

fun insert_source :: "u64 \<Rightarrow> u64 \<Rightarrow> string \<Rightarrow> sources \<Rightarrow> sources" where
  "insert_source start stop path [] = [(start, stop, path)]"
| "insert_source start stop path ((left, right, source) # rest) =
     (if left < start
      then
        if right = start \<and> source = path \<and> (rest = [] \<or> start \<le> fst (hd rest))
        then insert_source left stop path rest
        else (left, right, source) # insert_source start stop path rest
      else if left = stop \<and> source = path then (start, right, path) # rest
      else (start, stop, path) # (left, right, source) # rest)"

definition add_virtual_file_mapping :: "u64 \<Rightarrow> u64 \<Rightarrow> string \<Rightarrow> fs_state \<Rightarrow> fd_manager \<Rightarrow> (exn + unit) \<times> fs_state" where
  "add_virtual_file_mapping start stop path fs fdm =
     (let invalid = (Inl (Runtime_error ''Invalid virtual file mapping source''), fs)
      in if stop \<le> start \<or> start mod 4096 \<noteq> 0 \<or> stop mod 4096 \<noteq> 0 then invalid
         else (case map_of (filesystem fs) path of
           None \<Rightarrow> invalid
         | Some node \<Rightarrow>
             if \<not> S_ISREG (vn_mode node) then invalid
             else (case resolve_path_checked fs fdm AT_FDCWD path True False False of
               Inl e \<Rightarrow> (Inl e, fs)
             | Inr (Inl err) \<Rightarrow> invalid
             | Inr (Inr canonical) \<Rightarrow>
                 if canonical \<noteq> path then invalid
                 else
                   (case remove_virtual_file_mapping start stop fs of
                      (Inl e, fs) \<Rightarrow> (Inl e, fs)
                    | (Inr _, fs) \<Rightarrow>
                        (let sources = insert_source start stop canonical (virtual_file_mapping_sources fs)
                         in (Inr (), fs\<lparr>virtual_file_mapping_sources := sources,
                                        virtual_file_mappings := mapping_coverage sources\<rparr>))))))"

section \<open>The sources as a function of the address\<close>

fun source_at :: "sources \<Rightarrow> u64 \<Rightarrow> string option" where
  "source_at [] a = None"
| "source_at ((left, right, path) # rest) a = (if left \<le> a \<and> a < right then Some path else source_at rest a)"

text \<open>
  Sorted, disjoint, not empty, and adjacent ranges have different files: \<open>lo\<close> and \<open>q\<close> are the end and
  the file of the range before.
\<close>

fun sources_from :: "u64 \<Rightarrow> string option \<Rightarrow> sources \<Rightarrow> bool" where
  "sources_from lo q [] \<longleftrightarrow> True"
| "sources_from lo q ((left, right, path) # rest) \<longleftrightarrow>
     lo \<le> left \<and> left < right \<and> (lo = left \<longrightarrow> q \<noteq> Some path) \<and> sources_from right (Some path) rest"

abbreviation sources_ok :: "sources \<Rightarrow> bool" where
  "sources_ok s \<equiv> sources_from 0 None s"

lemma sources_from_weaken: "sources_from lo q s \<Longrightarrow> lo' < lo \<Longrightarrow> sources_from lo' q' s"
  by (cases s) auto

lemma sources_from_None: "sources_from lo q s \<Longrightarrow> lo' \<le> lo \<Longrightarrow> sources_from lo' None s"
  by (cases s) auto

lemma source_at_below: "sources_from lo q s \<Longrightarrow> a < lo \<Longrightarrow> source_at s a = None"
  by (induction s arbitrary: lo q) fastforce+

lemma sources_lower: "sources_from lo q s \<Longrightarrow> (l, r, p) \<in> set s \<Longrightarrow> lo \<le> l \<and> l < r"
  by (induction s arbitrary: lo q) fastforce+

lemma cut_sources_at:
  "sources_from lo q s \<Longrightarrow> start < stop \<Longrightarrow>
   source_at (cut_sources start stop s) a = (if start \<le> a \<and> a < stop then None else source_at s a)"
proof (induction start stop s arbitrary: lo q rule: cut_sources.induct)
  case (2 start stop left right path rest)
  then have ok: "left < right" "sources_from right (Some path) rest" by auto
  have below: "source_at rest a = None" if "a < right" using source_at_below [OF ok(2) that] .
  show ?case
  proof (cases "\<not> left < stop")
    case True
    then show ?thesis using below ok by auto
  next
    case left: False
    show ?thesis
    proof (cases "right \<le> start")
      case True
      then show ?thesis using left "2.IH"(1) [OF _ _ ok(2) "2.prems"(2)] by auto
    next
      case False
      then show ?thesis using left below "2.IH"(2) [OF _ _ _ ok(2) "2.prems"(2)] ok(1) "2.prems"(2)
        by (cases "stop < right") auto
    qed
  qed
qed simp

lemma cut_sources_ok:
  "sources_from lo q s \<Longrightarrow> start < stop \<Longrightarrow> sources_from lo q (cut_sources start stop s)"
proof (induction start stop s arbitrary: lo q rule: cut_sources.induct)
  case (2 start stop left right path rest)
  then have ok: "lo \<le> left" "left < right" "lo = left \<longrightarrow> q \<noteq> Some path" "sources_from right (Some path) rest" by auto
  show ?case
  proof (cases "\<not> left < stop \<or> right \<le> start")
    case True
    then show ?thesis using "2.IH"(1) [OF _ _ ok(4) "2.prems"(2)] ok by auto
  next
    case False
    then have cut: "left < stop" "start < right" by auto
    show ?thesis
    proof (cases "stop < right")
      case True
      then show ?thesis using cut ok "2.prems"(2) by auto
    next
      case stop: False
      have IH: "sources_from right (Some path) (cut_sources start stop rest)"
        using "2.IH"(2) [OF _ _ _ ok(4) "2.prems"(2)] cut stop by auto
      then have "sources_from lo q (cut_sources start stop rest)"
        using ok by (intro sources_from_weaken [OF IH]) simp
      moreover have "sources_from start (Some path) (cut_sources start stop rest)"
        using cut by (intro sources_from_weaken [OF IH]) simp
      ultimately show ?thesis using cut stop ok by auto
    qed
  qed
qed simp

definition avoids :: "u64 \<Rightarrow> u64 \<Rightarrow> sources \<Rightarrow> bool" where
  "avoids start stop s \<longleftrightarrow> (\<forall>(l, r, p) \<in> set s. r \<le> start \<or> stop \<le> l)"

lemma cut_sources_avoids:
  "sources_from lo q s \<Longrightarrow> start < stop \<Longrightarrow> avoids start stop (cut_sources start stop s)"
proof (induction start stop s arbitrary: lo q rule: cut_sources.induct)
  case (2 start stop left right path rest)
  then have ok: "left < right" "sources_from right (Some path) rest" by auto
  have above: "right \<le> l" if "(l, r, p) \<in> set rest" for l r p using sources_lower [OF ok(2) that] by simp
  show ?case
  proof (cases "\<not> left < stop \<or> right \<le> start")
    case True
    then show ?thesis using "2.IH"(1) [OF _ _ ok(2) "2.prems"(2)] above ok
      by (force simp: avoids_def)
  next
    case False
    then show ?thesis using "2.IH"(2) [OF _ _ _ ok(2) "2.prems"(2)] above
      by (cases "stop < right") (force simp: avoids_def)+
  qed
qed (simp add: avoids_def)

lemma before_lower_bound_cut:
  "sources_from lo q s \<Longrightarrow> start < stop \<Longrightarrow> before_lower_bound start s = (skipped, rest) \<Longrightarrow>
   skipped @ cut_sources start stop rest = cut_sources start stop s"
proof (induction start s arbitrary: lo q skipped rule: before_lower_bound.induct)
  case (2 start x xs)
  obtain l r p where x: "x = (l, r, p)" by (cases x)
  show ?case
  proof (cases "xs \<noteq> [] \<and> fst (hd xs) < start")
    case True
    then obtain sk where sk: "before_lower_bound start xs = (sk, rest)" "skipped = x # sk"
      using "2.prems"(3) by (auto split: prod.splits)
    have xs: "sources_from r (Some p) xs" "l < r" using "2.prems"(1) x by auto
    have "r < start" using True xs(1) by (cases xs) auto
    moreover have "sk @ cut_sources start stop rest = cut_sources start stop xs"
      using "2.IH" [OF True xs(1) "2.prems"(2) sk(1)] .
    ultimately show ?thesis using sk(2) x xs(2) "2.prems"(2) by auto
  next
    case False
    then show ?thesis using "2.prems"(3) by auto
  qed
qed simp

lemma insert_source_at:
  "sources_from lo q s \<Longrightarrow> avoids start stop s \<Longrightarrow> start < stop \<Longrightarrow>
   source_at (insert_source start stop path s) a = (if start \<le> a \<and> a < stop then Some path else source_at s a)"
proof (induction start stop path s arbitrary: lo q rule: insert_source.induct)
  case (2 start stop path left right source rest)
  then have ok: "left < right" "sources_from right (Some source) rest" "right \<le> start \<or> stop \<le> left"
    "avoids start stop rest" by (auto simp: avoids_def)
  have below: "source_at rest a = None" if "a < right" using source_at_below [OF ok(2) that] .
  show ?case
  proof (cases "left < start")
    case True
    then have right: "right \<le> start" using ok(1,3) "2.prems"(3) by auto
    show ?thesis
    proof (cases "right = start \<and> source = path \<and> (rest = [] \<or> start \<le> fst (hd rest))")
      case merge: True
      have "avoids left stop rest"
        using ok(4) sources_lower [OF ok(2)] merge by (force simp: avoids_def)
      then show ?thesis using "2.IH"(1) [OF True merge ok(2)] True merge ok(1) "2.prems"(3) below
        by (auto simp del: insert_source.simps simp: insert_source.simps(2))
    next
      case False
      then show ?thesis using "2.IH"(2) [OF True False ok(2,4) "2.prems"(3)] True right below by auto
    qed
  next
    case False
    then have "stop \<le> left" using ok(1,3) by auto
    then show ?thesis using False ok(1) below "2.prems"(3) by auto
  qed
qed auto

lemma insert_source_ok:
  "sources_from lo q s \<Longrightarrow> avoids start stop s \<Longrightarrow> start < stop \<Longrightarrow> lo \<le> start \<Longrightarrow>
   (lo = start \<longrightarrow> q \<noteq> Some path) \<Longrightarrow> sources_from lo q (insert_source start stop path s)"
proof (induction start stop path s arbitrary: lo q rule: insert_source.induct)
  case (2 start stop path left right source rest)
  then have ok: "lo \<le> left" "left < right" "lo = left \<longrightarrow> q \<noteq> Some source"
    "sources_from right (Some source) rest" "right \<le> start \<or> stop \<le> left" "avoids start stop rest"
    by (auto simp: avoids_def)
  show ?case
  proof (cases "left < start")
    case True
    then have right: "right \<le> start" using ok(2,5) "2.prems"(3) by auto
    show ?thesis
    proof (cases "right = start \<and> source = path \<and> (rest = [] \<or> start \<le> fst (hd rest))")
      case merge: True
      have "avoids left stop rest"
        using ok(6) sources_lower [OF ok(4)] merge by (force simp: avoids_def)
      moreover have "sources_from lo q rest"
        using ok(1,2) by (intro sources_from_weaken [OF ok(4)]) simp
      ultimately show ?thesis using "2.IH"(1) [OF True merge, of lo q] True merge ok(1,3) "2.prems"(3) by simp
    next
      case False
      have "right = start \<longrightarrow> source \<noteq> path"
      proof
        assume "right = start"
        moreover have "rest = [] \<or> right \<le> fst (hd rest)" using ok(4) by (cases rest) auto
        ultimately show "source \<noteq> path" using False by auto
      qed
      then show ?thesis using "2.IH"(2) [OF True False ok(4,6) "2.prems"(3) right] True False ok by auto
    qed
  next
    case False
    then have "stop \<le> left" using ok(2,5) by auto
    then show ?thesis using False ok "2.prems"(3-5) by auto
  qed
qed auto

section \<open>The coverage\<close>

definition covered :: "(u64, u64) omap \<Rightarrow> u64 \<Rightarrow> bool" where
  "covered c a \<longleftrightarrow> (\<exists>(left, right) \<in> set c. left \<le> a \<and> a < right)"

text \<open>Sorted, not empty and with gaps between: no two ranges of the coverage touch.\<close>

fun gaps_from :: "u64 option \<Rightarrow> (u64, u64) omap \<Rightarrow> bool" where
  "gaps_from lo [] \<longleftrightarrow> True"
| "gaps_from lo ((left, right) # rest) \<longleftrightarrow>
     (case lo of None \<Rightarrow> True | Some b \<Rightarrow> b < left) \<and> left < right \<and> gaps_from (Some right) rest"

lemma om_put_above: "(\<forall>k' \<in> fst ` set m. k' < k) \<Longrightarrow> om_put k v m = m @ [(k, v)]"
  by (induction m) auto

lemma gaps_append:
  "gaps_from lo (c @ [(l, r)]) \<longleftrightarrow> gaps_from lo c \<and> l < r \<and>
     (case (if c = [] then lo else Some (snd (last c))) of None \<Rightarrow> True | Some b \<Rightarrow> b < l)"
  by (induction c arbitrary: lo) (auto split: option.splits)

lemma gaps_below: "gaps_from lo c \<Longrightarrow> (l, r) \<in> set c \<Longrightarrow> l < r \<and> r \<le> snd (last c)"
proof (induction c arbitrary: lo l r)
  case (Cons x c)
  obtain l0 r0 where x: "x = (l0, r0)" by (cases x)
  have ok: "l0 < r0" "gaps_from (Some r0) c" using Cons.prems(1) x by auto
  show ?case
  proof (cases c)
    case Nil
    then show ?thesis using Cons.prems(2) x ok by simp
  next
    case (Cons y d)
    obtain l1 r1 where y: "y = (l1, r1)" by (cases y)
    have "r0 < l1" "l1 < r1" "r1 \<le> snd (last c)" using ok(2) Cons.IH [OF ok(2), of l1 r1] Cons y by auto
    then have "r0 \<le> snd (last c)" by simp
    then show ?thesis using Cons.prems(2) Cons.IH [OF ok(2), of l r] x ok(1) Cons by auto
  qed
qed simp

lemma extend_coverage_ok:
  assumes "gaps_from None c" "c \<noteq> [] \<longrightarrow> snd (last c) \<le> left" "left < right"
  shows "gaps_from None (extend_coverage c (left, right, path)) \<and>
     extend_coverage c (left, right, path) \<noteq> [] \<and> snd (last (extend_coverage c (left, right, path))) = right \<and>
     (covered (extend_coverage c (left, right, path)) a \<longleftrightarrow> covered c a \<or> left \<le> a \<and> a < right)"
proof (cases "c \<noteq> [] \<and> snd (last c) = left")
  case True
  then obtain d l where c: "c = d @ [(l, left)]" by (metis append_butlast_last_id prod.collapse)
  have "l < left" using assms(1) c by (simp add: gaps_append)
  then show ?thesis using assms c
    by (auto simp: extend_coverage_def covered_def gaps_append)
next
  case False
  have "k < left" if "k \<in> fst ` set c" for k
    using that gaps_below [OF assms(1)] assms(2) False by fastforce
  then have "map_of c left = None" "om_put left right c = c @ [(left, right)]"
    by (auto intro: om_put_above simp: map_of_eq_None_iff)
  then have "extend_coverage c (left, right, path) = c @ [(left, right)]"
    using False by (auto simp: extend_coverage_def om_emplace_def)
  then show ?thesis using assms False by (auto simp: gaps_append covered_def)
qed

lemma foldl_coverage:
  "gaps_from None c \<Longrightarrow> (c \<noteq> [] \<longrightarrow> snd (last c) \<le> lo) \<Longrightarrow> sources_from lo q s \<Longrightarrow>
   gaps_from None (foldl extend_coverage c s) \<and>
   (covered (foldl extend_coverage c s) a \<longleftrightarrow> covered c a \<or> source_at s a \<noteq> None)"
proof (induction s arbitrary: c lo q)
  case (Cons x s)
  obtain l r p where x: "x = (l, r, p)" by (cases x)
  have ok: "lo \<le> l" "l < r" "sources_from r (Some p) s" using Cons.prems(3) x by auto
  have c: "c \<noteq> [] \<longrightarrow> snd (last c) \<le> l" using Cons.prems(2) ok(1) by auto
  from extend_coverage_ok [OF Cons.prems(1) c ok(2), of p] Cons.IH [OF _ _ ok(3), of "extend_coverage c x"]
  show ?case by (auto simp: x)
qed auto

lemma mapping_coverage_ok:
  assumes "sources_ok s"
  shows "gaps_from None (mapping_coverage s)" "covered (mapping_coverage s) a \<longleftrightarrow> source_at s a \<noteq> None"
  using foldl_coverage [of "[]" 0 None s a] assms by (auto simp: mapping_coverage_def covered_def)

lemma covered_Cons: "covered ((l, r) # c) a \<longleftrightarrow> l \<le> a \<and> a < r \<or> covered c a"
  by (auto simp: covered_def)

lemma gaps_above: "gaps_from (Some b) c \<Longrightarrow> covered c a \<Longrightarrow> b < a"
proof (induction c arbitrary: b)
  case (Cons x c)
  obtain l r where x: "x = (l, r)" by (cases x)
  then show ?case using Cons.prems Cons.IH [of r] by (auto simp: covered_Cons)
qed (simp add: covered_def)

lemma overlap_scan_iff:
  assumes "start < stop"
  shows "gaps_from previous c \<Longrightarrow> overlap_scan start stop previous c \<longleftrightarrow>
     (case previous of None \<Rightarrow> False | Some r \<Rightarrow> start < r) \<or> (\<exists>a. start \<le> a \<and> a < stop \<and> covered c a)"
proof (induction c arbitrary: previous)
  case Nil
  then show ?case by (auto simp: covered_def split: option.splits)
next
  case (Cons x c)
  obtain l r where x: "x = (l, r)" by (cases x)
  have ok: "case previous of None \<Rightarrow> True | Some b \<Rightarrow> b < l" "l < r" "gaps_from (Some r) c"
    using Cons.prems x by auto
  show ?case
  proof (cases "l < start")
    case True
    have "(\<exists>a. start \<le> a \<and> a < stop \<and> covered (x # c) a) \<longleftrightarrow>
        start < r \<or> (\<exists>a. start \<le> a \<and> a < stop \<and> covered c a)"
      using True assms by (auto simp: x covered_Cons intro: exI [of _ start])
    then show ?thesis using Cons.IH [OF ok(3)] True ok(1) by (auto simp: x split: option.splits)
  next
    case False
    have "(\<exists>a. start \<le> a \<and> a < stop \<and> covered (x # c) a) \<longleftrightarrow> l < stop"
      using False ok(2) gaps_above [OF ok(3)] by (fastforce simp: x covered_Cons intro: exI [of _ l])
    then show ?thesis using False by (auto simp: x)
  qed
qed

section \<open>The operations\<close>

definition mappings_ok :: "fs_state \<Rightarrow> bool" where
  "mappings_ok fs \<longleftrightarrow> sources_ok (virtual_file_mapping_sources fs) \<and>
     virtual_file_mappings fs = mapping_coverage (virtual_file_mapping_sources fs)"

abbreviation mapped_at :: "fs_state \<Rightarrow> u64 \<Rightarrow> string option" where
  "mapped_at fs \<equiv> source_at (virtual_file_mapping_sources fs)"

lemma remove_mapping:
  assumes "mappings_ok fs" "start mod 4096 = 0" "stop mod 4096 = 0"
  obtains fs' where "remove_virtual_file_mapping start stop fs = (Inr (), fs')" "mappings_ok fs'"
    "mapped_at fs' = (\<lambda>a. if start \<le> a \<and> a < stop then None else mapped_at fs a)"
    "start < stop \<Longrightarrow> virtual_file_mapping_sources fs' = cut_sources start stop (virtual_file_mapping_sources fs)"
    "filesystem fs' = filesystem fs"
proof (cases "stop \<le> start")
  case True
  then show thesis using assms by (intro that [of fs]) (auto simp: remove_virtual_file_mapping_def fun_eq_iff)
next
  case False
  obtain sk rest where b: "before_lower_bound start (virtual_file_mapping_sources fs) = (sk, rest)" by fastforce
  have ok: "sources_ok (virtual_file_mapping_sources fs)" using assms(1) by (simp add: mappings_ok_def)
  have cut: "sk @ cut_sources start stop rest = cut_sources start stop (virtual_file_mapping_sources fs)"
    using before_lower_bound_cut [OF ok _ b] False by simp
  show thesis
    using False assms(2,3) b cut cut_sources_ok [OF ok, of start stop] cut_sources_at [OF ok, of start stop]
    by (intro that [of "fs\<lparr>virtual_file_mapping_sources := cut_sources start stop (virtual_file_mapping_sources fs),
        virtual_file_mappings := mapping_coverage (cut_sources start stop (virtual_file_mapping_sources fs))\<rparr>"])
      (simp_all add: remove_virtual_file_mapping_def mappings_ok_def fun_eq_iff not_le Let_def)
qed

lemma add_mapping:
  assumes "mappings_ok fs" "add_virtual_file_mapping start stop path fs fdm = (Inr (), fs')"
  shows "mappings_ok fs'" "mapped_at fs' = (\<lambda>a. if start \<le> a \<and> a < stop then Some path else mapped_at fs a)"
    "filesystem fs' = filesystem fs"
proof -
  obtain fs1 where checks: "start < stop" "start mod 4096 = 0" "stop mod 4096 = 0"
    and rm: "remove_virtual_file_mapping start stop fs = (Inr (), fs1)"
    and fs': "fs' = fs1\<lparr>virtual_file_mapping_sources := insert_source start stop path (virtual_file_mapping_sources fs1),
         virtual_file_mappings := mapping_coverage (insert_source start stop path (virtual_file_mapping_sources fs1))\<rparr>"
    using assms(2)
    by (auto simp: add_virtual_file_mapping_def Let_def not_le split: if_splits option.splits sum.splits prod.splits)
  let ?s = "virtual_file_mapping_sources fs"
  let ?c = "cut_sources start stop ?s"
  have ok: "sources_ok ?s" using assms(1) by (simp add: mappings_ok_def)
  have fs1: "virtual_file_mapping_sources fs1 = ?c" "filesystem fs1 = filesystem fs"
    using rm checks(1) remove_mapping [OF assms(1) checks(2,3)] by (metis prod.inject)+
  note c = cut_sources_ok [OF ok checks(1)] cut_sources_avoids [OF ok checks(1)]
  show "mappings_ok fs'"
    using insert_source_ok [OF c checks(1)] by (simp add: mappings_ok_def fs' fs1)
  show "mapped_at fs' = (\<lambda>a. if start \<le> a \<and> a < stop then Some path else mapped_at fs a)"
    using insert_source_at [OF c checks(1)] cut_sources_at [OF ok checks(1)] by (auto simp: fs' fs1)
  show "filesystem fs' = filesystem fs" by (simp add: fs' fs1)
qed

lemma overlaps_mapping:
  assumes "mappings_ok fs"
  shows "overlaps_virtual_file_mapping start stop fs \<longleftrightarrow> (\<exists>a. start \<le> a \<and> a < stop \<and> mapped_at fs a \<noteq> None)"
proof (cases "stop \<le> start")
  case True
  then show ?thesis by (auto simp: overlaps_virtual_file_mapping_def)
next
  case False
  note cov = mapping_coverage_ok [of "virtual_file_mapping_sources fs"]
  show ?thesis
    using overlap_scan_iff [of start stop None "virtual_file_mappings fs"] cov assms False
    by (simp add: overlaps_virtual_file_mapping_def mappings_ok_def)
qed

section \<open>The contract of the mapped ranges\<close>

text \<open>
  What the memory system calls rely on: the ranges are a partial function of the address; mapping
  and unmapping update it on a range, and the overlap test finds a mapped address in a range.
\<close>

locale address_map =
  fixes ok :: "'s \<Rightarrow> bool"
    and at :: "'s \<Rightarrow> u64 \<Rightarrow> 'v option"
    and put :: "u64 \<Rightarrow> u64 \<Rightarrow> 'v \<Rightarrow> 's \<Rightarrow> (exn + unit) \<times> 's"
    and cut :: "u64 \<Rightarrow> u64 \<Rightarrow> 's \<Rightarrow> (exn + unit) \<times> 's"
    and meets :: "u64 \<Rightarrow> u64 \<Rightarrow> 's \<Rightarrow> bool"
  assumes put_ok: "ok s \<Longrightarrow> put l r v s = (Inr (), s') \<Longrightarrow>
      ok s' \<and> at s' = (\<lambda>a. if l \<le> a \<and> a < r then Some v else at s a)"
    and cut_ok: "ok s \<Longrightarrow> cut l r s = (Inr (), s') \<Longrightarrow>
      ok s' \<and> at s' = (\<lambda>a. if l \<le> a \<and> a < r then None else at s a)"
    and meets_iff: "ok s \<Longrightarrow> meets l r s \<longleftrightarrow> (\<exists>a. l \<le> a \<and> a < r \<and> at s a \<noteq> None)"
begin

lemma put_meets: "ok s \<Longrightarrow> put l r v s = (Inr (), s') \<Longrightarrow> l < r \<Longrightarrow> meets l r s'"
  using put_ok [of s l r v s'] meets_iff [of s' l r] by auto

lemma cut_meets: "ok s \<Longrightarrow> cut l r s = (Inr (), s') \<Longrightarrow> \<not> meets l r s'"
  using cut_ok [of s l r s'] meets_iff [of s' l r] by auto

lemma put_cut:
  assumes "ok s" "put l r v s = (Inr (), s1)" "cut l r s1 = (Inr (), s2)" "cut l r s = (Inr (), s3)"
  shows "at s2 = at s3"
  using put_ok [OF assms(1,2)] cut_ok [of s1, OF _ assms(3)] cut_ok [OF assms(1,4)] by auto

lemma put_elsewhere:
  assumes "ok s" "put l r v s = (Inr (), s')" "r \<le> l' \<or> r' \<le> l"
  shows "meets l' r' s' \<longleftrightarrow> meets l' r' s"
  using put_ok [OF assms(1,2)] meets_iff [of s' l' r'] meets_iff [OF assms(1), of l' r'] assms(3)
  by (auto simp: not_le)

end

interpretation vm: address_map mappings_ok mapped_at "\<lambda>start stop path fs. add_virtual_file_mapping start stop path fs fdm"
  remove_virtual_file_mapping overlaps_virtual_file_mapping for fdm
proof
  fix s l r v s' assume "mappings_ok s" "add_virtual_file_mapping l r v s fdm = (Inr (), s')"
  from add_mapping [OF this]
  show "mappings_ok s' \<and> mapped_at s' = (\<lambda>a. if l \<le> a \<and> a < r then Some v else mapped_at s a)" by simp
next
  fix s l r s' assume a: "mappings_ok s" "remove_virtual_file_mapping l r s = (Inr (), s')"
  show "mappings_ok s' \<and> mapped_at s' = (\<lambda>a. if l \<le> a \<and> a < r then None else mapped_at s a)"
  proof (cases "r \<le> l")
    case True
    then show ?thesis using a by (auto simp: remove_virtual_file_mapping_def fun_eq_iff)
  next
    case False
    then have pages: "l mod 4096 = 0" "r mod 4096 = 0"
      using a(2) by (auto simp: remove_virtual_file_mapping_def split: if_splits)
    show ?thesis
    proof (rule remove_mapping [OF a(1) pages])
      fix fs' assume "remove_virtual_file_mapping l r s = (Inr (), fs')" "mappings_ok fs'"
        "mapped_at fs' = (\<lambda>a. if l \<le> a \<and> a < r then None else mapped_at s a)"
      then show ?thesis using a(2) by simp
    qed
  qed
next
  fix s l r assume "mappings_ok s"
  then show "overlaps_virtual_file_mapping l r s \<longleftrightarrow> (\<exists>a. l \<le> a \<and> a < r \<and> mapped_at s a \<noteq> None)"
    by (rule overlaps_mapping)
qed

end
