(* ===== verification/Vfs_Inv.thy ===== *)
theory Vfs_Inv
  imports Vfs_Path Vfs_Map
begin

text \<open>
  The invariant of a file system and its descriptor table, and that every file and namespace
  operation keeps it. It contains what the loader checks of a saved file system
  (\<open>FileSystemState::serialize\<close>), so that every state the operations produce can be saved and
  loaded again.
\<close>

section \<open>What the loader checks\<close>

fun check_mappings :: "u64 option \<Rightarrow> (u64, u64) omap \<Rightarrow> bool" where
  "check_mappings previous [] \<longleftrightarrow> True"
| "check_mappings previous ((start, stop) # rest) \<longleftrightarrow>
     \<not> (stop \<le> start \<or> start mod 4096 \<noteq> 0 \<or> stop mod 4096 \<noteq> 0 \<or>
        (case previous of None \<Rightarrow> False | Some b \<Rightarrow> start \<le> b)) \<and> check_mappings (Some stop) rest"

fun check_sources :: "fs_state \<Rightarrow> fd_manager \<Rightarrow> (u64 \<times> string) option \<Rightarrow> sources \<Rightarrow> exn + unit" where
  "check_sources fs fdm previous [] = Inr ()"
| "check_sources fs fdm previous ((start, stop, path) # rest) =
     (let invalid = Inl (Runtime_error ''Invalid virtual file mapping source'')
      in if stop \<le> start \<or> start mod 4096 \<noteq> 0 \<or> stop mod 4096 \<noteq> 0 \<or>
            (case previous of None \<Rightarrow> False
             | Some (b, q) \<Rightarrow> start < b \<or> start = b \<and> path = q)
         then invalid
         else (case map_of (filesystem fs) path of
           None \<Rightarrow> invalid
         | Some node \<Rightarrow>
             if \<not> S_ISREG (vn_mode node) then invalid
             else andthen (resolve_path_checked fs fdm AT_FDCWD path True False False) (\<lambda>r.
               if r = Inr path then check_sources fs fdm (Some (stop, path)) rest else invalid)))"

definition serialize_checks :: "(string \<Rightarrow> u64) \<Rightarrow> fs_state \<Rightarrow> fd_manager \<Rightarrow> exn + unit" where
  "serialize_checks hash fs fdm =
     (if \<not> check_mappings None (virtual_file_mappings fs)
      then Inl (Runtime_error ''Invalid virtual file mapping provenance'')
      else andthen (check_sources fs fdm None (virtual_file_mapping_sources fs)) (\<lambda>_.
        if mapping_coverage (virtual_file_mapping_sources fs) \<noteq> virtual_file_mappings fs
        then Inl (Runtime_error ''Virtual file mapping sources do not cover provenance'')
        else andthen (validate_inode_state hash fs) (\<lambda>_.
          if creation_mask fs AND NOT 0x1FF \<noteq> 0
          then Inl (Runtime_error ''Invalid virtual filesystem creation mask'')
          else Inr ())))"

section \<open>The invariant\<close>

definition is_reg :: "files \<Rightarrow> string \<Rightarrow> bool" where
  "is_reg files p \<longleftrightarrow> (case map_of files p of None \<Rightarrow> False | Some n \<Rightarrow> S_ISREG (vn_mode n))"

lemma reg_not_dir: "is_reg files p \<Longrightarrow> \<not> is_dir files p"
  by (auto simp: is_dir_def is_reg_def S_ISDIR_def S_ISREG_def split: option.splits)

lemma reg_not_link: "is_reg files p \<Longrightarrow> \<not> is_link files p"
  by (auto simp: is_link_def is_reg_def S_ISLNK_def S_ISREG_def split: option.splits)

definition opens_ok :: "fs_state \<Rightarrow> bool" where
  "opens_ok fs \<longleftrightarrow> (\<forall>fd d. map_of (open_files fs) fd = Some d \<longrightarrow>
     om_mem (of_path d) (filesystem fs) \<and> 0 \<le> of_offset d \<and> of_offset d \<le> OFF_MAX)"

definition fds_agree :: "fs_state \<Rightarrow> fd_manager \<Rightarrow> bool" where
  "fds_agree fs fdm \<longleftrightarrow> (\<forall>fd. om_mem fd (open_files fs) \<longleftrightarrow> get_fd_type fd fdm \<in> {FT_FILE, FT_STDIO})"

definition sizes_ok :: "files \<Rightarrow> bool" where
  "sizes_ok files \<longleftrightarrow> (\<forall>p n. map_of files p = Some n \<longrightarrow>
     vn_size n = int (length (vn_content n)) \<and> int (length (vn_content n)) \<le> OFF_MAX)"

definition inodes_ok :: "(string \<Rightarrow> u64) \<Rightarrow> fs_state \<Rightarrow> bool" where
  "inodes_ok hash fs \<longleftrightarrow> next_inode fs \<noteq> 0 \<and> next_inode fs \<le> guest_inode_limit \<and>
     (\<forall>p n. map_of (filesystem fs) p = Some n \<longrightarrow> inode_override_ok hash (next_inode fs) p n) \<and>
     (\<forall>p n q k. map_of (filesystem fs) p = Some n \<longrightarrow> map_of (filesystem fs) q = Some k \<longrightarrow>
        node_inode hash p n = node_inode hash q k \<longrightarrow> p = q)"

definition page :: "u64 \<Rightarrow> bool" where
  "page a \<longleftrightarrow> a mod 4096 = 0"

definition sources_valid :: "fs_state \<Rightarrow> bool" where
  "sources_valid fs \<longleftrightarrow> mappings_ok fs \<and>
     (\<forall>(l, r, p) \<in> set (virtual_file_mapping_sources fs). page l \<and> page r \<and>
        is_reg (filesystem fs) p \<and> (\<exists>cs. p = path_of cs \<and> reachable (filesystem fs) cs))"

definition fs_ok :: "(string \<Rightarrow> u64) \<Rightarrow> fs_state \<Rightarrow> fd_manager \<Rightarrow> bool" where
  "fs_ok hash fs fdm \<longleftrightarrow>
     om_ok (filesystem fs) \<and> om_ok (open_files fs) \<and> fd_ok fdm \<and> cwd_ok fs \<and> dirfds_ok fs \<and> opens_ok fs \<and>
     fds_agree fs fdm \<and> sizes_ok (filesystem fs) \<and> inodes_ok hash fs \<and> sources_valid fs \<and>
     creation_mask fs AND NOT 0x1FF = 0"

lemma fs_okD:
  assumes "fs_ok hash fs fdm"
  shows "om_ok (filesystem fs)" "om_ok (open_files fs)" "fd_ok fdm" "cwd_ok fs" "dirfds_ok fs" "opens_ok fs"
    "fds_agree fs fdm" "sizes_ok (filesystem fs)" "inodes_ok hash fs" "sources_valid fs"
    "creation_mask fs AND NOT 0x1FF = 0"
  using assms by (simp_all add: fs_ok_def)

section \<open>The loader accepts\<close>

lemma inodes_of_distinct:
  "(\<exists>r. inodes_of hash owners files = Inr r) \<longleftrightarrow>
     distinct (map (\<lambda>(p, n). node_inode hash p n) files) \<and>
     set owners \<inter> set (map (\<lambda>(p, n). node_inode hash p n) files) = {}"
proof (induction hash owners files rule: inodes_of.induct)
  case (2 hash owners path node files)
  then show ?case by (auto simp: Let_def andthen_Inr)
qed simp

lemma inodes_of_result:
  "inodes_of hash owners files = Inr r \<Longrightarrow> r = map (\<lambda>(p, n). (p, node_inode hash p n)) files"
proof (induction hash owners files arbitrary: r rule: inodes_of.induct)
  case (2 hash owners path node files)
  then show ?case by (auto simp: Let_def andthen_Inr split: if_splits)
qed simp

lemma inodes_ok_validate:
  assumes "om_ok (filesystem fs)"
  shows "inodes_ok hash fs \<longleftrightarrow> validate_inode_state hash fs = Inr ()"
proof -
  let ?f = "\<lambda>(p, n). node_inode hash p n"
  have "distinct (map ?f (filesystem fs)) \<longleftrightarrow>
     (\<forall>p n q k. map_of (filesystem fs) p = Some n \<longrightarrow> map_of (filesystem fs) q = Some k \<longrightarrow>
        node_inode hash p n = node_inode hash q k \<longrightarrow> p = q)"
  proof -
    have "distinct (filesystem fs)" using om_ok_distinct [OF assms] by (simp add: distinct_map)
    then have "distinct (map ?f (filesystem fs)) \<longleftrightarrow> inj_on ?f (set (filesystem fs))" by (simp add: distinct_map)
    also have "\<dots> \<longleftrightarrow> (\<forall>p n q k. (p, n) \<in> set (filesystem fs) \<longrightarrow> (q, k) \<in> set (filesystem fs) \<longrightarrow>
        node_inode hash p n = node_inode hash q k \<longrightarrow> p = q)"
      using om_ok_distinct [OF assms] by (auto simp: inj_on_def) (metis eq_key_imp_eq_value)+
    finally show ?thesis by (simp add: om_lookup_iff [OF assms])
  qed
  moreover have "list_all (\<lambda>(p, n). inode_override_ok hash (next_inode fs) p n) (filesystem fs) \<longleftrightarrow>
     (\<forall>p n. map_of (filesystem fs) p = Some n \<longrightarrow> inode_override_ok hash (next_inode fs) p n)"
    by (auto simp: list_all_iff om_lookup_iff [OF assms])
  ultimately show ?thesis
    using inodes_of_distinct [of hash "[]" "filesystem fs"]
    by (auto simp: validate_inode_state_def vfs_inodes_def inodes_ok_def andthen_Inr not_less)
qed

definition aligned :: "(u64, u64) omap \<Rightarrow> bool" where
  "aligned c \<longleftrightarrow> (\<forall>x \<in> set c. page (fst x) \<and> page (snd x))"

lemma check_mappings_gaps:
  "gaps_from lo c \<Longrightarrow> aligned c \<Longrightarrow> check_mappings lo c"
proof (induction c arbitrary: lo)
  case (Cons x c)
  then show ?case by (cases x) (auto simp: aligned_def page_def not_le split: option.splits)
qed simp

lemma set_om_put: "set (om_put k v m) \<subseteq> insert (k, v) (set m)"
  by (induction k v m rule: om_put.induct) auto

lemma extend_aligned:
  assumes "aligned c" "page l" "page r"
  shows "aligned (extend_coverage c (l, r, p))"
proof (cases "c \<noteq> [] \<and> snd (last c) = l")
  case True
  then have "page (fst (last c))" using assms(1) last_in_set [of c] by (auto simp: aligned_def)
  moreover have "set (extend_coverage c (l, r, p)) \<subseteq> insert (fst (last c), r) (set c)"
    using True by (auto simp: extend_coverage_def dest: in_set_butlastD)
  ultimately show ?thesis using assms by (auto simp: aligned_def)
next
  case False
  then have "set (extend_coverage c (l, r, p)) \<subseteq> insert (l, r) (set c)"
    using set_om_put [of l r c] by (auto simp: extend_coverage_def om_emplace_def split: option.splits)
  then show ?thesis using assms by (auto simp: aligned_def)
qed

lemma coverage_aligned:
  "aligned c \<Longrightarrow> (\<forall>(l, r, p) \<in> set s. page l \<and> page r) \<Longrightarrow> aligned (foldl extend_coverage c s)"
  by (induction s arbitrary: c) (auto simp: extend_aligned)

lemma check_sources_ok:
  assumes "is_dir (filesystem fs) ''/''"
  shows "sources_from lo (Some q) s \<Longrightarrow>
    (\<forall>(l, r, p) \<in> set s. page l \<and> page r \<and> is_reg (filesystem fs) p \<and>
        (\<exists>cs. p = path_of cs \<and> reachable (filesystem fs) cs)) \<Longrightarrow>
    check_sources fs fdm (Some (lo, q)) s = Inr ()"
proof (induction s arbitrary: lo q)
  case (Cons x s)
  obtain l r p where x: "x = (l, r, p)" by (cases x)
  obtain cs where p: "p = path_of cs" "reachable (filesystem fs) cs" "is_reg (filesystem fs) p"
    using Cons.prems(2) x by auto
  have "resolve_path_checked fs fdm AT_FDCWD p True False False = Inr (Inr p)"
    using resolve_canonical_path [OF p(2) assms] reg_not_link [OF p(3)] p(1) by simp
  moreover obtain n where "map_of (filesystem fs) p = Some n" "S_ISREG (vn_mode n)"
    using p(3) by (auto simp: is_reg_def split: option.splits)
  ultimately show ?case using Cons x by (auto simp: Let_def not_le page_def)
qed simp

lemma fs_ok_serialize:
  assumes "fs_ok hash fs fdm"
  shows "serialize_checks hash fs fdm = Inr ()"
proof -
  note ok = fs_okD [OF assms]
  let ?s = "virtual_file_mapping_sources fs"
  have src: "mappings_ok fs" "\<forall>(l, r, p) \<in> set ?s. page l \<and> page r \<and> is_reg (filesystem fs) p \<and>
        (\<exists>cs. p = path_of cs \<and> reachable (filesystem fs) cs)"
    using ok(10) by (auto simp: sources_valid_def)
  have root: "is_dir (filesystem fs) ''/''" using ok(4) by (simp add: cwd_ok_def)
  have "check_mappings None (virtual_file_mappings fs)"
    using check_mappings_gaps [of None "mapping_coverage ?s"] mapping_coverage_ok(1) [of ?s] src
      coverage_aligned [of "[]" ?s]
    by (force simp: mappings_ok_def mapping_coverage_def aligned_def)
  moreover have "check_sources fs fdm None ?s = Inr ()"
  proof (cases ?s)
    case (Cons x s)
    obtain l r p where x: "x = (l, r, p)" by (cases x)
    have "check_sources fs fdm (Some (r, p)) s = Inr ()"
      using src Cons x by (intro check_sources_ok [OF root]) (auto simp: mappings_ok_def)
    moreover obtain cs n where p: "p = path_of cs" "reachable (filesystem fs) cs" "is_reg (filesystem fs) p"
      "map_of (filesystem fs) p = Some n" "S_ISREG (vn_mode n)"
      using src(2) Cons x by (auto simp: is_reg_def split: option.splits)
    moreover have "resolve_path_checked fs fdm AT_FDCWD p True False False = Inr (Inr p)"
      using resolve_canonical_path [OF p(2) root] reg_not_link [OF p(3)] p(1) by simp
    ultimately show ?thesis using src Cons x by (auto simp: mappings_ok_def Let_def page_def)
  qed simp
  ultimately show ?thesis
    using src ok(9,11) inodes_ok_validate [OF ok(1), of hash]
    by (simp add: serialize_checks_def mappings_ok_def)
qed

section \<open>Preservation\<close>

text \<open>
  The operations neither make nor remove directories, and leave mapped files regular; the facts
  about paths carry over.
\<close>

definition same_dirs :: "files \<Rightarrow> files \<Rightarrow> bool" where
  "same_dirs files files' \<longleftrightarrow> is_dir files' = is_dir files"

lemma same_dirs_reachable: "same_dirs files files' \<Longrightarrow> reachable files' cs \<longleftrightarrow> reachable files cs"
  by (simp add: same_dirs_def reachable_def)

lemma fs_ok_change:
  assumes ok: "fs_ok hash fs fdm"
    and fs': "fs' = fs\<lparr>filesystem := files', open_files := opens', next_inode := inode'\<rparr>"
    and tables: "om_ok files'" "om_ok opens'" "fd_ok fdm'"
    and dirs: "same_dirs (filesystem fs) files'"
    and opened: "\<And>fd d. map_of opens' fd = Some d \<Longrightarrow> is_dir (filesystem fs) (of_path d) \<Longrightarrow>
       \<exists>cs. of_path d = path_of cs \<and> reachable (filesystem fs) cs"
    and opens: "opens_ok fs'" and agree: "fds_agree fs' fdm'" and sizes: "sizes_ok files'"
    and inodes: "inodes_ok hash fs'"
    and regs: "\<And>p. mapped_file fs p \<Longrightarrow> is_reg (filesystem fs) p \<Longrightarrow> is_reg files' p"
  shows "fs_ok hash fs' fdm'"
proof -
  note old = fs_okD [OF ok]
  note reach = same_dirs_reachable [OF dirs]
  have d: "is_dir files' = is_dir (filesystem fs)" using dirs by (simp add: same_dirs_def)
  have "cwd_ok fs'" using old(4) by (simp add: cwd_ok_def fs' d reach)
  moreover have "dirfds_ok fs'" using opened by (simp add: dirfds_ok_def fs' d reach)
  moreover have "sources_valid fs'"
    using old(10) regs by (force simp: sources_valid_def mappings_ok_def fs' reach mapped_file_def list_ex_iff)
  ultimately show ?thesis using tables opens agree sizes inodes old(11) by (simp add: fs_ok_def fs')
qed

end
