(* ===== verification/Vfs_Keep.thy ===== *)
theory Vfs_Keep
  imports Vfs_Inv
begin

text \<open>
  Every file and namespace operation keeps the invariant of the file system.
\<close>

section \<open>Node updates\<close>

lemma is_dir_put [simp]: "is_dir (om_put p n files) q \<longleftrightarrow> (if q = p then S_ISDIR (vn_mode n) else is_dir files q)"
  by (simp add: is_dir_def)

lemma is_reg_put [simp]: "is_reg (om_put p n files) q \<longleftrightarrow> (if q = p then S_ISREG (vn_mode n) else is_reg files q)"
  by (simp add: is_reg_def)

lemma is_dir_del [simp]: "is_dir (om_del p files) q \<longleftrightarrow> q \<noteq> p \<and> is_dir files q"
  by (simp add: is_dir_def)

lemma is_reg_del [simp]: "is_reg (om_del p files) q \<longleftrightarrow> q \<noteq> p \<and> is_reg files q"
  by (simp add: is_reg_def)

lemma map_of_set_mtim:
  "map_of (set_mtim p t files) q = map_option (\<lambda>n. if q = p then n\<lparr>vn_mtim := t\<rparr> else n) (map_of files q)"
  by (cases "map_of files q") (auto simp: set_mtim_def split: option.splits)

lemma om_ok_set_mtim [simp]: "om_ok files \<Longrightarrow> om_ok (set_mtim p t files)"
  by (simp add: set_mtim_def split: option.splits)

lemma is_dir_set_mtim [simp]: "is_dir (set_mtim p t files) = is_dir files"
  by (auto simp: is_dir_def map_of_set_mtim fun_eq_iff split: option.splits)

lemma is_reg_set_mtim [simp]: "is_reg (set_mtim p t files) = is_reg files"
  by (auto simp: is_reg_def map_of_set_mtim fun_eq_iff split: option.splits)

lemma om_mem_set_mtim [simp]: "om_mem q (set_mtim p t files) = om_mem q files"
  by (simp add: om_mem_def map_of_set_mtim)

text \<open>The facts about sizes and inodes only depend on the content, the mode and the number.\<close>

definition same_node :: "vfs_node \<Rightarrow> vfs_node \<Rightarrow> bool" where
  "same_node n k \<longleftrightarrow> vn_mode n = vn_mode k \<and> vn_ino n = vn_ino k"

lemma node_inode_same: "same_node n k \<Longrightarrow> node_inode hash p n = node_inode hash p k"
  by (simp add: same_node_def node_inode_def)

lemma inodes_ok_same:
  assumes "inodes_ok hash fs" "next_inode fs' = next_inode fs"
    and "\<And>p n'. map_of (filesystem fs') p = Some n' \<Longrightarrow> \<exists>n. map_of (filesystem fs) p = Some n \<and> same_node n n'"
  shows "inodes_ok hash fs'"
proof -
  have "inode_override_ok hash (next_inode fs) p n'" if n': "map_of (filesystem fs') p = Some n'" for p n'
  proof -
    obtain n where "map_of (filesystem fs) p = Some n" "same_node n n'" using assms(3) [OF n'] by blast
    moreover from this have "inode_override_ok hash (next_inode fs) p n" using assms(1) by (simp add: inodes_ok_def)
    ultimately show ?thesis by (simp add: same_node_def inode_override_ok_def)
  qed
  moreover have "p = q" if n': "map_of (filesystem fs') p = Some n'" "map_of (filesystem fs') q = Some k'"
    "node_inode hash p n' = node_inode hash q k'" for p q n' k'
  proof -
    obtain n k where nk: "map_of (filesystem fs) p = Some n" "same_node n n'"
      "map_of (filesystem fs) q = Some k" "same_node k k'"
      using assms(3) [OF n'(1)] assms(3) [OF n'(2)] by blast
    then have "node_inode hash p n = node_inode hash q k" using n'(3) by (simp add: node_inode_same)
    then show ?thesis using assms(1) nk(1,3) unfolding inodes_ok_def by blast
  qed
  ultimately show ?thesis using assms(1,2) by (auto simp: inodes_ok_def)
qed

lemma fs_ok_put_node:
  assumes ok: "fs_ok hash fs fdm" and n: "map_of (filesystem fs) p = Some n" and same: "same_node n n'"
    and size: "vn_size n' = int (length (vn_content n'))" "int (length (vn_content n')) \<le> OFF_MAX"
    and opens: "om_ok opens'" "\<And>fd d'. map_of opens' fd = Some d' \<Longrightarrow>
       (\<exists>d. map_of (open_files fs) fd = Some d \<and> of_path d' = of_path d) \<and> 0 \<le> of_offset d' \<and> of_offset d' \<le> OFF_MAX"
      "\<And>fd. om_mem fd opens' = om_mem fd (open_files fs)"
  shows "fs_ok hash (fs\<lparr>filesystem := om_put p n' (filesystem fs), open_files := opens'\<rparr>) fdm"
proof -
  note old = fs_okD [OF ok]
  let ?fs' = "fs\<lparr>filesystem := om_put p n' (filesystem fs), open_files := opens'\<rparr>"
  have mode: "vn_mode n' = vn_mode n" using same by (simp add: same_node_def)
  show ?thesis
  proof (rule fs_ok_change [OF ok, where files' = "om_put p n' (filesystem fs)" and opens' = opens' and inode' = "next_inode fs"])
    show "same_dirs (filesystem fs) (om_put p n' (filesystem fs))"
      using n mode by (auto simp: same_dirs_def fun_eq_iff is_dir_def)
    show "\<exists>cs. of_path d = path_of cs \<and> reachable (filesystem fs) cs"
      if "map_of opens' fd = Some d" "is_dir (filesystem fs) (of_path d)" for fd d
      using opens(2) [OF that(1)] that(2) old(5) unfolding dirfds_ok_def by metis
    show "opens_ok ?fs'"
      using opens(2) old(6) by (fastforce simp: opens_ok_def om_mem_def)
    show "fds_agree ?fs' fdm" using old(7) opens(3) by (simp add: fds_agree_def)
    show "sizes_ok (om_put p n' (filesystem fs))" using old(8) size by (simp add: sizes_ok_def)
    show "inodes_ok hash ?fs'"
      by (rule inodes_ok_same [OF old(9)]) (use n same in \<open>auto simp: same_node_def split: if_splits\<close>)
    show "is_reg (om_put p n' (filesystem fs)) q" if "is_reg (filesystem fs) q" for q
      using that n mode by (auto simp: is_reg_def)
  qed (use old opens(1) in auto)
qed

text \<open>Operations that only move an offset.\<close>

lemma fs_ok_offset:
  assumes "fs_ok hash fs fdm" "map_of (open_files fs) fd = Some d" "0 \<le> offset" "offset \<le> OFF_MAX"
  shows "fs_ok hash (fs\<lparr>open_files := om_put fd (d\<lparr>of_offset := offset\<rparr>) (open_files fs)\<rparr>) fdm"
proof -
  note old = fs_okD [OF assms(1)]
  have "map_of (open_files fs) fd' = Some d'' \<longrightarrow> is_dir (filesystem fs) (of_path d'') \<longrightarrow>
     (\<exists>cs. of_path d'' = path_of cs \<and> reachable (filesystem fs) cs)" for fd' d''
    using old(5) by (simp add: dirfds_ok_def)
  then show ?thesis
    using old assms(2-4)
    by (auto simp: fs_ok_def cwd_ok_def dirfds_ok_def opens_ok_def fds_agree_def inodes_ok_def sources_valid_def
        mappings_ok_def om_mem_def)
qed

lemma fs_update_comm: "fs\<lparr>open_files := b, filesystem := a\<rparr> = fs\<lparr>filesystem := a, open_files := b\<rparr>"
  for fs :: fs_state by (cases fs) simp

section \<open>Reading, writing, truncating, seeking, closing\<close>

lemma do_read_ok: "fs_ok hash fs fdm \<Longrightarrow> do_read fd count fs fdm = (r, fs') \<Longrightarrow> fs_ok hash fs' fdm"
proof -
  assume ok: "fs_ok hash fs fdm" and run: "do_read fd count fs fdm = (r, fs')"
  show ?thesis
  proof (cases "fs' = fs")
    case False
    then obtain d node where d: "map_of (open_files fs) fd = Some d" "map_of (filesystem fs) (of_path d) = Some node"
      "\<not> int (length (vn_content node)) \<le> uint (word_of_int (of_offset d) :: u64)"
      "fs' = fs\<lparr>open_files := om_put fd (d\<lparr>of_offset := of_offset d +
          int (length (take count (drop (nat (of_offset d)) (vn_content node))))\<rparr>) (open_files fs)\<rparr>"
      using run by (auto simp: do_read_def Let_def split: option.splits if_splits)
    have o: "0 \<le> of_offset d" "of_offset d \<le> OFF_MAX" using fs_okD(6) [OF ok] d(1) by (auto simp: opens_ok_def)
    have c: "int (length (vn_content node)) \<le> OFF_MAX" using fs_okD(8) [OF ok] d(2) by (auto simp: sizes_ok_def)
    have "uint (word_of_int (of_offset d) :: u64) = of_offset d"
      using o by (simp add: uint_word_of_int_eq take_bit_int_eq_self_iff)
    then have "of_offset d < int (length (vn_content node))" using d(3) by simp
    then show ?thesis unfolding d(4) using o c by (intro fs_ok_offset [OF ok d(1)]) auto
  qed (use ok in simp)
qed

lemma do_lseek_ok: "fs_ok hash fs fdm \<Longrightarrow> do_lseek fd offset whence fs fdm = (r, fs') \<Longrightarrow> fs_ok hash fs' fdm"
  by (auto simp: do_lseek_def Let_def split: option.splits if_splits intro!: fs_ok_offset)

lemma length_content_write: "length (content_write k src bs) = (if src = [] then length bs else max (length bs) (k + length src))"
  by (auto simp: content_write_def Let_def)

lemma do_write_ok:
  assumes ok: "fs_ok hash fs fdm" and run: "do_write now fd buf fs fdm = (r, fs')"
  shows "fs_ok hash fs' fdm"
proof (cases "fs' = fs")
  case False
  then obtain d node where d: "map_of (open_files fs) fd = Some d" "map_of (filesystem fs) (of_path d) = Some node"
    "\<not> OFF_MAX - write_offset fd fdm d node < int (length buf)"
    "fs' = fs\<lparr>open_files := om_put fd (d\<lparr>of_offset := write_offset fd fdm d node + int (length buf)\<rparr>) (open_files fs),
       filesystem := om_put (of_path d)
         (node\<lparr>vn_content := content_write (nat (write_offset fd fdm d node)) buf (vn_content node),
           vn_size := int (length (content_write (nat (write_offset fd fdm d node)) buf (vn_content node))),
           vn_mtim := now\<rparr>) (filesystem fs)\<rparr>"
    using run by (auto simp: do_write_def Let_def split: option.splits if_splits)
  have o: "0 \<le> of_offset d" using fs_okD(6) [OF ok] d(1) by (auto simp: opens_ok_def)
  have c: "int (length (vn_content node)) \<le> OFF_MAX" using fs_okD(8) [OF ok] d(2) by (auto simp: sizes_ok_def)
  have w: "0 \<le> write_offset fd fdm d node" using o by (auto simp: write_offset_def)
  let ?n = "node\<lparr>vn_content := content_write (nat (write_offset fd fdm d node)) buf (vn_content node),
           vn_size := int (length (content_write (nat (write_offset fd fdm d node)) buf (vn_content node))),
           vn_mtim := now\<rparr>"
  have "fs_ok hash (fs\<lparr>filesystem := om_put (of_path d) ?n (filesystem fs),
      open_files := om_put fd (d\<lparr>of_offset := write_offset fd fdm d node + int (length buf)\<rparr>) (open_files fs)\<rparr>) fdm"
    using c w d(1,3) fs_okD(2,6) [OF ok]
    by (intro fs_ok_put_node [OF ok d(2)])
      (auto simp: same_node_def length_content_write opens_ok_def om_mem_def split: if_splits)
  then show ?thesis unfolding d(4) fs_update_comm .
qed (use ok in simp)

lemma length_content_resize [simp]: "length (content_resize k bs) = k"
  by (simp add: content_resize_def)

lemma do_ftruncate_ok:
  assumes ok: "fs_ok hash fs fdm" and run: "do_ftruncate now fd len fs fdm = (r, fs')" and len: "len \<le> OFF_MAX"
  shows "fs_ok hash fs' fdm"
proof (cases "fs' = fs")
  case False
  then obtain d node where d: "map_of (open_files fs) fd = Some d" "map_of (filesystem fs) (of_path d) = Some node" "0 \<le> len"
    "fs' = fs\<lparr>filesystem := om_put (of_path d) (node\<lparr>vn_content := content_resize (nat len) (vn_content node),
       vn_size := len, vn_mtim := now\<rparr>) (filesystem fs)\<rparr>"
    using run by (auto simp: do_ftruncate_def Let_def split: option.splits if_splits)
  let ?n = "node\<lparr>vn_content := content_resize (nat len) (vn_content node), vn_size := len, vn_mtim := now\<rparr>"
  have "fs_ok hash (fs\<lparr>filesystem := om_put (of_path d) ?n (filesystem fs), open_files := open_files fs\<rparr>) fdm"
    using d(3) len fs_okD(2,6) [OF ok]
    by (intro fs_ok_put_node [OF ok d(2)]) (auto simp: same_node_def opens_ok_def)
  then show ?thesis using d(4) by simp
qed (use ok in simp)

lemma do_close_ok:
  assumes ok: "fs_ok hash fs fdm" and run: "do_close fd fs fdm = (r, fs', fdm')"
  shows "fs_ok hash fs' fdm'"
proof (cases "is_allocated fd fdm \<and> om_mem fd (open_files fs)")
  case True
  note old = fs_okD [OF ok]
  have fs': "fs' = fs\<lparr>open_files := om_del fd (open_files fs)\<rparr>" "fdm' = release_fd fd fdm"
    using run True by (auto simp: do_close_def)
  show ?thesis
  proof (rule fs_ok_change [OF ok, where files' = "filesystem fs" and opens' = "om_del fd (open_files fs)"
        and inode' = "next_inode fs"])
    show "\<exists>cs. of_path d = path_of cs \<and> reachable (filesystem fs) cs"
      if "map_of (om_del fd (open_files fs)) x = Some d" "is_dir (filesystem fs) (of_path d)" for x d
      using that old(5) unfolding dirfds_ok_def by (auto split: if_splits)
    show "opens_ok fs'" using old(6) by (simp add: opens_ok_def fs')
    show "fds_agree fs' fdm'" using old(3,7) by (simp add: fds_agree_def fs' om_mem_def fdm.kind_release)
    show "inodes_ok hash fs'" using old(9) by (simp add: inodes_ok_def fs')
  qed (use old in \<open>simp_all add: fs' same_dirs_def fd_ok_release\<close>)
next
  case False
  then have "fs' = fs" "fdm' = fdm" using run by (auto simp: do_close_def split: if_splits)
  then show ?thesis using ok by simp
qed

end
