(* ===== verification/Vfs_Steps.thy ===== *)
theory Vfs_Steps
  imports Vfs_Keep
begin

text \<open>
  The operations that change names keep the invariant of the file system: opening and creating,
  unlinking, renaming, changing directory and the maintenance of the mapped files; then the runs of
  operations, and that no run reaches a state that the loader rejects.
\<close>

section \<open>Inode numbers\<close>

lemma or_limit_le: "guest_inode_limit \<le> x OR guest_inode_limit" for x :: u64
proof -
  have "uint guest_inode_limit \<le> uint (x OR guest_inode_limit)"
    by (metis or_greater_eq or.commute unsigned_greater_eq unsigned_or_eq)
  then show ?thesis by (simp add: word_le_def)
qed

lemma initial_inode_high: "guest_inode_limit \<le> initial_vfs_inode hash p"
  by (simp add: initial_vfs_inode_def or_limit_le)

lemma node_inode_old:
  assumes "inode_override_ok hash i p n" "i < guest_inode_limit"
  shows "node_inode hash p n \<noteq> i"
  using assms initial_inode_high [of hash p] by (auto simp: inode_override_ok_def node_inode_def)

lemma new_mode_reg: "S_ISREG (S_IFREG OR ((mode AND 0xFFF) AND NOT k))"
proof -
  have "((mode AND 0xFFF) AND NOT k) AND 0xF000 = (0 :: u32)"
  proof -
    have "((mode AND 0xFFF) AND NOT k) AND 0xF000 = (mode AND NOT k) AND (0xFFF AND 0xF000)"
      by (simp only: ac_simps)
    also have "(0xFFF AND 0xF000 :: u32) = 0" by simp
    finally show ?thesis by simp
  qed
  then show ?thesis by (simp add: S_ISREG_def bit.conj_disj_distrib2)
qed

lemma inodes_ok_create:
  assumes ok: "inodes_ok hash fs" and p: "map_of (filesystem fs) p = None" and lim: "next_inode fs < guest_inode_limit"
    and ino: "vn_ino n = next_inode fs" and mode: "S_ISREG (vn_mode n)"
    and fs': "next_inode fs' = next_inode fs + 1"
      "\<And>q k'. map_of (filesystem fs') q = Some k' \<Longrightarrow>
         \<exists>k. ((map_of (filesystem fs)) (p \<mapsto> n)) q = Some k \<and> same_node k k'"
  shows "inodes_ok hash fs'"
proof -
  let ?i = "next_inode fs"
  have i: "?i \<noteq> 0" "\<And>q k. map_of (filesystem fs) q = Some k \<Longrightarrow> inode_override_ok hash ?i q k"
    "\<And>q k q' k'. map_of (filesystem fs) q = Some k \<Longrightarrow> map_of (filesystem fs) q' = Some k' \<Longrightarrow>
        node_inode hash q k = node_inode hash q' k' \<Longrightarrow> q = q'"
    using ok unfolding inodes_ok_def by blast+
  have inc: "?i < ?i + 1" "?i + 1 \<le> guest_inode_limit" "?i + 1 \<noteq> 0"
  proof -
    have "uint ?i < 2 ^ 63" using lim by (simp add: word_less_def)
    then have u: "uint (?i + 1) = uint ?i + 1" by (simp add: uint_plus_if_size word_size)
    then show lt: "?i < ?i + 1" by (simp add: word_less_def)
    show "?i + 1 \<le> guest_inode_limit" using lim u by (simp add: word_less_def word_le_def)
    show "?i + 1 \<noteq> 0" using lt by auto
  qed
  let ?m = "(map_of (filesystem fs)) (p \<mapsto> n)"
  have over: "inode_override_ok hash (?i + 1) q k" if "?m q = Some k" for q k
  proof (cases "q = p")
    case True
    then show ?thesis using that ino mode inc(1) initial_inode_high [of hash p] lim
      by (auto simp: inode_override_ok_def)
  next
    case False
    then show ?thesis using i(2) [of q k] that inc(1) by (auto simp: inode_override_ok_def)
  qed
  have num: "node_inode hash p n = ?i" using ino i(1) by (simp add: node_inode_def)
  have uniq: "q = q'" if "?m q = Some k" "?m q' = Some k'" "node_inode hash q k = node_inode hash q' k'" for q k q' k'
    using that num i(3) [of q k q' k'] node_inode_old [OF i(2) lim]
    by (auto split: if_splits)
  show ?thesis unfolding inodes_ok_def fs'(1)
  proof (intro conjI allI impI)
    fix q k' assume "map_of (filesystem fs') q = Some k'"
    from fs'(2) [OF this] obtain k where "?m q = Some k" "same_node k k'" by blast
    with over [of q k] show "inode_override_ok hash (?i + 1) q k'"
      by (simp add: inode_override_ok_def same_node_def)
  next
    fix q k' q' l' assume a: "map_of (filesystem fs') q = Some k'" "map_of (filesystem fs') q' = Some l'"
      "node_inode hash q k' = node_inode hash q' l'"
    obtain k l where "?m q = Some k" "same_node k k'" "?m q' = Some l" "same_node l l'"
      using fs'(2) [OF a(1)] fs'(2) [OF a(2)] by blast
    then show "q = q'" using uniq [of q k q' l] a(3) by (simp add: node_inode_same)
  qed (use inc in simp_all)
qed

section \<open>Opening\<close>

text \<open>Two file tables that agree up to contents and times.\<close>

definition same_files :: "(string \<Rightarrow> vfs_node option) \<Rightarrow> files \<Rightarrow> bool" where
  "same_files m files \<longleftrightarrow> (\<forall>q. rel_option same_node (m q) (map_of files q))"

lemma same_node_refl [simp]: "same_node n n"
  by (simp add: same_node_def)

lemma same_files_refl [simp]: "same_files (map_of files) files"
  by (simp add: same_files_def option.rel_refl)

lemma same_files_put:
  assumes "same_files m files" "map_of files p = Some n" "same_node n n'"
  shows "same_files m (om_put p n' files)"
  unfolding same_files_def
proof
  fix q
  have "rel_option same_node (m q) (map_of files q)" using assms(1) unfolding same_files_def by blast
  with assms(2,3) show "rel_option same_node (m q) (map_of (om_put p n' files) q)"
    by (cases "m q") (auto simp: same_node_def)
qed

lemma same_files_new: "same_files (map_of files) files' \<Longrightarrow> same_files ((map_of files)(p \<mapsto> n)) (om_put p n files')"
  by (simp add: same_files_def)

lemma same_files_set_mtim: "same_files m files \<Longrightarrow> same_files m (set_mtim p t files)"
  unfolding set_mtim_def by (cases "map_of files p") (auto intro!: same_files_put simp: same_node_def)

lemma same_files_lookup:
  assumes "same_files m files" "map_of files q = Some k'"
  shows "\<exists>k. m q = Some k \<and> same_node k k'"
proof -
  have "rel_option same_node (m q) (Some k')" using assms unfolding same_files_def by metis
  then show ?thesis by (cases "m q") auto
qed

lemma same_files_is_dir:
  "same_files m files \<Longrightarrow> is_dir files q \<longleftrightarrow> (case m q of None \<Rightarrow> False | Some n \<Rightarrow> S_ISDIR (vn_mode n))"
  unfolding same_files_def is_dir_def
  by (drule spec [of _ q]) (auto simp: same_node_def split: option.splits elim!: option.rel_cases)

lemma same_files_is_reg:
  "same_files m files \<Longrightarrow> is_reg files q \<longleftrightarrow> (case m q of None \<Rightarrow> False | Some n \<Rightarrow> S_ISREG (vn_mode n))"
  unfolding same_files_def is_reg_def
  by (drule spec [of _ q]) (auto simp: same_node_def split: option.splits elim!: option.rel_cases)

lemma same_files_mem: "same_files m files \<Longrightarrow> om_mem q files \<longleftrightarrow> m q \<noteq> None"
  unfolding same_files_def om_mem_def
  by (drule spec [of _ q]) (auto split: option.splits elim!: option.rel_cases)

lemma sizes_ok_put:
  "sizes_ok files \<Longrightarrow> vn_size n = int (length (vn_content n)) \<Longrightarrow> int (length (vn_content n)) \<le> OFF_MAX \<Longrightarrow>
   sizes_ok (om_put p n files)"
  by (simp add: sizes_ok_def)

lemma sizes_ok_set_mtim: "sizes_ok files \<Longrightarrow> sizes_ok (set_mtim p t files)"
  unfolding set_mtim_def by (cases "map_of files p") (auto intro!: sizes_ok_put simp: sizes_ok_def)

lemma mode_reg_not_dir: "S_ISREG m \<Longrightarrow> \<not> S_ISDIR m"
  by (auto simp: S_ISREG_def S_ISDIR_def)

definition created_node :: "timespec \<Rightarrow> u32 \<Rightarrow> fs_state \<Rightarrow> vfs_node" where
  "created_node now mode fs = new_node\<lparr>vn_mode := S_IFREG OR ((mode AND 0xFFF) AND NOT (creation_mask fs)),
     vn_ino := next_inode fs, vn_mtim := now\<rparr>"

lemma created_node_simps [simp]:
  "vn_size (created_node now mode fs) = 0" "vn_content (created_node now mode fs) = []"
  "vn_ino (created_node now mode fs) = next_inode fs" "S_ISREG (vn_mode (created_node now mode fs))"
  by (simp_all add: created_node_def new_node_def new_mode_reg)

definition with_created :: "timespec \<Rightarrow> string \<Rightarrow> u32 \<Rightarrow> fs_state \<Rightarrow> string \<Rightarrow> vfs_node option" where
  "with_created now path mode fs =
     (if om_mem path (filesystem fs) then map_of (filesystem fs)
      else (map_of (filesystem fs)) (path \<mapsto> created_node now mode fs))"

lemma open_commit_files:
  fixes now path flags mode fd fs
  assumes "om_ok (filesystem fs)" "sizes_ok (filesystem fs)"
  obtains files' where
    "open_commit now path flags mode fd fs = fs\<lparr>filesystem := files',
        next_inode := (if om_mem path (filesystem fs) then next_inode fs else next_inode fs + 1),
        open_files := om_emplace fd \<lparr>of_path = path, of_offset = 0\<rparr> (open_files fs)\<rparr>"
    "same_files (with_created now path mode fs) files'" "om_ok files'" "sizes_ok files'"
proof -
  define m where "m = with_created now path mode fs"
  define files1 where "files1 = (if om_mem path (filesystem fs) then filesystem fs
     else set_mtim (parent_of path) now (om_emplace path (created_node now mode fs) (filesystem fs)))"
  have f1: "same_files m files1" "om_ok files1" "sizes_ok files1"
    using assms(1,2) by (auto simp: files1_def m_def with_created_def om_emplace_def om_mem_def
        intro!: same_files_set_mtim same_files_new sizes_ok_set_mtim sizes_ok_put split: option.splits)
  define files2 where "files2 = (if has_flag flags O_TRUNC \<and> flags AND O_ACCMODE \<noteq> O_RDONLY
     then (case map_of files1 path of None \<Rightarrow> files1
           | Some n \<Rightarrow> om_put path (n\<lparr>vn_content := [], vn_size := 0, vn_mtim := now\<rparr>) files1) else files1)"
  have f2: "same_files m files2" "om_ok files2" "sizes_ok files2"
    using f1 by (auto simp: files2_def same_node_def intro!: same_files_put sizes_ok_put split: option.splits)
  have "open_commit now path flags mode fd fs = fs\<lparr>filesystem := files2,
        next_inode := (if om_mem path (filesystem fs) then next_inode fs else next_inode fs + 1),
        open_files := om_emplace fd \<lparr>of_path = path, of_offset = 0\<rparr> (open_files fs)\<rparr>"
    unfolding open_commit_def Let_def files2_def files1_def created_node_def by (rule refl)
  with f2 show thesis using that unfolding m_def by blast
qed

lemma open_resolved_cases:
  assumes ok: "fd_ok fdm" and run: "open_resolved now path flags mode fs fdm = (r, fs', fdm')"
  obtains (unchanged) "fs' = fs" "fdm' = fdm" "\<And>fd. r = Inr fd \<Longrightarrow> fd < 0"
  | (opened) fd status descriptor where "r = Inr fd" "0 \<le> fd"
      "allocate_fd FT_FILE status descriptor fdm = (Inr fd, fdm')"
      "fs' = open_commit now path flags mode fd fs" "\<not> om_mem fd (open_files fs)"
      "\<not> om_mem path (filesystem fs) \<Longrightarrow> next_inode fs < guest_inode_limit"
      "\<not> om_mem path (filesystem fs) \<Longrightarrow> is_dir (filesystem fs) (parent_of path)"
      "is_dir (filesystem fs) path \<Longrightarrow> flags AND O_ACCMODE = O_RDONLY"
      "has_flag flags O_TRUNC \<Longrightarrow> \<not> mapped_file fs path"
proof -
  define status where "status = flags AND NOT (O_CLOEXEC OR O_CREAT OR O_EXCL OR O_TRUNC)"
  define descriptor where "descriptor = (if has_flag flags O_CLOEXEC then FD_CLOEXEC else 0)"
  obtain x fdm1 where a: "allocate_fd FT_FILE status descriptor fdm = (x, fdm1)" by (cases "allocate_fd FT_FILE status descriptor fdm")
  have nfd: "fd = get_next_fd fdm" if "x = Inr fd" "0 \<le> fd" for fd
    using a that by (auto simp: allocate_fd_def Let_def split: if_splits option.splits)
  show thesis
  proof (cases "\<exists>fd. r = Inr fd \<and> 0 \<le> fd")
    case True
    then obtain fd where fd: "r = Inr fd" "0 \<le> fd" by blast
    have "x = Inr fd \<and> fdm' = fdm1 \<and> fs' = open_commit now path flags mode fd fs \<and> \<not> om_mem (get_next_fd fdm) (open_files fs) \<and>
      (\<not> om_mem path (filesystem fs) \<longrightarrow> next_inode fs < guest_inode_limit \<and> is_dir (filesystem fs) (parent_of path)) \<and>
      (is_dir (filesystem fs) path \<longrightarrow> flags AND O_ACCMODE = O_RDONLY) \<and> (has_flag flags O_TRUNC \<longrightarrow> \<not> mapped_file fs path)"
      using run fd unfolding open_resolved_def Let_def status_def [symmetric] descriptor_def [symmetric] a
      by (auto simp: om_mem_def is_dir_def not_le split: if_splits sum.splits option.splits)
    with fd nfd a opened [of fd status descriptor] show ?thesis by auto
  next
    case False
    note run' = run [unfolded open_resolved_def Let_def status_def [symmetric] descriptor_def [symmetric] a]
    have "fs' = fs \<and> fdm' = fdm"
    proof (cases x)
      case (Inl e)
      then have "fdm1 = fdm" using a fdm.alloc_error [OF ok] by blast
      then show ?thesis using run' Inl by (simp split: if_splits)
    next
      case (Inr fd)
      show ?thesis
      proof (cases "fd < 0")
        case True
        then have "fdm1 = fdm" using a Inr fdm.alloc_full [OF ok] by blast
        then show ?thesis using run' Inr True by (simp split: if_splits)
      next
        case nonneg: False
        then have "get_next_fd fdm = fd" using nfd Inr by simp
        moreover have "Inr fd \<noteq> r" using nonneg False by auto
        ultimately show ?thesis using run' Inr nonneg by (simp split: if_splits)
      qed
    qed
    with False show ?thesis by (intro unchanged) auto
  qed
qed

lemma open_resolved_ok:
  assumes ok: "fs_ok hash fs fdm" and run: "open_resolved now path flags mode fs fdm = (r, fs', fdm')"
    and path: "path = path_of cs" "reachable (filesystem fs) cs"
  shows "fs_ok hash fs' fdm'"
  using fs_okD(3) [OF ok] run
proof (cases rule: open_resolved_cases)
  case (opened fd status descriptor)
  note old = fs_okD [OF ok]
  let ?m = "with_created now path mode fs"
  obtain files' where f: "open_commit now path flags mode fd fs = fs\<lparr>filesystem := files',
        next_inode := (if om_mem path (filesystem fs) then next_inode fs else next_inode fs + 1),
        open_files := om_emplace fd \<lparr>of_path = path, of_offset = 0\<rparr> (open_files fs)\<rparr>"
      "same_files ?m files'" "om_ok files'" "sizes_ok files'"
    by (rule open_commit_files [OF old(1,8)])
  let ?opens = "om_emplace fd \<lparr>of_path = path, of_offset = 0\<rparr> (open_files fs)"
  have look: "map_of ?opens x = (if x = fd then Some \<lparr>of_path = path, of_offset = 0\<rparr> else map_of (open_files fs) x)" for x
    using opened(5) by (auto simp: om_emplace_def om_mem_def split: option.splits)
  have fresh: "get_fd_type fd fdm = FT_UNKNOWN" "get_fd_type fd fdm' = FT_FILE"
    "\<And>x. x \<noteq> fd \<Longrightarrow> get_fd_type x fdm' = get_fd_type x fdm"
    using fdm.alloc_fresh [OF old(3) opened(3,2)] by auto
  have mem: "om_mem q (filesystem fs) \<Longrightarrow> om_mem q files'" "om_mem path files'" for q
    using same_files_mem [OF f(2)] by (auto simp: with_created_def om_mem_def)
  show ?thesis
  proof (rule fs_ok_change [OF ok, where files' = files' and opens' = ?opens
        and inode' = "if om_mem path (filesystem fs) then next_inode fs else next_inode fs + 1"])
    show "fs' = fs\<lparr>filesystem := files', open_files := ?opens,
        next_inode := (if om_mem path (filesystem fs) then next_inode fs else next_inode fs + 1)\<rparr>"
      unfolding opened(4) f(1) by simp
    show "same_dirs (filesystem fs) files'"
      unfolding same_dirs_def
    proof
      fix q show "is_dir files' q = is_dir (filesystem fs) q"
        unfolding same_files_is_dir [OF f(2)]
        by (auto simp: with_created_def is_dir_def om_mem_def mode_reg_not_dir split: option.splits)
    qed
    show "\<exists>cs. of_path d = path_of cs \<and> reachable (filesystem fs) cs"
      if "map_of ?opens x = Some d" "is_dir (filesystem fs) (of_path d)" for x d
    proof (cases "x = fd")
      case True
      then have "of_path d = path" using that(1) look [of fd] by auto
      then show ?thesis using path by blast
    next
      case False
      then show ?thesis using that old(5) look [of x] unfolding dirfds_ok_def by auto
    qed
    show "opens_ok fs'"
      unfolding opens_ok_def opened(4) f(1)
      using old(6) mem look by (auto simp: opens_ok_def split: if_splits)
    show "fds_agree fs' fdm'"
      unfolding fds_agree_def opened(4) f(1)
    proof
      fix x show "om_mem x (open_files (fs\<lparr>filesystem := files',
          next_inode := if om_mem path (filesystem fs) then next_inode fs else next_inode fs + 1,
          open_files := ?opens\<rparr>)) = (get_fd_type x fdm' \<in> {FT_FILE, FT_STDIO})"
        using old(7) fresh look [of x] by (cases "x = fd") (auto simp: fds_agree_def om_mem_def)
    qed
    show "inodes_ok hash fs'"
    proof (cases "om_mem path (filesystem fs)")
      case True
      then show ?thesis unfolding opened(4) f(1)
        using same_files_lookup [OF f(2)] by (intro inodes_ok_same [OF old(9)]) (auto simp: with_created_def)
    next
      case False
      then show ?thesis unfolding opened(4) f(1)
        using same_files_lookup [OF f(2)] opened(6)
        by (intro inodes_ok_create [OF old(9), of path "created_node now mode fs"]) (auto simp: with_created_def om_mem_def)
    qed
    show "is_reg files' q" if "is_reg (filesystem fs) q" for q
      using that unfolding same_files_is_reg [OF f(2)]
      by (auto simp: with_created_def is_reg_def om_mem_def split: option.splits)
    show "fd_ok fdm'" using fdm.ok_alloc [OF old(3) opened(3)] .
  qed (use f old in \<open>simp_all\<close>)
qed (use ok in simp)

lemma do_openat_ok:
  assumes ok: "fs_ok hash fs fdm" and run: "do_openat now dirfd path flags mode fs fdm = (r, fs', fdm')"
  shows "fs_ok hash fs' fdm'"
proof (cases "fs' = fs \<and> fdm' = fdm")
  case False
  let ?follow = "\<not> (has_flag flags O_CREAT \<and> has_flag flags O_EXCL) \<and> \<not> has_flag flags O_NOFOLLOW"
  obtain checked where c: "resolve_path_checked fs fdm dirfd path ?follow False (has_flag flags O_CREAT) = Inr (Inr checked)"
    "open_resolved now checked flags mode fs fdm = (r, fs', fdm')"
    using run False unfolding do_openat_def by (auto split: if_splits sum.splits)
  obtain cs where "checked = path_of cs" "reachable (filesystem fs) cs"
    using resolve_reaches [OF c(1) fs_okD(4,5) [OF ok]] by blast
  then show ?thesis by (rule open_resolved_ok [OF ok c(2)])
qed (use ok in simp)

end
