(* ===== verification/Vfs_Runs.thy ===== *)
theory Vfs_Runs
  imports Vfs_Steps
begin

text \<open>
  Unlinking, renaming, changing directory and mapping files keep the invariant of the file system,
  and the runs of all its operations.
\<close>

section \<open>Unlinking and renaming\<close>

lemma namespace_mutableD:
  assumes "require_namespace_mutable fs p = Inr ()"
  shows "\<not> mapped_file fs p" "map_of (open_files fs) fd = Some d \<Longrightarrow> of_path d \<noteq> p"
proof -
  have a: "\<not> list_ex (\<lambda>(fd, d). of_path d = p) (open_files fs)" "require_unmapped_file fs p = None"
    using assms by (auto simp: require_namespace_mutable_def split: if_splits option.splits)
  show "\<not> mapped_file fs p" using a(2) by (auto simp: require_unmapped_file_def split: if_splits)
  show "of_path d \<noteq> p" if "map_of (open_files fs) fd = Some d"
    using a(1) map_of_SomeD [OF that] by (auto simp: list_ex_iff)
qed

lemma sum_pairE:
  obtains (thrown) e where "x = Inl e" | (returned) n where "x = Inr (Inl n)" | (result) y where "x = Inr (Inr y)"
  by (metis sum.exhaust)

lemma unlink_checksD:
  assumes "unlink_checks hash dirfd input flags fs fdm = Inr (Inr leaf)"
  obtains node where "resolve_namespace_leaf fs fdm dirfd input = Inr (Inr leaf)" "nl_kind leaf = LK_Normal"
    "map_of (filesystem fs) (nl_path leaf) = Some node" "\<not> S_ISDIR (vn_mode node)"
    "S_ISREG (vn_mode node) \<or> S_ISLNK (vn_mode node)" "require_namespace_mutable fs (nl_path leaf) = Inr ()"
proof -
  have flags: "leaf_unlink_flags flags = Inr 0"
    using assms by (cases "leaf_unlink_flags flags") (auto simp: unlink_checks_def andthen_Inr split: if_splits)
  obtain l where l: "resolve_namespace_leaf fs fdm dirfd input = Inr (Inr l)"
    using assms flags unfolding unlink_checks_def
    by (cases "resolve_namespace_leaf fs fdm dirfd input" rule: sum_pairE) (auto simp: andthen_Inr)
  obtain node where node: "map_of (filesystem fs) (nl_path l) = Some node"
    using assms unfolding unlink_checks_def flags l
    by (cases "map_of (filesystem fs) (nl_path l)") (auto simp: andthen_Inr split: if_splits)
  show thesis
    using assms that [of node] node l unfolding unlink_checks_def flags l
    by (simp add: andthen_Inr split: if_splits) blast
qed

lemma mode_lnk_not_dir: "S_ISLNK m \<Longrightarrow> \<not> S_ISDIR m"
  by (auto simp: S_ISLNK_def S_ISDIR_def)

text \<open>A change of the file table that keeps the directories, the open and the mapped files.\<close>

lemma fs_ok_files:
  assumes ok: "fs_ok hash fs fdm" and "om_ok files'" "same_dirs (filesystem fs) files'" "sizes_ok files'"
    and inodes: "inodes_ok hash (fs\<lparr>filesystem := files'\<rparr>)"
    and opened: "\<And>fd d. map_of (open_files fs) fd = Some d \<Longrightarrow> om_mem (of_path d) files'"
    and regs: "\<And>p. mapped_file fs p \<Longrightarrow> is_reg (filesystem fs) p \<Longrightarrow> is_reg files' p"
  shows "fs_ok hash (fs\<lparr>filesystem := files'\<rparr>) fdm"
proof -
  note old = fs_okD [OF ok]
  show ?thesis
  proof (rule fs_ok_change [OF ok, where files' = files' and opens' = "open_files fs" and inode' = "next_inode fs"])
    show "\<exists>cs. of_path d = path_of cs \<and> reachable (filesystem fs) cs"
      if "map_of (open_files fs) x = Some d" "is_dir (filesystem fs) (of_path d)" for x d
      using that old(5) unfolding dirfds_ok_def by blast
    show "opens_ok (fs\<lparr>filesystem := files'\<rparr>)" using old(6) opened by (simp add: opens_ok_def)
    show "fds_agree (fs\<lparr>filesystem := files'\<rparr>) fdm" using old(7) by (simp add: fds_agree_def)
  qed (use assms old in simp_all)
qed

lemma do_unlinkat_ok:
  assumes ok: "fs_ok hash fs fdm" and run: "do_unlinkat hash now dirfd input flags fs fdm = (r, fs')"
  shows "fs_ok hash fs' fdm"
proof (cases "fs' = fs")
  case False
  then obtain leaf where l: "unlink_checks hash dirfd input flags fs fdm = Inr (Inr leaf)"
    "fs' = fs\<lparr>filesystem := set_mtim (nl_parent leaf) now (om_del (nl_path leaf) (filesystem fs))\<rparr>"
    using run by (auto simp: do_unlinkat_def split: sum.splits)
  obtain node where n: "map_of (filesystem fs) (nl_path leaf) = Some node" "\<not> S_ISDIR (vn_mode node)"
    "require_namespace_mutable fs (nl_path leaf) = Inr ()"
    using l(1) by (rule unlink_checksD)
  note old = fs_okD [OF ok] and free = namespace_mutableD [OF n(3)]
  let ?files = "set_mtim (nl_parent leaf) now (om_del (nl_path leaf) (filesystem fs))"
  have look: "map_of ?files q = Some k' \<Longrightarrow> \<exists>k. map_of (filesystem fs) q = Some k \<and> same_node k k'" for q k'
    by (auto simp: map_of_set_mtim same_node_def split: if_splits)
  show ?thesis unfolding l(2)
  proof (rule fs_ok_files [OF ok])
    show "same_dirs (filesystem fs) ?files"
      using n(1,2) by (auto simp: same_dirs_def fun_eq_iff is_dir_def split: option.splits)
    show "sizes_ok ?files" using old(8) by (intro sizes_ok_set_mtim) (simp add: sizes_ok_def)
    show "inodes_ok hash (fs\<lparr>filesystem := ?files\<rparr>)"
      using look by (intro inodes_ok_same [OF old(9)]) auto
    show "om_mem (of_path d) ?files" if "map_of (open_files fs) fd = Some d" for fd d
      using that free(2) old(6) by (auto simp: opens_ok_def om_mem_del)
    show "is_reg ?files p" if "mapped_file fs p" "is_reg (filesystem fs) p" for p
      using that free(1) by auto
  qed (use old in simp)
qed (use ok in simp)

lemma rename_checksD:
  assumes "rename_checks hash olddirfd oldname newdirfd newname flags fs fdm = Inr (Inr (oldleaf, newleaf, source))"
  shows "resolve_namespace_leaf fs fdm olddirfd oldname = Inr (Inr oldleaf)"
    "resolve_namespace_leaf fs fdm newdirfd newname = Inr (Inr newleaf)"
    "nl_kind oldleaf = LK_Normal" "nl_kind newleaf = LK_Normal"
    "map_of (filesystem fs) (nl_path oldleaf) = Some source" "nl_path oldleaf \<noteq> nl_path newleaf"
    "S_ISREG (vn_mode source) \<or> S_ISLNK (vn_mode source)" "\<not> S_ISDIR (vn_mode source)"
    "\<not> is_dir (filesystem fs) (nl_path newleaf)"
    "require_namespace_mutable fs (nl_path oldleaf) = Inr ()" "require_namespace_mutable fs (nl_path newleaf) = Inr ()"
    "has_flag flags 1 \<Longrightarrow> \<not> om_mem (nl_path newleaf) (filesystem fs)"
proof -
  have flags: "leaf_rename_flags flags = Inr 0"
    using assms by (cases "leaf_rename_flags flags") (auto simp: rename_checks_def andthen_Inr split: if_splits)
  obtain l where l: "resolve_namespace_leaf fs fdm olddirfd oldname = Inr (Inr l)"
    using assms flags unfolding rename_checks_def
    by (cases "resolve_namespace_leaf fs fdm olddirfd oldname" rule: sum_pairE) (auto simp: andthen_Inr)
  obtain k where k: "resolve_namespace_leaf fs fdm newdirfd newname = Inr (Inr k)"
    using assms unfolding rename_checks_def flags l
    by (cases "resolve_namespace_leaf fs fdm newdirfd newname" rule: sum_pairE) (auto simp: andthen_Inr)
  obtain node where node: "map_of (filesystem fs) (nl_path l) = Some node"
    using assms unfolding rename_checks_def flags l k
    by (cases "map_of (filesystem fs) (nl_path l)") (auto simp: andthen_Inr split: if_splits)
  note run = assms [unfolded rename_checks_def flags l k, simplified node Let_def andthen_Inr, simplified]
  show "resolve_namespace_leaf fs fdm olddirfd oldname = Inr (Inr oldleaf)"
    "resolve_namespace_leaf fs fdm newdirfd newname = Inr (Inr newleaf)"
    "nl_kind oldleaf = LK_Normal" "nl_kind newleaf = LK_Normal"
    "map_of (filesystem fs) (nl_path oldleaf) = Some source" "nl_path oldleaf \<noteq> nl_path newleaf"
    "S_ISREG (vn_mode source) \<or> S_ISLNK (vn_mode source)" "\<not> S_ISDIR (vn_mode source)"
    "\<not> is_dir (filesystem fs) (nl_path newleaf)"
    "require_namespace_mutable fs (nl_path oldleaf) = Inr ()" "require_namespace_mutable fs (nl_path newleaf) = Inr ()"
    "has_flag flags 1 \<Longrightarrow> \<not> om_mem (nl_path newleaf) (filesystem fs)"
    using run l k node by (auto simp: andthen_Inr is_dir_def om_mem_def split: if_splits option.splits)
qed

lemma renamed_node_inode:
  "node_inode hash newpath (source\<lparr>vn_ino := renamed_inode hash oldpath newpath source\<rparr>) = node_inode hash oldpath source"
  using initial_inode_high [of hash oldpath] by (auto simp: node_inode_def renamed_inode_def Let_def)

lemma renamed_override_ok:
  assumes "inode_override_ok hash i oldpath source" "S_ISREG (vn_mode source) \<or> S_ISLNK (vn_mode source)"
  shows "inode_override_ok hash i newpath (source\<lparr>vn_ino := renamed_inode hash oldpath newpath source\<rparr>)"
  using assms initial_inode_high [of hash oldpath]
  by (auto simp: inode_override_ok_def renamed_inode_def node_inode_def Let_def not_less split: if_splits)

lemma inodes_ok_rename:
  assumes ok: "inodes_ok hash fs" and source: "map_of (filesystem fs) p = Some source"
      "S_ISREG (vn_mode source) \<or> S_ISLNK (vn_mode source)"
    and fs': "next_inode fs' = next_inode fs"
      "same_files ((map_of (filesystem fs)) (p := None, q := Some (source\<lparr>vn_ino := renamed_inode hash p q source\<rparr>))) (filesystem fs')"
  shows "inodes_ok hash fs'"
proof -
  let ?i = "next_inode fs"
  let ?moved = "source\<lparr>vn_ino := renamed_inode hash p q source\<rparr>"
  let ?m = "(map_of (filesystem fs)) (p := None, q := Some ?moved)"
  have i: "?i \<noteq> 0" "?i \<le> guest_inode_limit" "\<And>q k. map_of (filesystem fs) q = Some k \<Longrightarrow> inode_override_ok hash ?i q k"
    "\<And>q k q' k'. map_of (filesystem fs) q = Some k \<Longrightarrow> map_of (filesystem fs) q' = Some k' \<Longrightarrow>
        node_inode hash q k = node_inode hash q' k' \<Longrightarrow> q = q'"
    using ok unfolding inodes_ok_def by blast+
  have over: "inode_override_ok hash ?i x k" if "?m x = Some k" for x k
    using that i(3) renamed_override_ok [OF i(3) [OF source(1)] source(2)] by (auto split: if_splits)
  have orig: "\<exists>x' k'. map_of (filesystem fs) x' = Some k' \<and> node_inode hash x' k' = node_inode hash x k \<and>
      x' = (if x = q then p else x) \<and> (x \<noteq> q \<longrightarrow> x \<noteq> p)" if "?m x = Some k" for x k
    using that source(1) renamed_node_inode [where oldpath = p and newpath = q and source = source and hash = hash] by (cases "x = q") (auto split: if_splits)
  have uniq: "x = y" if "?m x = Some k" "?m y = Some l" "node_inode hash x k = node_inode hash y l" for x k y l
    using orig [OF that(1)] orig [OF that(2)] that(3) i(4) by (metis (no_types))
  show ?thesis unfolding inodes_ok_def fs'(1)
  proof (intro conjI allI impI)
    fix x k' assume "map_of (filesystem fs') x = Some k'"
    from same_files_lookup [OF fs'(2) this] obtain k where "?m x = Some k" "same_node k k'" by blast
    with over [of x k] show "inode_override_ok hash ?i x k'" by (simp add: inode_override_ok_def same_node_def)
  next
    fix x k' y l' assume a: "map_of (filesystem fs') x = Some k'" "map_of (filesystem fs') y = Some l'"
      "node_inode hash x k' = node_inode hash y l'"
    obtain k l where "?m x = Some k" "same_node k k'" "?m y = Some l" "same_node l l'"
      using same_files_lookup [OF fs'(2) a(1)] same_files_lookup [OF fs'(2) a(2)] by blast
    then show "x = y" using uniq [of x k y l] a(3) by (simp add: node_inode_same)
  qed (use i in simp_all)
qed

lemma do_renameat2_ok:
  assumes ok: "fs_ok hash fs fdm" and run: "do_renameat2 hash now olddirfd oldname newdirfd newname flags fs fdm = (r, fs')"
  shows "fs_ok hash fs' fdm"
proof (cases "fs' = fs")
  case False
  then obtain oldleaf newleaf source where
    c: "rename_checks hash olddirfd oldname newdirfd newname flags fs fdm = Inr (Inr (oldleaf, newleaf, source))"
    using run by (auto simp: do_renameat2_def split: sum.splits)
  let ?p = "nl_path oldleaf" and ?q = "nl_path newleaf"
  let ?moved = "source\<lparr>vn_ino := renamed_inode hash ?p ?q source\<rparr>"
  let ?base = "om_put ?q ?moved (om_del ?q (om_del ?p (filesystem fs)))"
  let ?files = "set_mtim (nl_parent newleaf) now (set_mtim (nl_parent oldleaf) now ?base)"
  have fs': "fs' = fs\<lparr>filesystem := ?files\<rparr>" using run c by (simp add: do_renameat2_def Let_def)
  note c = rename_checksD [OF c] and old = fs_okD [OF ok]
  note free = namespace_mutableD [OF c(10)] namespace_mutableD [OF c(11)]
  have same: "same_files ((map_of (filesystem fs)) (?p := None, ?q := Some ?moved)) ?files"
    by (intro same_files_set_mtim) (simp add: same_files_def option.rel_refl)
  show ?thesis unfolding fs'
  proof (rule fs_ok_files [OF ok])
    show "same_dirs (filesystem fs) ?files"
      using c(5,8,9) by (auto simp: same_dirs_def fun_eq_iff is_dir_def split: option.splits)
    show "sizes_ok ?files"
      using old(8) c(5) by (intro sizes_ok_set_mtim) (simp add: sizes_ok_def)
    show "inodes_ok hash (fs\<lparr>filesystem := ?files\<rparr>)"
      using same by (intro inodes_ok_rename [OF old(9) c(5,7)]) simp_all
    show "om_mem (of_path d) ?files" if "map_of (open_files fs) fd = Some d" for fd d
      using that free(2,4) old(6) by (auto simp: opens_ok_def om_mem_del om_mem_put)
    show "is_reg ?files x" if "mapped_file fs x" "is_reg (filesystem fs) x" for x
      using that free(1,3) by auto
  qed (use old in simp)
qed (use ok in simp)

section \<open>Directory and mask\<close>

lemma do_chdir_ok:
  assumes ok: "fs_ok hash fs fdm" and run: "do_chdir path fs fdm = (r, fs')"
  shows "fs_ok hash fs' fdm"
proof (cases "fs' = fs")
  case False
  then obtain p where p: "resolve_path_checked fs fdm AT_FDCWD path True False False = Inr (Inr p)"
    "is_dir (filesystem fs) p" "fs' = fs\<lparr>cwd := p\<rparr>"
    using run by (auto simp: do_chdir_def is_dir_def split: if_splits sum.splits option.splits)
  note old = fs_okD [OF ok]
  have "cwd_ok fs'" using resolve_reaches [OF p(1) old(4,5)] p(2) old(4) by (auto simp: cwd_ok_def p(3))
  then show ?thesis
    using old by (simp add: fs_ok_def p(3) dirfds_ok_def opens_ok_def fds_agree_def inodes_ok_def sources_valid_def mappings_ok_def)
qed (use ok in simp)

lemma set_creation_mask_ok: "fs_ok hash fs fdm \<Longrightarrow> fs_ok hash (set_creation_mask umask fs) fdm"
  by (simp add: fs_ok_def set_creation_mask_def cwd_ok_def dirfds_ok_def opens_ok_def fds_agree_def inodes_ok_def
      sources_valid_def mappings_ok_def ac_simps)

section \<open>Mapped files\<close>

definition all_sources :: "(u64 \<Rightarrow> bool) \<Rightarrow> (string \<Rightarrow> bool) \<Rightarrow> sources \<Rightarrow> bool" where
  "all_sources A Q s \<longleftrightarrow> (\<forall>(l, r, p) \<in> set s. A l \<and> A r \<and> Q p)"

lemma all_sources_Cons [simp]: "all_sources A Q ((l, r, p) # s) \<longleftrightarrow> A l \<and> A r \<and> Q p \<and> all_sources A Q s"
  by (auto simp: all_sources_def)

lemma all_sources_cut: "all_sources A Q s \<Longrightarrow> A start \<Longrightarrow> A stop \<Longrightarrow> all_sources A Q (cut_sources start stop s)"
  by (induction start stop s rule: cut_sources.induct) (auto simp: all_sources_def)

lemma all_sources_insert:
  "all_sources A Q s \<Longrightarrow> A start \<Longrightarrow> A stop \<Longrightarrow> Q path \<Longrightarrow> all_sources A Q (insert_source start stop path s)"
  by (induction start stop path s rule: insert_source.induct) (auto simp: all_sources_def)

definition mappable :: "fs_state \<Rightarrow> string \<Rightarrow> bool" where
  "mappable fs p \<longleftrightarrow> is_reg (filesystem fs) p \<and> (\<exists>cs. p = path_of cs \<and> reachable (filesystem fs) cs)"

lemma sources_valid_all:
  "sources_valid fs \<longleftrightarrow> mappings_ok fs \<and> all_sources page (mappable fs) (virtual_file_mapping_sources fs)"
  by (auto simp: sources_valid_def all_sources_def mappable_def)

lemma fs_ok_sources:
  assumes "fs_ok hash fs fdm" "fs' = fs\<lparr>virtual_file_mapping_sources := s, virtual_file_mappings := c\<rparr>" "sources_valid fs'"
  shows "fs_ok hash fs' fdm"
  using assms by (simp add: fs_ok_def cwd_ok_def dirfds_ok_def opens_ok_def fds_agree_def inodes_ok_def)

lemma remove_mapping_ok:
  assumes ok: "fs_ok hash fs fdm" and run: "remove_virtual_file_mapping start stop fs = (r, fs')"
  shows "fs_ok hash fs' fdm"
proof (cases "fs' = fs")
  case False
  have pages: "page start" "page stop" "start < stop"
    using run False by (auto simp: remove_virtual_file_mapping_def page_def not_le split: if_splits)
  note valid = fs_okD(10) [OF ok, unfolded sources_valid_all]
  obtain fs1 where fs1: "remove_virtual_file_mapping start stop fs = (Inr (), fs1)" "mappings_ok fs1"
    "start < stop \<Longrightarrow> virtual_file_mapping_sources fs1 = cut_sources start stop (virtual_file_mapping_sources fs)"
    using remove_mapping [of fs start stop] valid pages(1,2) unfolding page_def by metis
  have same: "fs1 = fs'" using fs1(1) run by simp
  have form: "fs' = fs\<lparr>virtual_file_mapping_sources := virtual_file_mapping_sources fs',
      virtual_file_mappings := virtual_file_mappings fs'\<rparr>"
    using run by (auto simp: remove_virtual_file_mapping_def Let_def split: if_splits prod.splits)
  have "filesystem fs' = filesystem fs" by (subst form) simp
  then have "mappable fs' = mappable fs" by (simp add: mappable_def fun_eq_iff)
  then have "sources_valid fs'"
    using valid fs1(2,3) pages all_sources_cut [of page "mappable fs"] by (simp add: sources_valid_all same)
  then show ?thesis by (rule fs_ok_sources [OF ok form])
qed (use ok in simp)

lemma add_mapping_ok:
  assumes ok: "fs_ok hash fs fdm" and run: "add_virtual_file_mapping start stop path fs fdm = (r, fs')"
  shows "fs_ok hash fs' fdm"
proof (cases "fs' = fs")
  case False
  obtain fs1 r1 where checks: "page start" "page stop" "is_reg (filesystem fs) path"
      "resolve_path_checked fs fdm AT_FDCWD path True False False = Inr (Inr path)"
    and rm: "remove_virtual_file_mapping start stop fs = (r1, fs1)"
    and fs': "fs' = fs1 \<or> r = Inr () \<and> fs' = fs1\<lparr>virtual_file_mapping_sources :=
         insert_source start stop path (virtual_file_mapping_sources fs1),
         virtual_file_mappings := mapping_coverage (insert_source start stop path (virtual_file_mapping_sources fs1))\<rparr>"
    using run False
    by (auto simp: add_virtual_file_mapping_def Let_def page_def is_reg_def
        split: if_splits option.splits sum.splits prod.splits)
  have ok1: "fs_ok hash fs1 fdm" by (rule remove_mapping_ok [OF ok rm])
  have form: "filesystem fs1 = filesystem fs"
    using rm by (auto simp: remove_virtual_file_mapping_def Let_def split: if_splits prod.splits)
  show ?thesis using fs'
  proof
    assume add: "r = Inr () \<and> fs' = fs1\<lparr>virtual_file_mapping_sources :=
         insert_source start stop path (virtual_file_mapping_sources fs1),
         virtual_file_mappings := mapping_coverage (insert_source start stop path (virtual_file_mapping_sources fs1))\<rparr>"
    have "mappings_ok fs'"
      using add_mapping(1) [of fs] run add fs_okD(10) [OF ok] by (simp add: sources_valid_def)
    moreover have "mappable fs1 path"
      using checks(3) resolve_reaches [OF checks(4) fs_okD(4,5) [OF ok]] by (auto simp: mappable_def form)
    then have "all_sources page (mappable fs1) (virtual_file_mapping_sources fs')"
      using add checks(1,2) fs_okD(10) [OF ok1, unfolded sources_valid_all] by (simp add: all_sources_insert)
    moreover have "mappable fs' = mappable fs1" using add by (simp add: mappable_def fun_eq_iff)
    ultimately have "sources_valid fs'" by (simp add: sources_valid_all)
    with add show ?thesis by (blast intro: fs_ok_sources [OF ok1])
  qed (use ok1 in simp)
qed (use ok in simp)

section \<open>Runs\<close>

text \<open>
  A step of a process on its files: one of the operations, at any time and with any arguments, or a
  change of the descriptor table by another component, which never touches a descriptor of a file.
\<close>

inductive vfs_step :: "(string \<Rightarrow> u64) \<Rightarrow> fs_state \<times> fd_manager \<Rightarrow> fs_state \<times> fd_manager \<Rightarrow> bool" for hash where
  openat: "do_openat now dirfd path flags mode fs fdm = (r, fs', fdm') \<Longrightarrow> vfs_step hash (fs, fdm) (fs', fdm')"
| read_bytes: "do_read fd count fs fdm = (r', fs') \<Longrightarrow> vfs_step hash (fs, fdm) (fs', fdm)"
| write_bytes: "do_write now fd buf fs fdm = (r, fs') \<Longrightarrow> vfs_step hash (fs, fdm) (fs', fdm)"
| ftruncate: "do_ftruncate now fd len fs fdm = (r, fs') \<Longrightarrow> len \<le> OFF_MAX \<Longrightarrow> vfs_step hash (fs, fdm) (fs', fdm)"
| lseek: "do_lseek fd offset whence fs fdm = (r, fs') \<Longrightarrow> vfs_step hash (fs, fdm) (fs', fdm)"
| close: "do_close fd fs fdm = (r, fs', fdm') \<Longrightarrow> vfs_step hash (fs, fdm) (fs', fdm')"
| unlinkat: "do_unlinkat hash now dirfd input flags fs fdm = (r, fs') \<Longrightarrow> vfs_step hash (fs, fdm) (fs', fdm)"
| renameat2: "do_renameat2 hash now olddirfd oldname newdirfd newname flags fs fdm = (r, fs') \<Longrightarrow>
     vfs_step hash (fs, fdm) (fs', fdm)"
| chdir: "do_chdir path fs fdm = (r, fs') \<Longrightarrow> vfs_step hash (fs, fdm) (fs', fdm)"
| umask: "vfs_step hash (fs, fdm) (set_creation_mask umask fs, fdm)"
| map_file: "add_virtual_file_mapping start stop path fs fdm = (u, fs') \<Longrightarrow> vfs_step hash (fs, fdm) (fs', fdm)"
| unmap_file: "remove_virtual_file_mapping start stop fs = (u, fs') \<Longrightarrow> vfs_step hash (fs, fdm) (fs', fdm)"
| other_alloc: "kind \<notin> {FT_FILE, FT_STDIO} \<Longrightarrow> allocate_fd kind status descriptor fdm = (r, fdm') \<Longrightarrow>
     vfs_step hash (fs, fdm) (fs, fdm')"
| other_release: "get_fd_type fd fdm \<notin> {FT_FILE, FT_STDIO} \<Longrightarrow> vfs_step hash (fs, fdm) (fs, release_fd fd fdm)"
| fcntl: "do_fcntl fd cmd arg fdm = (r, fdm') \<Longrightarrow> vfs_step hash (fs, fdm) (fs, fdm')"

lemma fs_ok_fdm:
  assumes "fs_ok hash fs fdm" "fd_ok fdm'"
    and "\<And>fd. get_fd_type fd fdm' \<in> {FT_FILE, FT_STDIO} \<longleftrightarrow> get_fd_type fd fdm \<in> {FT_FILE, FT_STDIO}"
  shows "fs_ok hash fs fdm'"
  using assms by (auto simp: fs_ok_def fds_agree_def)

lemma fs_ok_other_alloc:
  assumes ok: "fs_ok hash fs fdm" and kind: "kind \<notin> {FT_FILE, FT_STDIO}"
    and run: "allocate_fd kind status descriptor fdm = (r, fdm')"
  shows "fs_ok hash fs fdm'"
proof -
  note fd = fs_okD(3) [OF ok]
  show ?thesis
  proof (cases r)
    case (Inl e)
    then show ?thesis using fdm.alloc_error [OF fd] run ok by blast
  next
    case (Inr x)
    show ?thesis
    proof (cases "0 \<le> x")
      case True
      have a: "get_fd_type x fdm = FT_UNKNOWN" "get_fd_type x fdm' = kind" "\<And>y. y \<noteq> x \<Longrightarrow> get_fd_type y fdm' = get_fd_type y fdm"
        using fdm.alloc_fresh [OF fd run [unfolded Inr] True] by blast+
      have "get_fd_type y fdm' \<in> {FT_FILE, FT_STDIO} \<longleftrightarrow> get_fd_type y fdm \<in> {FT_FILE, FT_STDIO}" for y
        using a kind by (cases "y = x") auto
      then show ?thesis by (rule fs_ok_fdm [OF ok fdm.ok_alloc [OF fd run]])
    next
      case False
      then show ?thesis using fdm.alloc_full [OF fd run [unfolded Inr]] ok by simp
    qed
  qed
qed

lemma vfs_step_ok:
  assumes "vfs_step hash (fs, fdm) (fs', fdm')" "fs_ok hash fs fdm"
  shows "fs_ok hash fs' fdm'"
  using assms(1)
proof cases
  case other_release
  then show ?thesis using assms(2) fs_okD(3) [OF assms(2)]
    by (auto intro!: fs_ok_fdm [OF assms(2)] simp: fd_ok_release fdm.kind_release split: if_splits)
next
  case (fcntl fd cmd arg r)
  then show ?thesis using fcntl_kind [OF fcntl(2)] fd_ok_fcntl [OF fs_okD(3) [OF assms(2)] fcntl(2)]
    by (auto intro!: fs_ok_fdm [OF assms(2)])
next
  case openat
  then show ?thesis using do_openat_ok [OF assms(2)] by blast
next
  case read_bytes
  then show ?thesis using do_read_ok [OF assms(2)] by blast
next
  case write_bytes
  then show ?thesis using do_write_ok [OF assms(2)] by blast
next
  case ftruncate
  then show ?thesis using do_ftruncate_ok [OF assms(2)] by blast
next
  case lseek
  then show ?thesis using do_lseek_ok [OF assms(2)] by blast
next
  case close
  then show ?thesis using do_close_ok [OF assms(2)] by blast
next
  case unlinkat
  then show ?thesis using do_unlinkat_ok [OF assms(2)] by blast
next
  case renameat2
  then show ?thesis using do_renameat2_ok [OF assms(2)] by blast
next
  case chdir
  then show ?thesis using do_chdir_ok [OF assms(2)] by blast
next
  case umask
  then show ?thesis using set_creation_mask_ok [OF assms(2)] by blast
next
  case map_file
  then show ?thesis using add_mapping_ok [OF assms(2)] by blast
next
  case unmap_file
  then show ?thesis using remove_mapping_ok [OF assms(2)] by blast
next
  case other_alloc
  then show ?thesis using fs_ok_other_alloc [OF assms(2)] by blast
qed

lemma vfs_run_ok:
  assumes "(vfs_step hash)\<^sup>*\<^sup>* (fs, fdm) (fs', fdm')" "fs_ok hash fs fdm"
  shows "fs_ok hash fs' fdm'"
  using assms by (induction rule: rtranclp_induct2) (auto intro: vfs_step_ok)

end
