(* ===== verification/Vfs_Safe.thy ===== *)
theory Vfs_Safe
  imports Vfs_Runs
begin

text \<open>
  The exceptions that the file system throws when its own tables disagree, and that no operation
  throws one of them on a state that satisfies the invariant.
\<close>

definition internal_failure :: "exn \<Rightarrow> bool" where
  "internal_failure e \<longleftrightarrow> e \<in> {Out_of_range,
     Runtime_error ''Directory descriptor has no payload'',
     Runtime_error ''Truncated descriptor has no file payload'',
     Runtime_error ''Open descriptor has no captured payload'',
     Runtime_error ''Free descriptor still has a virtual file description'',
     Runtime_error ''Virtual descriptor allocation changed during open'',
     Runtime_error ''New virtual file has no directory parent'',
     Runtime_error ''Captured VFS path inode collision'',
     Runtime_error ''Invalid virtual guest inode counter'',
     Runtime_error ''Invalid virtual inode override''}"

definition safe :: "exn + 'a \<Rightarrow> bool" where
  "safe r \<longleftrightarrow> (case r of Inl e \<Rightarrow> \<not> internal_failure e | Inr _ \<Rightarrow> True)"

lemma safe_Inr [simp]: "safe (Inr x)"
  by (simp add: safe_def)

lemma safe_andthen: "safe r \<Longrightarrow> (\<And>x. r = Inr x \<Longrightarrow> safe (f x)) \<Longrightarrow> safe (andthen r f)"
  by (cases r) (auto simp: safe_def)

lemma safe_if: "(c \<Longrightarrow> safe a) \<Longrightarrow> (\<not> c \<Longrightarrow> safe b) \<Longrightarrow> safe (if c then a else b)"
  by simp

lemma safe_option:
  "(x = None \<Longrightarrow> safe a) \<Longrightarrow> (\<And>y. x = Some y \<Longrightarrow> safe (f y)) \<Longrightarrow> safe (case x of None \<Rightarrow> a | Some y \<Rightarrow> f y)"
  by (cases x) simp_all

lemma safe_sum:
  "(\<And>y. x = Inl y \<Longrightarrow> safe (f y)) \<Longrightarrow> (\<And>y. x = Inr y \<Longrightarrow> safe (g y)) \<Longrightarrow> safe (case x of Inl y \<Rightarrow> f y | Inr y \<Rightarrow> g y)"
  by (cases x) simp_all

lemma safe_prod: "(\<And>a b. x = (a, b) \<Longrightarrow> safe (f a b)) \<Longrightarrow> safe (case x of (a, b) \<Rightarrow> f a b)"
  by (cases x) simp

lemmas safe_intros = safe_if safe_option safe_sum safe_prod safe_andthen

lemma safe_throws:
  "safe (Inl (Runtime_error (''VFS search permission requires captured credentials: '' @ m)))"
  "safe (Inl (Runtime_error (''Captured symlink contains a null byte: '' @ m)))"
  "safe (Inl (Runtime_error ''Unsupported virtual open flags''))"
  "safe (Inl (Runtime_error ''Virtual proc self nofollow open is not modeled''))"
  "safe (Inl (Runtime_error ''Virtual proc self link metadata is not modeled''))"
  "safe (Inl (Runtime_error ''Modification of a mapped virtual file is unsupported''))"
  "safe (Inl (Runtime_error ''Virtual guest inode domain exhausted''))"
  "safe (Inl (Runtime_error ''Virtual ftruncate exceeds single-operation dense growth bound''))"
  "safe (Inl (Runtime_error ''Directory removal is unsupported''))"
  "safe (Inl (Runtime_error ''Rename exchange/whiteout is unsupported''))"
  "safe (Inl (Runtime_error ''Synthetic executable link namespace mutation is unsupported''))"
  "safe (Inl (Runtime_error ''Running executable namespace mutation is unsupported''))"
  "safe (Inl (Runtime_error ''Open virtual object namespace mutation is unsupported''))"
  "safe (Inl (Runtime_error ''Only regular or symlink leaf deletion is supported''))"
  "safe (Inl (Runtime_error ''Sticky-directory namespace mutation is unsupported''))"
  "safe (Inl (Runtime_error ''Root/mount namespace rename is unsupported''))"
  "safe (Inl (Runtime_error ''Directory moves are unsupported''))"
  "safe (Inl (Runtime_error ''Only regular or symlink leaf rename is supported''))"
  by (simp_all add: safe_def internal_failure_def)

lemma safe_resolve_loop: "safe (resolve_loop files follow search creating links current pending)"
proof (induction files follow search creating links current pending rule: resolve_loop.induct)
  case (2 files follow search creating links current part pending)
  show ?case
    by (subst resolve_loop.simps(2), unfold Let_def, intro safe_intros;
        (rule safe_Inr | rule safe_throws | rule "2.IH"); (assumption | rule refl))
qed simp

lemma payload: "fs_ok hash fs fdm \<Longrightarrow> map_of (open_files fs) fd = Some d \<Longrightarrow> map_of (filesystem fs) (of_path d) \<noteq> None"
  using fs_okD(6) [of hash fs fdm] unfolding opens_ok_def om_mem_def by blast

lemma safe_resolve:
  assumes "fs_ok hash fs fdm"
  shows "safe (resolve_path_checked fs fdm dirfd path follow search creating)"
  by (auto simp: resolve_path_checked_def Let_def safe_resolve_loop split: option.splits dest: payload [OF assms])

lemma resolve_parent:
  assumes "fs_ok hash fs fdm" "resolve_path_checked fs fdm dirfd path follow search creating = Inr (Inr p)"
    "\<not> om_mem p (filesystem fs)"
  shows "is_dir (filesystem fs) (parent_of p)"
proof -
  obtain cs where cs: "p = path_of cs" "reachable (filesystem fs) cs"
    using resolve_reaches [OF assms(2) fs_okD(4,5) [OF assms(1)]] by blast
  have "cs \<noteq> []" using assms(1,3) cs(1) fs_okD(4) [OF assms(1)]
    by (auto simp: cwd_ok_def is_dir_def om_mem_def split: option.splits)
  moreover have "list_all component cs" using cs(2) by (simp add: reachable_def)
  ultimately show ?thesis using reachable_parent [OF cs(2)] parent_path_of [of cs] cs(1) by simp
qed

lemma safe_open_resolved:
  assumes ok: "fs_ok hash fs fdm" and parent: "\<not> om_mem p (filesystem fs) \<Longrightarrow> is_dir (filesystem fs) (parent_of p)"
  shows "safe (fst (open_resolved now p flags mode fs fdm))"
proof -
  define status where "status = flags AND NOT (O_CLOEXEC OR O_CREAT OR O_EXCL OR O_TRUNC)"
  define descriptor where "descriptor = (if has_flag flags O_CLOEXEC then FD_CLOEXEC else 0)"
  obtain x fdm1 where a: "allocate_fd FT_FILE status descriptor fdm = (x, fdm1)"
    by (cases "allocate_fd FT_FILE status descriptor fdm")
  have "om_mem (get_next_fd fdm) (open_files fs) \<Longrightarrow> get_next_fd fdm < 0"
    using fs_okD(7) [OF ok] get_next_fd_spec [OF fs_okD(3) [OF ok]]
    by (auto simp: fds_agree_def get_fd_type_def is_allocated_def om_mem_def split: option.splits if_splits)
  moreover have "safe x" if "x = Inl e" for e
    using a that by (auto simp: allocate_fd_def validate_entry_def safe_def internal_failure_def Let_def
        split: if_splits option.splits)
  moreover have "fd = get_next_fd fdm" if "x = Inr fd" "0 \<le> fd" for fd
    using a that by (auto simp: allocate_fd_def Let_def split: if_splits option.splits)
  moreover have "map_of (filesystem fs) p = None \<Longrightarrow>
     \<not> (case map_of (filesystem fs) (parent_of p) of None \<Rightarrow> True | Some n \<Rightarrow> \<not> S_ISDIR (vn_mode n))"
    using parent by (auto simp: om_mem_def is_dir_def split: option.splits)
  ultimately show ?thesis
    unfolding open_resolved_def Let_def status_def [symmetric] descriptor_def [symmetric] a
    by (auto simp: safe_throws split: sum.splits)
qed

lemma safe_openat:
  assumes ok: "fs_ok hash fs fdm"
  shows "safe (fst (do_openat now dirfd path flags mode fs fdm))"
proof -
  have "safe (fst (open_resolved now p flags mode fs fdm))"
    if "resolve_path_checked fs fdm dirfd path follow False creating = Inr (Inr p)" for p follow creating
    using resolve_parent [OF ok that] by (rule safe_open_resolved [OF ok])
  moreover have "safe (Inl e)" if "resolve_path_checked fs fdm dirfd path follow False creating = Inl e" for e follow creating
    using safe_resolve [OF ok, of dirfd path follow False creating] that by (simp add: safe_def)
  ultimately show ?thesis
    unfolding do_openat_def by (auto simp: safe_throws split: sum.splits)
qed

lemma safe_data:
  assumes ok: "fs_ok hash fs fdm"
  shows "safe (fst (do_read fd count fs fdm))" "safe (fst (do_write now fd buf fs fdm))"
    "safe (fst (do_ftruncate now fd len fs fdm))" "safe (fst (do_lseek fd offset whence fs fdm))"
proof -
  have fpay: "map_of (open_files fs) fd \<noteq> None" if "get_fd_type fd fdm = FT_FILE" for fd
    using fs_okD(7) [OF ok] that by (auto simp: fds_agree_def om_mem_def)
  show "safe (fst (do_read fd count fs fdm))"
    using payload [OF ok, of fd] by (auto simp: do_read_def Let_def split: option.splits)
  show "safe (fst (do_write now fd buf fs fdm))"
    using payload [OF ok, of fd]
    by (auto simp: do_write_def Let_def require_unmapped_file_def safe_throws split: option.splits)
  show "safe (fst (do_ftruncate now fd len fs fdm))"
    using payload [OF ok, of fd] fpay [of fd]
    by (auto simp: do_ftruncate_def Let_def require_unmapped_file_def safe_throws split: option.splits)
  show "safe (fst (do_lseek fd offset whence fs fdm))"
    using payload [OF ok, of fd] by (auto simp: do_lseek_def Let_def split: option.splits)
qed

lemma vfs_inodes_ok:
  assumes "fs_ok hash fs fdm"
  obtains inodes where "vfs_inodes hash (filesystem fs) = Inr inodes"
    "\<And>p n. map_of (filesystem fs) p = Some n \<Longrightarrow> map_of inodes p = Some (node_inode hash p n)"
proof -
  have "validate_inode_state hash fs = Inr ()"
    using inodes_ok_validate [OF fs_okD(1) [OF assms]] fs_okD(9) [OF assms] by blast
  then obtain inodes where r: "vfs_inodes hash (filesystem fs) = Inr inodes"
    by (auto simp: validate_inode_state_def andthen_Inr split: if_splits)
  have e: "inodes = map (\<lambda>(p, n). (p, node_inode hash p n)) (filesystem fs)"
    using inodes_of_result r unfolding vfs_inodes_def by blast
  have "map_of (map (\<lambda>(p, n). (p, node_inode hash p n)) files) p = map_option (node_inode hash p) (map_of files p)" for files p
    by (induction files) auto
  with r e that show thesis by simp
qed

lemma stat_of_ok:
  assumes "fs_ok hash fs fdm" "map_of (filesystem fs) p = Some n"
  shows "stat_of hash fs p n = Inr (copy_vfs_stat n (node_inode hash p n))"
proof -
  obtain inodes where "vfs_inodes hash (filesystem fs) = Inr inodes" "map_of inodes p = Some (node_inode hash p n)"
    using vfs_inodes_ok [OF assms(1)] assms(2) by metis
  then show ?thesis by (simp add: stat_of_def)
qed

lemma safe_status:
  assumes ok: "fs_ok hash fs fdm"
  shows "safe (do_stat hash path follow fs fdm)" "safe (do_fstat hash fd fs fdm)"
proof -
  show "safe (do_stat hash path follow fs fdm)"
    unfolding do_stat_def
    by (intro safe_intros safe_resolve [OF ok]; (rule safe_Inr | rule safe_throws | simp add: stat_of_ok [OF ok]))
  show "safe (do_fstat hash fd fs fdm)"
    using payload [OF ok, of fd] by (auto simp: do_fstat_def stat_of_ok [OF ok] split: option.splits)
qed

lemma safe_leaf:
  assumes ok: "fs_ok hash fs fdm"
  shows "safe (resolve_namespace_leaf fs fdm dirfd input)"
  unfolding resolve_namespace_leaf_def Let_def
  by (intro safe_intros safe_resolve [OF ok] safe_Inr)

text \<open>A leaf with an ordinary name, split at its last slash.\<close>

definition leaf_stem :: "string \<Rightarrow> string" where
  "leaf_stem input = rev (dropWhile (\<lambda>c. c = CHR ''/'') (rev input))"

definition leaf_split :: "string \<Rightarrow> string \<times> string" where
  "leaf_split stem =
     (case find_last_slash stem of None \<Rightarrow> (stem, ''./'') | Some n \<Rightarrow> (drop (n + 1) stem, take (n + 1) stem))"

lemma leaf_normal:
  assumes "resolve_namespace_leaf fs fdm dirfd input = Inr (Inr leaf)" "nl_kind leaf = LK_Normal"
  obtains name parent where "leaf_stem input \<noteq> []" "leaf_split (leaf_stem input) = (name, parent)" "CHR 0x00 \<notin> set input"
    "resolve_path_checked fs fdm dirfd parent True False False = Inr (Inr (nl_parent leaf))"
    "is_dir (filesystem fs) (nl_parent leaf)" "name \<noteq> ''.''" "name \<noteq> ''..''" "nl_name leaf = name"
    "nl_path leaf = join_paths (nl_parent leaf) name"
proof -
  note run = assms(1) [unfolded resolve_namespace_leaf_def leaf_stem_def [symmetric] leaf_split_def [symmetric] Let_def]
  have start: "input \<noteq> []" "CHR 0x00 \<notin> set input" "leaf_stem input \<noteq> []"
    using run assms(2) by (auto split: if_splits)
  obtain name parent where np: "leaf_split (leaf_stem input) = (name, parent)" by fastforce
  note run = run [unfolded np prod.case] and res = that [OF start(3) np start(2)]
  show thesis
  proof (cases "resolve_path_checked fs fdm dirfd parent True False False" rule: sum_pairE)
    case (result d)
    then obtain node where node: "map_of (filesystem fs) d = Some node"
      using run start by (cases "map_of (filesystem fs) d") auto
    show thesis
      by (rule res) (use run start result node assms(2) in \<open>auto simp: is_dir_def split: if_splits\<close>)
  qed (use run start in auto)
qed

lemma leaf_parent:
  "resolve_namespace_leaf fs fdm dirfd input = Inr (Inr leaf) \<Longrightarrow> nl_kind leaf = LK_Normal \<Longrightarrow>
   is_dir (filesystem fs) (nl_parent leaf)"
  by (rule leaf_normal)

lemma safe_node_at: "is_dir (filesystem fs) p \<Longrightarrow> safe (node_at fs p)"
  by (auto simp: node_at_def is_dir_def split: option.splits)

lemma safe_mutable: "safe (require_namespace_mutable fs p)"
  by (auto simp: require_namespace_mutable_def require_unmapped_file_def safe_throws)

lemma safe_validate: "fs_ok hash fs fdm \<Longrightarrow> safe (validate_inode_state hash fs)"
  using inodes_ok_validate [OF fs_okD(1), of hash fs fdm hash] fs_okD(9) [of hash fs fdm] by simp

lemma safe_leaf_flags: "safe (leaf_unlink_flags flags)" "safe (leaf_rename_flags flags)"
  by (auto simp: leaf_unlink_flags_def leaf_rename_flags_def safe_throws)

lemma safe_unlink:
  assumes ok: "fs_ok hash fs fdm"
  shows "safe (fst (do_unlinkat hash now dirfd input flags fs fdm))"
proof -
  have "safe (unlink_checks hash dirfd input flags fs fdm)"
    unfolding unlink_checks_def
    by (intro safe_intros safe_leaf_flags safe_leaf [OF ok] safe_mutable safe_validate [OF ok] safe_throws safe_Inr safe_node_at)
      (auto intro: leaf_parent)
  then show ?thesis by (auto simp: do_unlinkat_def safe_def split: sum.splits)
qed

lemma safe_rename:
  assumes ok: "fs_ok hash fs fdm"
  shows "safe (fst (do_renameat2 hash now olddirfd oldname newdirfd newname flags fs fdm))"
proof -
  have "safe (rename_checks hash olddirfd oldname newdirfd newname flags fs fdm)"
    unfolding rename_checks_def Let_def
    by (intro safe_intros safe_leaf_flags safe_leaf [OF ok] safe_mutable safe_validate [OF ok] safe_throws safe_Inr safe_node_at)
      (auto intro: leaf_parent)
  then show ?thesis by (auto simp: do_renameat2_def safe_def Let_def split: sum.splits)
qed

end
