(* ===== verification/Vfs_Facts.thy ===== *)
theory Vfs_Facts
  imports Vfs_Safe
begin

text \<open>
  What the operations do to the contents of the files: a write is read back, opening keeps what it
  does not truncate, a rename moves a file with its identity, and a mapped file does not change.
\<close>

section \<open>Contents\<close>

lemma content_write_read:
  "buf \<noteq> [] \<Longrightarrow> take (length buf) (drop k (content_write k buf bs)) = buf"
  by (auto simp: content_write_def Let_def drop_take min_def)

lemma content_write_outside:
  "i < length bs \<Longrightarrow> i < k \<or> k + length buf \<le> i \<Longrightarrow> content_write k buf bs ! i = bs ! i"
  by (auto simp: content_write_def Let_def nth_append min_def)

abbreviation content_at :: "fs_state \<Rightarrow> string \<Rightarrow> byte list option" where
  "content_at fs p \<equiv> map_option vn_content (map_of (filesystem fs) p)"

lemma content_set_mtim: "map_option vn_content (map_of (set_mtim p t files) q) = map_option vn_content (map_of files q)"
  by (cases "map_of files q") (simp_all add: map_of_set_mtim)

lemma content_open_commit:
  "content_at (open_commit now p flags mode fd fs) q =
     (if q = p \<and> (\<not> om_mem p (filesystem fs) \<or> has_flag flags O_TRUNC \<and> flags AND O_ACCMODE \<noteq> O_RDONLY) then Some []
      else content_at fs q)"
proof -
  define node where "node = new_node\<lparr>vn_mode := S_IFREG OR ((mode AND 0xFFF) AND NOT (creation_mask fs)),
                          vn_ino := next_inode fs, vn_mtim := now\<rparr>"
  define files1 where "files1 = (if om_mem p (filesystem fs) then filesystem fs
     else set_mtim (parent_of p) now (om_emplace p node (filesystem fs)))"
  have one: "map_option vn_content (map_of files1 q) = (if q = p \<and> \<not> om_mem p (filesystem fs) then Some [] else content_at fs q)" for q
    by (auto simp: files1_def content_set_mtim om_emplace_def om_mem_def node_def new_node_def split: option.splits)
  have "map_of files1 p \<noteq> None" using one [of p] by (auto simp: om_mem_def split: if_splits)
  then obtain n where n: "map_of files1 p = Some n" by blast
  show ?thesis
    unfolding open_commit_def Let_def node_def [symmetric] files1_def [symmetric]
    using one [of q] n by (auto split: if_splits)
qed

section \<open>Error numbers\<close>

definition errors_negative :: "exn + (int + 'a) \<Rightarrow> bool" where
  "errors_negative r \<longleftrightarrow> (\<forall>n. r = Inr (Inl n) \<longrightarrow> n < 0)"

lemma errors_negative_simps [simp]:
  "errors_negative (Inl e)" "errors_negative (Inr (Inr x))" "errors_negative (Inr (Inl n)) \<longleftrightarrow> n < 0"
  by (simp_all add: errors_negative_def)

lemma errors_negative_if:
  "(c \<Longrightarrow> errors_negative a) \<Longrightarrow> (\<not> c \<Longrightarrow> errors_negative b) \<Longrightarrow> errors_negative (if c then a else b)"
  by simp

lemma errors_negative_option:
  "(x = None \<Longrightarrow> errors_negative a) \<Longrightarrow> (\<And>y. x = Some y \<Longrightarrow> errors_negative (f y)) \<Longrightarrow>
   errors_negative (case x of None \<Rightarrow> a | Some y \<Rightarrow> f y)"
  by (cases x) simp_all

lemma resolve_loop_negative: "errors_negative (resolve_loop files follow search creating links current pending)"
proof (induction files follow search creating links current pending rule: resolve_loop.induct)
  case (2 files follow search creating links current part pending)
  show ?case
    by (subst resolve_loop.simps(2), unfold Let_def, intro errors_negative_if errors_negative_option;
        (rule "2.IH" | simp only: errors_negative_simps); (assumption | rule refl | simp))
qed simp

lemma resolve_negative:
  "resolve_path_checked fs fdm dirfd path follow search creating = Inr (Inl n) \<Longrightarrow> n < 0"
  using resolve_loop_negative unfolding errors_negative_def
  by (fastforce simp: resolve_path_checked_def Let_def split: if_splits option.splits)

section \<open>Reading back\<close>

lemma do_write_result:
  assumes ok: "fs_ok hash fs fdm" and run: "do_write now fd buf fs fdm = (Inr n, fs')" and n: "0 < n"
  obtains d node where "map_of (open_files fs) fd = Some d" "map_of (filesystem fs) (of_path d) = Some node"
    "is_allocated fd fdm" "n = int (length buf)" "buf \<noteq> []" "\<not> mapped_file fs (of_path d)"
    "0 \<le> write_offset fd fdm d node" "write_offset fd fdm d node + n \<le> OFF_MAX"
    "fs' = fs\<lparr>open_files := om_put fd (d\<lparr>of_offset := write_offset fd fdm d node + n\<rparr>) (open_files fs),
       filesystem := om_put (of_path d)
         (node\<lparr>vn_content := content_write (nat (write_offset fd fdm d node)) buf (vn_content node),
           vn_size := int (length (content_write (nat (write_offset fd fdm d node)) buf (vn_content node))),
           vn_mtim := now\<rparr>) (filesystem fs)\<rparr>"
proof -
  obtain d node where d: "map_of (open_files fs) fd = Some d" "map_of (filesystem fs) (of_path d) = Some node"
    "is_allocated fd fdm" "n = int (length buf)" "buf \<noteq> []" "require_unmapped_file fs (of_path d) = None"
    "\<not> OFF_MAX - write_offset fd fdm d node < int (length buf)"
    "fs' = fs\<lparr>open_files := om_put fd (d\<lparr>of_offset := write_offset fd fdm d node + n\<rparr>) (open_files fs),
       filesystem := om_put (of_path d)
         (node\<lparr>vn_content := content_write (nat (write_offset fd fdm d node)) buf (vn_content node),
           vn_size := int (length (content_write (nat (write_offset fd fdm d node)) buf (vn_content node))),
           vn_mtim := now\<rparr>) (filesystem fs)\<rparr>"
    using run n by (auto simp: do_write_def Let_def split: option.splits if_splits)
  have "0 \<le> of_offset d" using fs_okD(6) [OF ok] d(1) by (auto simp: opens_ok_def)
  then have "0 \<le> write_offset fd fdm d node" by (auto simp: write_offset_def)
  moreover have "\<not> mapped_file fs (of_path d)" using d(6) by (auto simp: require_unmapped_file_def split: if_splits)
  ultimately show thesis using d that by simp
qed

lemma do_read_at:
  assumes "map_of (open_files fs) fd = Some d" "is_allocated fd fdm" "map_of (filesystem fs) (of_path d) = Some node"
    "\<not> S_ISDIR (vn_mode node)" "get_status_flags fd fdm AND O_ACCMODE \<noteq> O_WRONLY" "0 \<le> of_offset d" "of_offset d \<le> OFF_MAX"
    "take count (drop (nat (of_offset d)) (vn_content node)) = bytes" "bytes \<noteq> []"
  shows "fst (do_read fd count fs fdm) = Inr (int (length bytes), bytes)"
proof -
  have "uint (word_of_int (of_offset d) :: u64) = of_offset d"
    using assms(6,7) by (simp add: uint_word_of_int_eq take_bit_int_eq_self_iff)
  moreover have "nat (of_offset d) < length (vn_content node)"
    using assms(8,9) by (metis drop_all linorder_not_le take_Nil)
  ultimately show ?thesis using assms by (simp add: do_read_def Let_def)
qed

section \<open>Renaming\<close>

lemma rename_result:
  assumes ok: "fs_ok hash fs fdm"
    and c: "rename_checks hash olddirfd oldname newdirfd newname flags fs fdm = Inr (Inr (oldleaf, newleaf, source))"
    and run: "do_renameat2 hash now olddirfd oldname newdirfd newname flags fs fdm = (r, fs')"
  defines "p \<equiv> nl_path oldleaf" and "q \<equiv> nl_path newleaf"
  shows "r = Inr 0" "map_of (filesystem fs') p = None"
    "map_of (filesystem fs') q = Some (source\<lparr>vn_ino := renamed_inode hash p q source\<rparr>)"
    "x \<noteq> p \<Longrightarrow> x \<noteq> q \<Longrightarrow> rel_option (\<lambda>n n'. n\<lparr>vn_mtim := t\<rparr> = n'\<lparr>vn_mtim := t\<rparr>) (map_of (filesystem fs) x) (map_of (filesystem fs') x)"
proof -
  let ?moved = "source\<lparr>vn_ino := renamed_inode hash p q source\<rparr>"
  let ?files = "set_mtim (nl_parent newleaf) now (set_mtim (nl_parent oldleaf) now
     (om_put q ?moved (om_del q (om_del p (filesystem fs)))))"
  have fs': "fs' = fs\<lparr>filesystem := ?files\<rparr>" "r = Inr 0" using run c by (simp_all add: do_renameat2_def Let_def p_def q_def)
  note c = rename_checksD [OF c]
  have parents: "is_dir (filesystem fs) (nl_parent newleaf)" "is_dir (filesystem fs) (nl_parent oldleaf)"
    using leaf_parent c(1-4) by blast+
  then have "nl_parent newleaf \<noteq> q" "nl_parent oldleaf \<noteq> q" using c(9) by (auto simp: q_def)
  then show "map_of (filesystem fs') q = Some ?moved" by (simp add: fs' map_of_set_mtim)
  show "map_of (filesystem fs') p = None" using c(6) by (simp add: fs' map_of_set_mtim p_def q_def)
  show "r = Inr 0" by (rule fs'(2))
  show "rel_option (\<lambda>n n'. n\<lparr>vn_mtim := t\<rparr> = n'\<lparr>vn_mtim := t\<rparr>) (map_of (filesystem fs) x) (map_of (filesystem fs') x)"
    if "x \<noteq> p" "x \<noteq> q"
    using that by (cases "map_of (filesystem fs) x") (simp_all add: fs' map_of_set_mtim)
qed

section \<open>Mapped files\<close>

lemma step_keeps_mapped:
  assumes step: "vfs_step hash (fs, fdm) (fs', fdm')" and ok: "fs_ok hash fs fdm" and mapped: "mapped_file fs p"
  shows "content_at fs' p = content_at fs p"
  using step
proof cases
  case (openat now dirfd path flags mode r)
  show ?thesis
  proof (cases "fs' = fs")
    case False
    then obtain checked where "open_resolved now checked flags mode fs fdm = (r, fs', fdm')"
      using openat unfolding do_openat_def by (auto split: if_splits sum.splits)
    with fs_okD(3) [OF ok] show ?thesis
    proof (cases rule: open_resolved_cases)
      case (opened fd status descriptor)
      have "om_mem p (filesystem fs)"
        using mapped fs_okD(10) [OF ok]
        by (auto simp: mapped_file_def list_ex_iff sources_valid_def is_reg_def om_mem_def split: option.splits)
      then show ?thesis using opened(9) mapped unfolding opened(4) content_open_commit by auto
    qed simp
  qed simp
next
  case (write_bytes now fd buf r)
  then show ?thesis using mapped
    by (auto simp: do_write_def Let_def require_unmapped_file_def split: option.splits if_splits)
next
  case (ftruncate now fd len r)
  then show ?thesis using mapped
    by (auto simp: do_ftruncate_def Let_def require_unmapped_file_def split: option.splits if_splits)
next
  case (unlinkat now dirfd input flags r)
  then show ?thesis using mapped
    by (auto simp: do_unlinkat_def content_set_mtim split: sum.splits elim!: unlink_checksD dest: namespace_mutableD(1))
next
  case (renameat2 now olddirfd oldname newdirfd newname flags r)
  show ?thesis
  proof (cases "rename_checks hash olddirfd oldname newdirfd newname flags fs fdm" rule: sum_pairE)
    case (result l)
    obtain oldleaf newleaf source where l: "l = (oldleaf, newleaf, source)" by (cases l)
    note c = rename_checksD [OF result [unfolded l]]
    have "p \<noteq> nl_path oldleaf" "p \<noteq> nl_path newleaf"
      using mapped namespace_mutableD(1) [OF c(10)] namespace_mutableD(1) [OF c(11)] by auto
    then show ?thesis using renameat2 result l
      by (auto simp: do_renameat2_def Let_def content_set_mtim)
  qed (use renameat2 in \<open>auto simp: do_renameat2_def\<close>)
next
  case (map_file start stop path u)
  then show ?thesis
    by (auto simp: add_virtual_file_mapping_def remove_virtual_file_mapping_def Let_def
        split: if_splits option.splits sum.splits prod.splits)
next
  case (unmap_file start stop u)
  then show ?thesis by (auto simp: remove_virtual_file_mapping_def Let_def split: if_splits prod.splits)
qed (auto simp: do_read_def do_lseek_def do_close_def do_chdir_def set_creation_mask_def Let_def
    split: option.splits if_splits sum.splits)

end
