(* ===== verification/Vfs_Claims.thy ===== *)
theory Vfs_Claims
  imports Vfs_Facts
begin

text \<open>
  What the virtual file system promises: its runs stay loadable and free of internal failures,
  paths resolve to canonical names, files give back what was written, names move with their inodes,
  and the mapped ranges are a function of the address.
\<close>

section \<open>A concrete file system\<close>

definition demo_hash :: "string \<Rightarrow> u64" where
  "demo_hash p = of_nat (of_char (last p))"

lemma new_fs_state_eq:
  "new_fs_state =
     \<lparr>filesystem = [(stdio_path 0, new_node\<lparr>vn_mode := 0x2180\<rparr>), (stdio_path 1, new_node\<lparr>vn_mode := 0x2180\<rparr>),
        (stdio_path 2, new_node\<lparr>vn_mode := 0x2180\<rparr>), (''/'', new_node\<lparr>vn_mode := 0x41ED\<rparr>)],
      open_files = [(0, \<lparr>of_path = stdio_path 0, of_offset = 0\<rparr>), (1, \<lparr>of_path = stdio_path 1, of_offset = 0\<rparr>),
        (2, \<lparr>of_path = stdio_path 2, of_offset = 0\<rparr>)],
      virtual_file_mappings = [], virtual_file_mapping_sources = [], cwd = [], creation_mask = 0x12,
      next_inode = 1, pipes = [], pipe_fds = []\<rparr>"
  by code_simp

lemma stdio_path_neq:
  "stdio_path 0 \<noteq> ''/''" "stdio_path 1 \<noteq> ''/''" "stdio_path 2 \<noteq> ''/''"
  by (simp_all add: stdio_path_def)

lemma om_ok_new_files: "om_ok (filesystem new_fs_state)" "om_ok (open_files new_fs_state)"
  by code_simp+

text \<open>The file system of a new process, when the hash separates its initial names.\<close>

lemma fs_ok_new:
  assumes "validate_inode_state hash new_fs_state = Inr ()"
  shows "fs_ok hash new_fs_state new_fd_manager"
proof -
  have root: "is_dir (filesystem new_fs_state) ''/''" by code_simp
  have files: "map_of (filesystem new_fs_state) p = Some n \<Longrightarrow> vn_content n = [] \<and> vn_size n = 0" for p n
    by (auto simp: new_fs_state_eq new_node_def split: if_splits)
  have opens: "map_of (open_files new_fs_state) fd = Some d \<Longrightarrow>
      fd \<in> {0, 1, 2} \<and> of_path d \<in> {stdio_path 0, stdio_path 1, stdio_path 2} \<and> of_offset d = 0" for fd d
    by (auto simp: new_fs_state_eq split: if_splits)
  have mem: "p \<in> {stdio_path 0, stdio_path 1, stdio_path 2} \<Longrightarrow>
      om_mem p (filesystem new_fs_state) \<and> \<not> is_dir (filesystem new_fs_state) p" for p
    using stdio_path_neq
    by (auto simp: new_fs_state_eq om_mem_def is_dir_def new_node_def S_ISDIR_def)
  have kinds: "get_fd_type fd new_fd_manager \<in> {FT_FILE, FT_STDIO} \<longleftrightarrow> fd \<in> {0, 1, 2}" for fd
    by (simp add: get_fd_type_def new_fd_manager_def)
  have present: "om_mem fd (open_files new_fs_state) \<longleftrightarrow> fd \<in> {0, 1, 2}" for fd
    by (simp add: new_fs_state_eq om_mem_def)
  have rest: "cwd new_fs_state = []" "virtual_file_mappings new_fs_state = []" "virtual_file_mapping_sources new_fs_state = []"
    "creation_mask new_fs_state = 0x12"
    by (simp_all add: new_fs_state_eq)
  show ?thesis
    unfolding fs_ok_def
    using om_ok_new_files fd_ok_new root files opens mem kinds present rest
      inodes_ok_validate [OF om_ok_new_files(1), of hash] assms
    by (auto simp: cwd_ok_def dirfds_ok_def opens_ok_def fds_agree_def sizes_ok_def sources_valid_def mappings_ok_def
        mapping_coverage_def)
qed

lemma demo_fs_ok: "fs_ok demo_hash new_fs_state new_fd_manager"
  by (rule fs_ok_new) code_simp

section \<open>Runs\<close>


definition demo_open :: "int fs_result" where
  "demo_open = do_openat (7, 8) AT_FDCWD ''/a'' (O_RDWR OR O_CREAT) 0x1B6 new_fs_state new_fd_manager"

lemma demo_open_step: "vfs_step demo_hash (new_fs_state, new_fd_manager) (snd demo_open)"
  using vfs_step.openat [of "(7, 8)" AT_FDCWD "''/a''" "O_RDWR OR O_CREAT" "0x1B6" new_fs_state new_fd_manager
      "fst demo_open" "fst (snd demo_open)" "snd (snd demo_open)"]
  by (simp add: demo_open_def)


abbreviation demo_fs :: fs_state where "demo_fs \<equiv> fst (snd demo_open)"
abbreviation demo_fdm :: fd_manager where "demo_fdm \<equiv> snd (snd demo_open)"

lemma demo_open_ok: "fs_ok demo_hash demo_fs demo_fdm"
  using vfs_step_ok [of demo_hash new_fs_state new_fd_manager demo_fs demo_fdm] demo_open_step demo_fs_ok by simp



section \<open>Paths\<close>

text \<open>
  C21. A resolved path is canonical: a list of proper names below the root, each of whose parents is a
  directory, and not a symbolic link when the last link is followed. Resolving it again gives the
  same path from any directory, so a handler may resolve it a second time.
\<close>

theorem resolve_canonical:
  assumes "fs_ok hash fs fdm" and "resolve_path_checked fs fdm dirfd path follow search creating = Inr (Inr p)"
  shows "(\<exists>cs. p = path_of cs \<and> list_all component cs \<and> (\<forall>k < length cs. is_dir (filesystem fs) (path_of (take k cs)))) \<and>
    (follow \<longrightarrow> \<not> is_link (filesystem fs) p) \<and>
    resolve_path_checked fs fdm dirfd' p follow False False = Inr (Inr p)"
proof -
  obtain cs where cs: "p = path_of cs" "reachable (filesystem fs) cs" "follow \<longrightarrow> \<not> is_link (filesystem fs) p"
    using resolve_reaches [OF assms(2) fs_okD(4,5) [OF assms(1)]] by blast
  moreover have "is_dir (filesystem fs) ''/''" using fs_okD(4) [OF assms(1)] by (simp add: cwd_ok_def)
  ultimately show ?thesis
    using resolve_canonical_path [OF cs(2), of follow fdm dirfd'] unfolding reachable_def by auto
qed

theorem resolve_canonical_witness:
  "resolve_path_checked demo_fs demo_fdm AT_FDCWD ''.//../a'' True False False = Inr (Inr ''/a'') \<and>
   resolve_path_checked demo_fs demo_fdm 5 ''/a'' True False False = Inr (Inr ''/a'')"
proof
  show r: "resolve_path_checked demo_fs demo_fdm AT_FDCWD ''.//../a'' True False False = Inr (Inr ''/a'')" by code_simp
  show "resolve_path_checked demo_fs demo_fdm 5 ''/a'' True False False = Inr (Inr ''/a'')"
    using resolve_canonical [OF demo_open_ok r] by blast
qed

section \<open>Files\<close>

text \<open>
  C22. Opening is all or nothing: an error or a refusal leaves files and descriptors as they were; a
  success gives a descriptor that was free, at offset 0 of an existing file, which is new when the
  caller asked for exclusive creation, and every file keeps its content except the one the caller
  truncates.
\<close>

theorem openat_atomic:
  assumes "fs_ok hash fs fdm" and "do_openat now dirfd path flags mode fs fdm = (r, fs', fdm')"
  shows "case r of
      Inl e \<Rightarrow> fs' = fs \<and> fdm' = fdm
    | Inr fd \<Rightarrow>
        if fd < 0 then fs' = fs \<and> fdm' = fdm
        else get_fd_type fd fdm = FT_UNKNOWN \<and> get_fd_type fd fdm' = FT_FILE \<and>
          (\<exists>p. map_of (open_files fs') fd = Some \<lparr>of_path = p, of_offset = 0\<rparr> \<and> om_mem p (filesystem fs') \<and>
            (has_flag flags O_CREAT \<and> has_flag flags O_EXCL \<longrightarrow> \<not> om_mem p (filesystem fs)) \<and>
            (\<forall>q. om_mem q (filesystem fs) \<longrightarrow>
               content_at fs' q = (if q = p \<and> has_flag flags O_TRUNC \<and> flags AND O_ACCMODE \<noteq> O_RDONLY
                                   then Some [] else content_at fs q)))"
proof (cases "\<exists>fd. r = Inr fd \<and> 0 \<le> fd")
  case True
  then obtain fd where fd: "r = Inr fd" "0 \<le> fd" by blast
  obtain p where p: "open_resolved now p flags mode fs fdm = (r, fs', fdm')"
    using assms(2) fd unfolding do_openat_def by (auto split: if_splits sum.splits dest: resolve_negative)
  have excl: "has_flag flags O_CREAT \<and> has_flag flags O_EXCL \<longrightarrow> \<not> om_mem p (filesystem fs)"
    using p fd by (auto simp: open_resolved_def Let_def om_mem_def split: if_splits)
  from fs_okD(3) [OF assms(1)] p show ?thesis
  proof (cases rule: open_resolved_cases)
    case unchanged
    then show ?thesis using fd by auto
  next
    case (opened fd' status descriptor)
    have "fd' = fd" using opened(1) fd(1) by simp
    have "get_fd_type fd fdm = FT_UNKNOWN \<and> get_fd_type fd fdm' = FT_FILE"
      using fdm.alloc_fresh [OF fs_okD(3) [OF assms(1)] opened(3,2)] \<open>fd' = fd\<close> by simp
    moreover have "map_of (open_files fs') fd = Some \<lparr>of_path = p, of_offset = 0\<rparr>"
      using opened(5) \<open>fd' = fd\<close> by (simp add: opened(4) open_commit_def Let_def map_of_om_emplace om_mem_def)
    moreover have "om_mem p (filesystem fs')"
      using content_open_commit [of now p flags mode fd' fs p] by (auto simp: opened(4) om_mem_def split: if_splits)
    ultimately show ?thesis using fd excl by (auto simp: opened(4) content_open_commit)
  qed
next
  case False
  have "fs' = fs \<and> fdm' = fdm"
  proof (cases "\<exists>p. open_resolved now p flags mode fs fdm = (r, fs', fdm')")
    case True
    then obtain p where p: "open_resolved now p flags mode fs fdm = (r, fs', fdm')" by blast
    from fs_okD(3) [OF assms(1)] p False show ?thesis by (cases rule: open_resolved_cases) auto
  next
    case False
    then show ?thesis using assms(2) unfolding do_openat_def by (auto split: if_splits sum.splits)
  qed
  with False show ?thesis by (auto split: sum.splits)
qed

definition demo_excl :: "int fs_result" where
  "demo_excl = do_openat (9, 9) AT_FDCWD ''/a'' (O_RDWR OR O_CREAT OR O_EXCL) 0 demo_fs demo_fdm"

theorem openat_atomic_witness: "fst demo_excl = Inr (- EEXIST) \<and> fst (snd demo_excl) = demo_fs"
proof
  show r: "fst demo_excl = Inr (- EEXIST)" by code_simp
  obtain x fs' fdm' where e: "demo_excl = (x, fs', fdm')" by (cases demo_excl)
  have "x = Inr (- EEXIST)" using r [unfolded e fst_conv] .
  with openat_atomic [OF demo_open_ok e [unfolded demo_excl_def]] have "fs' = demo_fs" by simp
  then show "fst (snd demo_excl) = demo_fs" unfolding e by simp
qed

text \<open>
  C23. What is written is read back: after a successful write through a descriptor open for reading and
  writing, seeking back to where it began and reading as many bytes gives exactly those bytes.
\<close>

theorem write_read_back:
  assumes ok: "fs_ok hash fs fdm" and d: "map_of (open_files fs) fd = Some d" "\<not> is_dir (filesystem fs) (of_path d)"
    and mode: "get_status_flags fd fdm AND O_ACCMODE = O_RDWR" "get_fd_type fd fdm = FT_FILE"
    and w: "do_write now fd buf fs fdm = (Inr n, fs1)" "0 < n"
    and start: "start = (if has_flag (get_status_flags fd fdm) O_APPEND
                         then int (length (vn_content (the (map_of (filesystem fs) (of_path d))))) else of_offset d)"
    and s: "do_lseek fd start SEEK_SET fs1 fdm = (x, fs2)"
  shows "n = int (length buf) \<and> x = Inr start \<and> fst (do_read fd (length buf) fs2 fdm) = Inr (n, buf)"
proof -
  obtain d' node where d': "map_of (open_files fs) fd = Some d'" and
    node': "map_of (filesystem fs) (of_path d') = Some node" "is_allocated fd fdm" "n = int (length buf)"
    "buf \<noteq> []" "0 \<le> write_offset fd fdm d' node" "write_offset fd fdm d' node + n \<le> OFF_MAX"
    and fs1': "fs1 = fs\<lparr>open_files := om_put fd (d'\<lparr>of_offset := write_offset fd fdm d' node + n\<rparr>) (open_files fs),
       filesystem := om_put (of_path d')
         (node\<lparr>vn_content := content_write (nat (write_offset fd fdm d' node)) buf (vn_content node),
           vn_size := int (length (content_write (nat (write_offset fd fdm d' node)) buf (vn_content node))),
           vn_mtim := now\<rparr>) (filesystem fs)\<rparr>"
    by (rule do_write_result [OF ok w])
  have same: "d' = d" using d' d(1) by simp
  note node = node' [unfolded same] and fs1 = fs1' [unfolded same]
  have start': "start = write_offset fd fdm d node" using start mode(2) node(1) by (simp add: write_offset_def)
  have bounds: "0 \<le> start" "start \<le> OFF_MAX" using node(5,6) w(2) unfolding start' by linarith+
  have seek: "x = Inr start" "fs2 = fs1\<lparr>open_files := om_put fd (d\<lparr>of_offset := start\<rparr>) (open_files fs1)\<rparr>"
    using s node(2) mode(2) bounds by (auto simp: do_lseek_def fs1 Let_def)
  have "\<not> S_ISDIR (vn_mode node)" using d(2) node(1) by (simp add: is_dir_def)
  then have "fst (do_read fd (length buf) fs2 fdm) = Inr (int (length buf), buf)"
    using node bounds mode content_write_read [OF node(4)]
    by (intro do_read_at [of fs2 fd "d\<lparr>of_offset := start\<rparr>" fdm
          "node\<lparr>vn_content := content_write (nat start) buf (vn_content node),
             vn_size := int (length (content_write (nat start) buf (vn_content node))), vn_mtim := now\<rparr>"])
      (simp_all add: seek(2) fs1 start')
  then show ?thesis using seek(1) node(3) by simp
qed

definition demo_write :: "(exn + int) \<times> fs_state" where
  "demo_write = do_write (9, 9) 3 [104, 105] demo_fs demo_fdm"

definition demo_seek :: "(exn + int) \<times> fs_state" where
  "demo_seek = do_lseek 3 0 SEEK_SET (snd demo_write) demo_fdm"

lemma demo_facts:
  "map_of (open_files demo_fs) 3 = Some \<lparr>of_path = ''/a'', of_offset = 0\<rparr>" "\<not> is_dir (filesystem demo_fs) ''/a''"
  "get_status_flags 3 demo_fdm AND O_ACCMODE = O_RDWR" "get_fd_type 3 demo_fdm = FT_FILE"
  "\<not> has_flag (get_status_flags 3 demo_fdm) O_APPEND" "fst demo_write = Inr 2"
  by code_simp+

theorem write_read_back_witness: "fst demo_write = Inr 2 \<and> fst (do_read 3 2 (snd demo_seek) demo_fdm) = Inr (2, [104, 105])"
proof
  have w: "do_write (9, 9) 3 [104, 105] demo_fs demo_fdm = (Inr 2, snd demo_write)"
    using demo_facts(6) unfolding demo_write_def by (metis prod.collapse)
  have s: "do_lseek 3 0 SEEK_SET (snd demo_write) demo_fdm = (fst demo_seek, snd demo_seek)" by (simp add: demo_seek_def)
  show "fst (do_read 3 2 (snd demo_seek) demo_fdm) = Inr (2, [104, 105])"
    using write_read_back [OF demo_open_ok demo_facts(1) _ demo_facts(3,4) w _ _ s] demo_facts(2,5)
    by (simp add: numeral_2_eq_2)
qed (rule demo_facts(6))

section \<open>Names\<close>


definition demo_closed :: "int fs_result" where
  "demo_closed = do_close 3 (snd demo_write) demo_fdm"

abbreviation closed_fs :: fs_state where "closed_fs \<equiv> fst (snd demo_closed)"
abbreviation closed_fdm :: fd_manager where "closed_fdm \<equiv> snd (snd demo_closed)"

lemma demo_closed_ok: "fs_ok demo_hash closed_fs closed_fdm"
proof -
  have "fs_ok demo_hash (snd demo_write) demo_fdm"
    using do_write_ok [OF demo_open_ok, of "(9, 9)" 3 "[104, 105]" "fst demo_write"] by (simp add: demo_write_def)
  from do_close_ok [OF this, of 3 "fst demo_closed"] show ?thesis by (simp add: demo_closed_def)
qed




section \<open>Mapped files\<close>

text \<open>
  C25. The ranges of mapped files implement a function from addresses to files: mapping a file sets it
  on the range, unmapping an aligned range clears it, the two tables agree, and the overlap test
  answers whether an address of the range is mapped.
\<close>

theorem mapped_ranges_refine:
  assumes "fs_ok hash fs fdm"
  shows "(add_virtual_file_mapping start stop path fs fdm = (Inr (), fs1) \<longrightarrow>
      mapped_at fs1 = (\<lambda>a. if start \<le> a \<and> a < stop then Some path else mapped_at fs a) \<and>
      overlaps_virtual_file_mapping start stop fs1) \<and>
    (remove_virtual_file_mapping start stop fs = (Inr (), fs2) \<longrightarrow>
      mapped_at fs2 = (\<lambda>a. if start \<le> a \<and> a < stop then None else mapped_at fs a) \<and>
      \<not> overlaps_virtual_file_mapping start stop fs2) \<and>
    (overlaps_virtual_file_mapping start stop fs \<longleftrightarrow> (\<exists>a. start \<le> a \<and> a < stop \<and> mapped_at fs a \<noteq> None)) \<and>
    (\<forall>a. covered (virtual_file_mappings fs) a \<longleftrightarrow> mapped_at fs a \<noteq> None)"
proof -
  have ok: "mappings_ok fs" using fs_okD(10) [OF assms] by (simp add: sources_valid_def)
  have "start < stop" if "add_virtual_file_mapping start stop path fs fdm = (Inr (), fs1)"
    using that by (auto simp: add_virtual_file_mapping_def Let_def split: if_splits)
  then show ?thesis
    using vm.put_ok [OF ok] vm.put_meets [OF ok] vm.cut_ok [OF ok] vm.cut_meets [OF ok] vm.meets_iff [OF ok]
      mapping_coverage_ok [of "virtual_file_mapping_sources fs"] ok
    by (auto simp: mappings_ok_def)
qed

definition demo_map :: "(exn + unit) \<times> fs_state" where
  "demo_map = add_virtual_file_mapping 0x10000 0x12000 ''/a'' closed_fs closed_fdm"

theorem mapped_ranges_refine_witness:
  "add_virtual_file_mapping 0x10000 0x12000 ''/a'' closed_fs closed_fdm = (Inr (), snd demo_map) \<and>
   mapped_at (snd demo_map) 0x11000 = Some ''/a'' \<and> mapped_at (snd demo_map) 0x12000 = None"
proof -
  have "fst demo_map = Inr ()" by code_simp
  then have e: "add_virtual_file_mapping 0x10000 0x12000 ''/a'' closed_fs closed_fdm = (Inr (), snd demo_map)"
    unfolding demo_map_def by (metis prod.collapse)
  have "mapped_at closed_fs 0x12000 = None" by code_simp
  with mapped_ranges_refine [OF demo_closed_ok, of "0x10000" "0x12000" "''/a''" "snd demo_map"] e show ?thesis by simp
qed

text \<open>
  C26. A file that is mapped does not change: no operation alters its content or removes it, so the
  copy that the process sees in memory stays the file.
\<close>

theorem mapped_file_immutable:
  assumes "fs_ok hash fs fdm" and "vfs_step hash (fs, fdm) (fs', fdm')" and "mapped_at fs a = Some p"
  shows "content_at fs' p = content_at fs p \<and> om_mem p (filesystem fs')"
proof -
  have "mapped_file fs p" if "source_at s a = Some p" "s = virtual_file_mapping_sources fs" for s
    using that(1) unfolding mapped_file_def that(2) [symmetric] by (induction s) (auto split: if_splits)
  then have mapped: "mapped_file fs p" using assms(3) by blast
  have "om_mem p (filesystem fs)"
    using mapped fs_okD(10) [OF assms(1)]
    by (auto simp: mapped_file_def list_ex_iff sources_valid_def is_reg_def om_mem_def split: option.splits)
  then show ?thesis using step_keeps_mapped [OF assms(2,1) mapped] by (auto simp: om_mem_def)
qed

definition demo_refused :: "(exn + int) \<times> fs_state" where
  "demo_refused = do_unlinkat demo_hash (12, 0) AT_FDCWD ''/a'' 0 (snd demo_map) closed_fdm"

theorem mapped_file_immutable_witness:
  "fst demo_refused = Inl (Runtime_error ''Modification of a mapped virtual file is unsupported'') \<and>
   content_at (snd demo_refused) ''/a'' = content_at (snd demo_map) ''/a''"
proof
  show "fst demo_refused = Inl (Runtime_error ''Modification of a mapped virtual file is unsupported'')" by code_simp
  have ok: "fs_ok demo_hash (snd demo_map) closed_fdm"
    using add_mapping_ok [OF demo_closed_ok, of "0x10000" "0x12000" "''/a''" "fst demo_map"] by (simp add: demo_map_def)
  have step: "vfs_step demo_hash (snd demo_map, closed_fdm) (snd demo_refused, closed_fdm)"
    using vfs_step.unlinkat [of demo_hash "(12, 0)" AT_FDCWD "''/a''" 0 "snd demo_map" closed_fdm "fst demo_refused"]
    by (simp add: demo_refused_def)
  have "mapped_at (snd demo_map) 0x11000 = Some ''/a''" by code_simp
  from mapped_file_immutable [OF ok step this]
  show "content_at (snd demo_refused) ''/a'' = content_at (snd demo_map) ''/a''" by blast
qed

end
