(* ===== verification/Vfs_Pipe.thy ===== *)
theory Vfs_Pipe
  imports Vfs_Ops
begin

text \<open>
  The pipes of \<open>FileSystemState\<close> (\<open>src/src/subsys/fs/fsstate.cpp\<close>): creation, reading, writing and
  closing, and what they promise: a pipe is a bounded FIFO of bytes.
\<close>

section \<open>Operations\<close>

abbreviation (input) pipe_capacity :: int where "pipe_capacity \<equiv> 65536"
abbreviation (input) pipe_atomic_limit :: int where "pipe_atomic_limit \<equiv> 4096"

function next_pipe_id :: "int \<Rightarrow> (int, pipe) omap \<Rightarrow> int" where
  "next_pipe_id pipe_id ps = (if om_mem pipe_id ps then next_pipe_id (pipe_id + 1) ps else pipe_id)"
  by pat_completeness auto
termination
proof (relation "measure (\<lambda>(i, ps). card {k \<in> fst ` set ps. i \<le> k})")
  fix i :: int and ps :: "(int, pipe) omap"
  assume "om_mem i ps"
  then have "i \<in> {k \<in> fst ` set ps. i \<le> k}" "i \<notin> {k \<in> fst ` set ps. i + 1 \<le> k}"
    by (auto simp: om_mem_iff)
  moreover have "{k \<in> fst ` set ps. i + 1 \<le> k} \<subseteq> {k \<in> fst ` set ps. i \<le> k}" by auto
  ultimately have "{k \<in> fst ` set ps. i + 1 \<le> k} \<subset> {k \<in> fst ` set ps. i \<le> k}" by blast
  then show "((i + 1, ps), i, ps) \<in> measure (\<lambda>(i, ps). card {k \<in> fst ` set ps. i \<le> k})"
    by (simp add: psubset_card_mono)
qed simp

declare next_pipe_id.simps [simp del]

definition new_pipe :: pipe where
  "new_pipe = \<lparr>pi_buffer = [], pi_read_closed = False, pi_write_closed = False\<rparr>"

text \<open>\<open>do_pipe\<close> returns 0 and the descriptors of the read and the write end.\<close>

definition do_pipe :: "int \<Rightarrow> fs_state \<Rightarrow> fd_manager \<Rightarrow> (int \<times> (int \<times> int)) fs_result" where
  "do_pipe flags fs fdm =
     (if has_flag flags (NOT (O_NONBLOCK OR O_CLOEXEC)) then (Inr (- EINVAL, 0, 0), fs, fdm)
      else
        (let pipe_id = next_pipe_id 1 (pipes fs);
             fs1 = fs\<lparr>pipes := om_put pipe_id new_pipe (pipes fs)\<rparr>;
             descriptor = (if has_flag flags O_CLOEXEC then FD_CLOEXEC else 0)
         in case allocate_fd FT_PIPE (O_RDONLY OR (flags AND O_NONBLOCK)) descriptor fdm of
              (Inl e, fdm) \<Rightarrow> (Inl e, fs1, fdm)
            | (Inr read_fd, fdm) \<Rightarrow>
                (case allocate_fd FT_PIPE (O_WRONLY OR (flags AND O_NONBLOCK)) descriptor fdm of
                   (Inl e, fdm) \<Rightarrow> (Inl e, fs1, fdm)
                 | (Inr write_fd, fdm) \<Rightarrow>
                     if read_fd < 0 \<or> write_fd < 0
                     then
                       (let fdm1 = (if read_fd \<ge> 0 then release_fd read_fd fdm else fdm);
                            fdm2 = (if write_fd \<ge> 0 then release_fd write_fd fdm1 else fdm1)
                        in (Inr (- EMFILE, 0, 0), fs1\<lparr>pipes := om_del pipe_id (pipes fs1)\<rparr>, fdm2))
                     else
                       (Inr (0, read_fd, write_fd),
                        fs1\<lparr>pipe_fds := om_put write_fd (- pipe_id) (om_put read_fd pipe_id (pipe_fds fs1))\<rparr>,
                        fdm))))"

definition is_pipe :: "int \<Rightarrow> fs_state \<Rightarrow> bool" where
  "is_pipe fd fs \<longleftrightarrow> om_mem fd (pipe_fds fs)"

definition do_pipe_read ::
  "'m guest \<Rightarrow> int \<Rightarrow> int \<Rightarrow> u64 \<Rightarrow> nat \<Rightarrow> fs_state \<Rightarrow> fd_manager \<Rightarrow> 'm \<Rightarrow> int \<times> fs_state \<times> 'm" where
  "do_pipe_read G pid fd buf count fs fdm m =
     (case map_of (pipe_fds fs) fd of
        None \<Rightarrow> (- EBADF, fs, m)
      | Some pipe_id \<Rightarrow>
          if get_fd_type fd fdm \<noteq> FT_PIPE then (- EBADF, fs, m)
          else if pipe_id < 0 then (- EBADF, fs, m)
          else (case map_of (pipes fs) pipe_id of
            None \<Rightarrow> (- EBADF, fs, m)
          | Some p \<Rightarrow>
              if count = 0 then (0, fs, m)
              else if pi_buffer p = [] then (if pi_write_closed p then 0 else - EAGAIN, fs, m)
              else
                (let data = take count (pi_buffer p)
                 in case guest_write_exact G pid buf data m of
                      (False, m) \<Rightarrow> (- EFAULT, fs, m)
                    | (True, m) \<Rightarrow>
                        (int (length data),
                         fs\<lparr>pipes := om_put pipe_id (p\<lparr>pi_buffer := drop (length data) (pi_buffer p)\<rparr>) (pipes fs)\<rparr>,
                         m))))"

definition do_pipe_write ::
  "'m guest \<Rightarrow> int \<Rightarrow> int \<Rightarrow> u64 \<Rightarrow> nat \<Rightarrow> fs_state \<Rightarrow> fd_manager \<Rightarrow> 'm \<Rightarrow> (exn + int) \<times> fs_state" where
  "do_pipe_write G pid fd buf count fs fdm m =
     (case map_of (pipe_fds fs) fd of
        None \<Rightarrow> (Inr (- EBADF), fs)
      | Some end_id \<Rightarrow>
          if get_fd_type fd fdm \<noteq> FT_PIPE then (Inr (- EBADF), fs)
          else if end_id > 0 then (Inr (- EBADF), fs)
          else (case map_of (pipes fs) (- end_id) of
            None \<Rightarrow> (Inr (- EBADF), fs)
          | Some p \<Rightarrow>
              if count = 0 then (Inr 0, fs)
              else if pi_read_closed p then (Inr (- EPIPE), fs)
              else if SSIZE_MAX < int count then (Inr (- EINVAL), fs)
              else
                (let available = (pipe_capacity - int (length (pi_buffer p))) mod 2 ^ 64
                 in if pipe_atomic_limit < int count \<and> available < int count \<and>
                       \<not> has_flag (get_status_flags fd fdm) O_NONBLOCK
                    then (Inl (Runtime_error ''Blocking pipe writes requiring partial progress are unsupported''), fs)
                    else if available = 0 \<or> int count \<le> pipe_atomic_limit \<and> available < int count
                    then (Inr (- EAGAIN), fs)
                    else
                      (let taken = (if int count \<le> available then count else nat available)
                       in case guest_read_exact G pid buf taken m of
                            None \<Rightarrow> (Inr (- EFAULT), fs)
                          | Some data \<Rightarrow>
                              (Inr (int taken),
                               fs\<lparr>pipes := om_put (- end_id) (p\<lparr>pi_buffer := pi_buffer p @ data\<rparr>) (pipes fs)\<rparr>)))))"

definition do_pipe_close :: "int \<Rightarrow> fs_state \<Rightarrow> fd_manager \<Rightarrow> int \<times> fs_state \<times> fd_manager" where
  "do_pipe_close fd fs fdm =
     (case map_of (pipe_fds fs) fd of
        None \<Rightarrow> (- EBADF, fs, fdm)
      | Some end_id \<Rightarrow>
          if get_fd_type fd fdm \<noteq> FT_PIPE then (- EBADF, fs, fdm)
          else
            (let is_read_end = (0 < end_id);
                 pipe_id = (if is_read_end then end_id else - end_id);
                 ps = (case map_of (pipes fs) pipe_id of
                         None \<Rightarrow> pipes fs
                       | Some p \<Rightarrow>
                           (let p' = (if is_read_end then p\<lparr>pi_read_closed := True\<rparr>
                                      else p\<lparr>pi_write_closed := True\<rparr>)
                            in if pi_read_closed p' \<and> pi_write_closed p' then om_del pipe_id (pipes fs)
                               else om_put pipe_id p' (pipes fs)))
             in (0, fs\<lparr>pipes := ps, pipe_fds := om_del fd (pipe_fds fs)\<rparr>, release_fd fd fdm)))"

end
