(* ===== verification/Pipe_Claims.thy ===== *)
theory Pipe_Claims
  imports Vfs_Pipe
begin

text \<open>
  What a pipe promises: it is a bounded FIFO of bytes, small writes are atomic, and closing both ends
  leaves nothing behind.
\<close>

section \<open>Transfers\<close>

definition pipes_bounded :: "fs_state \<Rightarrow> bool" where
  "pipes_bounded fs \<longleftrightarrow> (\<forall>id p. map_of (pipes fs) id = Some p \<longrightarrow> int (length (pi_buffer p)) \<le> pipe_capacity)"

lemma pipe_write_result:
  assumes bounded: "pipes_bounded fs" and "do_pipe_write G pid fd buf count fs fdm m = (r, fs')"
  shows "fs' = fs \<and> (\<forall>n. r = Inr n \<longrightarrow> n \<le> 0) \<or>
    (\<exists>id p data. map_of (pipe_fds fs) fd = Some (- id) \<and> map_of (pipes fs) id = Some p \<and>
      guest_read_exact G pid buf (length data) m = Some data \<and> r = Inr (int (length data)) \<and> data \<noteq> [] \<and>
      length data \<le> count \<and> (int count \<le> pipe_atomic_limit \<longrightarrow> length data = count) \<and>
      int (length (pi_buffer p)) + int (length data) \<le> pipe_capacity \<and>
      fs' = fs\<lparr>pipes := om_put id (p\<lparr>pi_buffer := pi_buffer p @ data\<rparr>) (pipes fs)\<rparr>)"
proof (cases "fs' = fs \<and> (\<forall>n. r = Inr n \<longrightarrow> n \<le> 0)")
  case False
  note assms = assms(2)
  obtain end_id where e: "map_of (pipe_fds fs) fd = Some end_id"
    using assms False by (auto simp: do_pipe_write_def split: option.splits)
  obtain p where p: "map_of (pipes fs) (- end_id) = Some p"
    using assms False e by (auto simp: do_pipe_write_def split: option.splits if_splits)
  let ?available = "pipe_capacity - int (length (pi_buffer p))"
  let ?taken = "if int count \<le> ?available then count else nat ?available"
  have room: "0 \<le> ?available" using bounded p by (auto simp: pipes_bounded_def)
  then have wrap: "?available mod 2 ^ 64 = ?available" by simp
  note run = assms [unfolded do_pipe_write_def Let_def, unfolded e p option.case wrap]
  have c: "count \<noteq> 0" "?available \<noteq> 0" "int count \<le> pipe_atomic_limit \<longrightarrow> int count \<le> ?available"
    using run False by (auto split: if_splits)
  obtain data where d: "guest_read_exact G pid buf ?taken m = Some data" "r = Inr (int ?taken)"
    "fs' = fs\<lparr>pipes := om_put (- end_id) (p\<lparr>pi_buffer := pi_buffer p @ data\<rparr>) (pipes fs)\<rparr>"
    using run False by (auto split: if_splits option.splits)
  have len: "length data = ?taken" by (rule guest_read_length [OF d(1)])
  have "data \<noteq> []" "length data \<le> count" "int (length (pi_buffer p)) + int (length data) \<le> pipe_capacity"
    "int count \<le> pipe_atomic_limit \<longrightarrow> length data = count"
    using len c room by (auto split: if_splits)
  then show ?thesis using e p d len by (intro disjI2 exI [of _ "- end_id"] exI [of _ p] exI [of _ data]) simp
qed simp

lemma pipe_read_result:
  assumes "do_pipe_read G pid fd buf count fs fdm m = (n, fs', m')"
  shows "fs' = fs \<and> n \<le> 0 \<or>
    (\<exists>id p. map_of (pipe_fds fs) fd = Some id \<and> map_of (pipes fs) id = Some p \<and> 0 < n \<and>
      n = int (min count (length (pi_buffer p))) \<and>
      guest_write_exact G pid buf (take (nat n) (pi_buffer p)) m = (True, m') \<and>
      fs' = fs\<lparr>pipes := om_put id (p\<lparr>pi_buffer := drop (nat n) (pi_buffer p)\<rparr>) (pipes fs)\<rparr>)"
proof (cases "fs' = fs \<and> n \<le> 0")
  case False
  obtain id where e: "map_of (pipe_fds fs) fd = Some id"
    using assms False by (auto simp: do_pipe_read_def split: option.splits)
  obtain p where p: "map_of (pipes fs) id = Some p"
    using assms False e by (auto simp: do_pipe_read_def split: option.splits if_splits)
  have "count \<noteq> 0" "pi_buffer p \<noteq> []" using assms False e p by (auto simp: do_pipe_read_def split: if_splits)
  moreover have "n = int (min count (length (pi_buffer p)))"
    "guest_write_exact G pid buf (take count (pi_buffer p)) m = (True, m')"
    "fs' = fs\<lparr>pipes := om_put id (p\<lparr>pi_buffer := drop (min count (length (pi_buffer p))) (pi_buffer p)\<rparr>) (pipes fs)\<rparr>"
    using assms False e p by (auto simp: do_pipe_read_def Let_def min.commute split: if_splits prod.splits bool.splits)
  moreover have "take (min count (length (pi_buffer p))) (pi_buffer p) = take count (pi_buffer p)" by (simp add: min_def)
  ultimately show ?thesis using e p by (intro disjI2 exI [of _ id] exI [of _ p]) simp
qed simp

section \<open>Runs\<close>

text \<open>
  A run of reads and writes by one process. For one pipe it records the bytes that the writes took
  from the memory of the process and those that the reads left there.
\<close>

datatype pipe_call = Pipe_write int u64 nat | Pipe_read int u64 nat

record 'm pipe_run =
  pr_fs :: fs_state
  pr_memory :: 'm
  pr_sent :: "byte list"
  pr_received :: "byte list"

definition transferred :: "'m guest \<Rightarrow> int \<Rightarrow> u64 \<Rightarrow> int \<Rightarrow> 'm \<Rightarrow> byte list" where
  "transferred G pid buf n m =
     (if n \<le> 0 then [] else (case guest_read_exact G pid buf (nat n) m of None \<Rightarrow> [] | Some bs \<Rightarrow> bs))"

definition pipe_exec :: "'m guest \<Rightarrow> int \<Rightarrow> int \<Rightarrow> fd_manager \<Rightarrow> pipe_call \<Rightarrow> 'm pipe_run \<Rightarrow> 'm pipe_run" where
  "pipe_exec G pid i fdm call s =
     (case call of
        Pipe_write fd buf count \<Rightarrow>
          (case do_pipe_write G pid fd buf count (pr_fs s) fdm (pr_memory s) of
             (r, fs) \<Rightarrow> s\<lparr>pr_fs := fs, pr_sent := pr_sent s @
               (case r of
                  Inr n \<Rightarrow> if map_of (pipe_fds (pr_fs s)) fd = Some (- i) then transferred G pid buf n (pr_memory s) else []
                | Inl e \<Rightarrow> [])\<rparr>)
      | Pipe_read fd buf count \<Rightarrow>
          (case do_pipe_read G pid fd buf count (pr_fs s) fdm (pr_memory s) of
             (n, fs, m) \<Rightarrow> s\<lparr>pr_fs := fs, pr_memory := m, pr_received := pr_received s @
               (if map_of (pipe_fds (pr_fs s)) fd = Some i then transferred G pid buf n m else [])\<rparr>))"

definition pipe_pending :: "int \<Rightarrow> 'm pipe_run \<Rightarrow> byte list" where
  "pipe_pending i s = (case map_of (pipes (pr_fs s)) i of None \<Rightarrow> [] | Some p \<Rightarrow> pi_buffer p)"

definition pipe_run_ok :: "'m guest \<Rightarrow> int \<Rightarrow> 'm pipe_run \<Rightarrow> bool" where
  "pipe_run_ok G i s \<longleftrightarrow> faithful_guest G \<and> pipes_bounded (pr_fs s) \<and> om_mem i (pipes (pr_fs s))"

lemma pipes_bounded_put:
  "pipes_bounded fs \<Longrightarrow> int (length (pi_buffer p)) \<le> pipe_capacity \<Longrightarrow> pipes_bounded (fs\<lparr>pipes := om_put i p (pipes fs)\<rparr>)"
  by (simp add: pipes_bounded_def)

lemma pipe_exec_moves:
  assumes "pipe_run_ok G i s"
  shows "pipe_run_ok G i (pipe_exec G pid i fdm call s) \<and>
    (\<exists>a b. pr_sent (pipe_exec G pid i fdm call s) = pr_sent s @ a \<and> pr_received (pipe_exec G pid i fdm call s) = pr_received s @ b \<and>
      pipe_pending i s @ a = b @ pipe_pending i (pipe_exec G pid i fdm call s))"
proof (cases call)
  case (Pipe_write fd buf count)
  obtain r fs' where run: "do_pipe_write G pid fd buf count (pr_fs s) fdm (pr_memory s) = (r, fs')" by fastforce
  have b: "pipes_bounded (pr_fs s)" using assms by (simp add: pipe_run_ok_def)
  from pipe_write_result [OF b run] show ?thesis
  proof (elim disjE conjE exE)
    assume "fs' = pr_fs s" "\<forall>n. r = Inr n \<longrightarrow> n \<le> 0"
    then show ?thesis using assms
      by (auto simp: pipe_exec_def Pipe_write run pipe_run_ok_def pipe_pending_def transferred_def split: sum.splits)
  next
    fix j p data
    assume a: "map_of (pipe_fds (pr_fs s)) fd = Some (- j)" "map_of (pipes (pr_fs s)) j = Some p"
      "guest_read_exact G pid buf (length data) (pr_memory s) = Some data" "r = Inr (int (length data))" "data \<noteq> []"
      "int (length (pi_buffer p)) + int (length data) \<le> pipe_capacity"
      "fs' = pr_fs s\<lparr>pipes := om_put j (p\<lparr>pi_buffer := pi_buffer p @ data\<rparr>) (pipes (pr_fs s))\<rparr>"
    have "transferred G pid buf (int (length data)) (pr_memory s) = data" using a(3,5) by (simp add: transferred_def)
    moreover have "pipes_bounded fs'" unfolding a(7) using b a(6) by (intro pipes_bounded_put) auto
    ultimately show ?thesis using assms a
      by (auto simp: pipe_exec_def Pipe_write run pipe_run_ok_def pipe_pending_def om_mem_put)
  qed
next
  case (Pipe_read fd buf count)
  obtain n fs' m' where run: "do_pipe_read G pid fd buf count (pr_fs s) fdm (pr_memory s) = (n, fs', m')" by (metis prod_cases3)
  have b: "pipes_bounded (pr_fs s)" "faithful_guest G" using assms by (simp_all add: pipe_run_ok_def)
  from pipe_read_result [OF run] show ?thesis
  proof (elim disjE conjE exE)
    assume "fs' = pr_fs s" "n \<le> 0"
    then show ?thesis using assms by (auto simp: pipe_exec_def Pipe_read run pipe_run_ok_def pipe_pending_def transferred_def)
  next
    fix j p
    assume a: "map_of (pipe_fds (pr_fs s)) fd = Some j" "map_of (pipes (pr_fs s)) j = Some p" "0 < n"
      "n = int (min count (length (pi_buffer p)))"
      "guest_write_exact G pid buf (take (nat n) (pi_buffer p)) (pr_memory s) = (True, m')"
      "fs' = pr_fs s\<lparr>pipes := om_put j (p\<lparr>pi_buffer := drop (nat n) (pi_buffer p)\<rparr>) (pipes (pr_fs s))\<rparr>"
    have "guest_read_exact G pid buf (length (take (nat n) (pi_buffer p))) m' = Some (take (nat n) (pi_buffer p))"
      using b(2) a(5) unfolding faithful_guest_def by blast
    moreover have "length (take (nat n) (pi_buffer p)) = nat n" using a(4) by simp
    ultimately have t: "transferred G pid buf n m' = take (nat n) (pi_buffer p)"
      using a(3) by (simp add: transferred_def)
    have "int (length (pi_buffer p)) \<le> pipe_capacity" using b(1) a(2) unfolding pipes_bounded_def by blast
    then have "pipes_bounded fs'" unfolding a(6) using b(1) by (intro pipes_bounded_put) auto
    then show ?thesis using assms a(1,2,6) t
      by (auto simp: pipe_exec_def Pipe_read run pipe_run_ok_def pipe_pending_def om_mem_put)
  qed
qed

interpretation pipe_channel: byte_channel "pipe_exec G pid i fdm" "pipe_run_ok G i" pr_sent pr_received "pipe_pending i"
  for G pid i fdm
  by unfold_locales (use pipe_exec_moves in blast)+

text \<open>
  C27. A pipe is a bounded FIFO. In every run of reads and writes, whatever the memory faults, the
  bytes that were in the pipe followed by those that the writes took from memory are the bytes that
  the reads delivered followed by those still in the pipe, which never exceed its capacity of 65536.
\<close>

theorem pipe_is_fifo:
  assumes "faithful_guest G" and "pipes_bounded (pr_fs s)" and "map_of (pipes (pr_fs s)) i = Some p"
    and "pr_sent s = []" and "pr_received s = []"
    and "s' = fold (pipe_exec G pid i fdm) calls s"
  shows "\<exists>p'. map_of (pipes (pr_fs s')) i = Some p' \<and> pi_buffer p @ pr_sent s' = pr_received s' @ pi_buffer p' \<and>
    int (length (pi_buffer p')) \<le> pipe_capacity"
proof -
  have ok: "pipe_run_ok G i s" using assms(1-3) by (simp add: pipe_run_ok_def om_memI)
  have "pipe_run_ok G i s'" unfolding assms(6) by (rule pipe_channel.run_ok [OF ok])
  moreover have "pi_buffer p @ pr_sent s' = pr_received s' @ pipe_pending i s'"
    using pipe_channel.run_fifo [OF ok assms(4,5), of pid fdm calls] assms(3) by (simp add: assms(6) pipe_pending_def)
  ultimately show ?thesis by (auto simp: pipe_run_ok_def pipes_bounded_def om_mem_def pipe_pending_def)
qed

definition demo_pipe :: "(int \<times> (int \<times> int)) fs_result" where
  "demo_pipe = do_pipe 0 new_fs_state new_fd_manager"

definition demo_pipe_run :: "flat pipe_run" where
  "demo_pipe_run = \<lparr>pr_fs = fst (snd demo_pipe), pr_memory = \<lparr>fl_base = 0x1000, fl_cells = [1, 2, 3, 4, 0, 0, 0, 0]\<rparr>,
     pr_sent = [], pr_received = []\<rparr>"

definition demo_pipe_calls :: "pipe_call list" where
  "demo_pipe_calls = [Pipe_write 4 0x1000 3, Pipe_write 4 0x1003 1, Pipe_read 3 0x1004 2]"

theorem pipe_is_fifo_witness:
  "pr_received (fold (pipe_exec flat_guest 7 1 (snd (snd demo_pipe))) demo_pipe_calls demo_pipe_run) = [1, 2] \<and>
   (\<exists>p'. map_of (pipes (pr_fs (fold (pipe_exec flat_guest 7 1 (snd (snd demo_pipe))) demo_pipe_calls demo_pipe_run))) 1 = Some p' \<and>
     pr_sent (fold (pipe_exec flat_guest 7 1 (snd (snd demo_pipe))) demo_pipe_calls demo_pipe_run) = [1, 2] @ pi_buffer p')"
proof -
  let ?s = "fold (pipe_exec flat_guest 7 1 (snd (snd demo_pipe))) demo_pipe_calls demo_pipe_run"
  have "pipes (pr_fs demo_pipe_run) = [(1, new_pipe)]" by code_simp
  then have b: "pipes_bounded (pr_fs demo_pipe_run)" "map_of (pipes (pr_fs demo_pipe_run)) 1 = Some new_pipe"
    by (auto simp: pipes_bounded_def new_pipe_def split: if_splits)
  have r: "pr_received ?s = [1, 2]" by code_simp
  have "pr_sent demo_pipe_run = []" "pr_received demo_pipe_run = []" by (simp_all add: demo_pipe_run_def)
  from pipe_is_fifo [OF faithful_flat b this refl, of 7 "snd (snd demo_pipe)" demo_pipe_calls] r
  show ?thesis by (auto simp: new_pipe_def)
qed

section \<open>Creation and closing\<close>



lemma om_del_put: "om_ok m \<Longrightarrow> map_of m k = None \<Longrightarrow> om_del k (om_put k v m) = m"
  by (rule om_ext) (auto simp: fun_eq_iff)



end
