(* ===== verification/Sock.thy ===== *)
theory Sock
  imports Vfs_Pipe
begin

text \<open>
  The data of the emulated network: \<open>src/src/subsys/net/sockstate.h\<close> and the part of the global state
  \<open>ptmc_state\<close> (\<open>src/src/core/monitor.h\<close>) that its system calls read and write. Every process has its
  own sockets, descriptors and files; a connection is found by its addresses in the states of all
  processes. Ports and addresses are kept in network byte order, as in the source. The padding
  \<open>sin_zero\<close> of an address is always zero in the state and left out. Host memory exhaustion is not
  modelled, and the descriptor table is always attached.
\<close>

section \<open>Constants\<close>

abbreviation (input) AF_INET :: int where "AF_INET \<equiv> 2"
abbreviation (input) SOCK_STREAM :: int where "SOCK_STREAM \<equiv> 1"
abbreviation (input) SOCK_DGRAM :: int where "SOCK_DGRAM \<equiv> 2"
abbreviation (input) SOCK_NONBLOCK :: int where "SOCK_NONBLOCK \<equiv> 0x800"
abbreviation (input) SOCK_CLOEXEC :: int where "SOCK_CLOEXEC \<equiv> 0x80000"
abbreviation (input) IPPROTO_TCP :: int where "IPPROTO_TCP \<equiv> 6"
abbreviation (input) IPPROTO_UDP :: int where "IPPROTO_UDP \<equiv> 17"
abbreviation (input) INADDR_ANY :: u32 where "INADDR_ANY \<equiv> 0"
abbreviation (input) MSG_PEEK :: int where "MSG_PEEK \<equiv> 0x2"
abbreviation (input) MSG_TRUNC :: int where "MSG_TRUNC \<equiv> 0x20"
abbreviation (input) MSG_DONTWAIT :: int where "MSG_DONTWAIT \<equiv> 0x40"
abbreviation (input) MSG_NOSIGNAL :: int where "MSG_NOSIGNAL \<equiv> 0x4000"
abbreviation (input) ENETUNREACH :: int where "ENETUNREACH \<equiv> 101"

section \<open>Host representation\<close>

text \<open>The bytes of an integer on the (little-endian) host, and the integer of bytes.\<close>

fun le_bytes :: "nat \<Rightarrow> int \<Rightarrow> byte list" where
  "le_bytes 0 n = []"
| "le_bytes (Suc k) n = word_of_int n # le_bytes k (n div 256)"

fun le_int :: "byte list \<Rightarrow> int" where
  "le_int [] = 0"
| "le_int (b # bs) = uint b + 256 * le_int bs"

lemma length_le_bytes [simp]: "length (le_bytes k n) = k"
  by (induction k n rule: le_bytes.induct) auto

lemma le_int_bytes: "le_int (le_bytes k n) = n mod 256 ^ k"
proof (induction k n rule: le_bytes.induct)
  case (2 k n)
  have "uint (word_of_int n :: byte) = n mod 256" by (simp add: uint_word_of_int)
  then show ?case using 2 zmod_zmult2_eq [of "256 ^ k" n 256] by simp
qed simp

lemma le_int_nonneg: "0 \<le> le_int bs"
  by (induction bs) auto

definition ntohs :: "u16 \<Rightarrow> u16" where
  "ntohs p = push_bit 8 p OR drop_bit 8 p"

text \<open>
  \<open>inet_pton\<close> of the C library for \<open>AF_INET\<close>: four decimal octets without superfluous zeros. The
  accumulated octets are in reverse order.
\<close>

fun pton_from :: "string \<Rightarrow> nat list \<Rightarrow> nat option \<Rightarrow> u32 option" where
  "pton_from [] got cur =
     (case cur of
        Some v \<Rightarrow> if length got = 3 then Some (word_of_int (le_int (map of_nat (rev (v # got))))) else None
      | None \<Rightarrow> None)"
| "pton_from (c # cs) got cur =
     (let d = of_char c :: nat
      in if 48 \<le> d \<and> d \<le> 57
         then (case cur of
                 None \<Rightarrow> if 4 \<le> length got then None else pton_from cs got (Some (d - 48))
               | Some v \<Rightarrow> if v = 0 \<or> 255 < 10 * v + (d - 48) then None
                           else pton_from cs got (Some (10 * v + (d - 48))))
         else if c = CHR ''.''
         then (case cur of
                 None \<Rightarrow> None
               | Some v \<Rightarrow> if length got = 3 then None else pton_from cs (v # got) None)
         else None)"

definition inet_pton :: "string \<Rightarrow> u32 option" where
  "inet_pton s = pton_from s [] None"

section \<open>Sockets\<close>

record sockaddr_in =
  sin_family :: u16
  sin_port :: u16
  s_addr :: u32

definition no_address :: sockaddr_in where
  "no_address = \<lparr>sin_family = 0, sin_port = 0, s_addr = 0\<rparr>"

definition sockaddr_of :: "byte list \<Rightarrow> sockaddr_in" where
  "sockaddr_of bs =
     \<lparr>sin_family = word_of_int (le_int (take 2 bs)), sin_port = word_of_int (le_int (take 2 (drop 2 bs))),
      s_addr = word_of_int (le_int (take 4 (drop 4 bs)))\<rparr>"

definition sockaddr_bytes :: "sockaddr_in \<Rightarrow> byte list" where
  "sockaddr_bytes a =
     le_bytes 2 (uint (sin_family a)) @ le_bytes 2 (uint (sin_port a)) @ le_bytes 4 (uint (s_addr a)) @ replicate 8 0"

lemma length_sockaddr_bytes [simp]: "length (sockaddr_bytes a) = 16"
  by (simp add: sockaddr_bytes_def)

lemma sockaddr_of_bytes: "sockaddr_of (sockaddr_bytes a) = a"
proof -
  have "uint x mod 65536 = uint x" for x :: u16 using unsigned_less [of x, where 'a = int] by simp
  moreover have "uint x mod 4294967296 = uint x" for x :: u32 using unsigned_less [of x, where 'a = int] by simp
  ultimately show ?thesis by (simp add: sockaddr_of_def sockaddr_bytes_def le_int_bytes)
qed

record tcp_connection =
  tc_local_fd :: int
  tc_local_addr :: sockaddr_in
  tc_peer_addr :: sockaddr_in
  tc_recv_buffer :: "byte list list"

record udp_datagram =
  ud_content :: "byte list"
  ud_from :: sockaddr_in

record socket =
  sk_fd :: int
  sk_domain :: int
  sk_type :: int
  sk_protocol :: int
  sk_bound :: bool
  sk_local_addr :: sockaddr_in
  sk_connected :: bool
  sk_listening :: bool
  sk_peer_addr :: sockaddr_in
  sk_backlog :: int
  sk_pending_connections :: "u64 list"
  sk_established_connections :: "(u64, tcp_connection) omap"
  sk_reuse_address :: bool
  sk_no_delay :: bool
  sk_keep_alive :: bool
  sk_keep_idle :: int
  sk_keep_interval :: int
  sk_keep_count :: int

definition new_socket :: socket where
  "new_socket =
     \<lparr>sk_fd = - 1, sk_domain = 0, sk_type = 0, sk_protocol = 0, sk_bound = False, sk_local_addr = no_address,
      sk_connected = False, sk_listening = False, sk_peer_addr = no_address, sk_backlog = 0,
      sk_pending_connections = [], sk_established_connections = [], sk_reuse_address = False,
      sk_no_delay = False, sk_keep_alive = False, sk_keep_idle = 7200, sk_keep_interval = 75, sk_keep_count = 9\<rparr>"

record epoll_watch =
  ew_events :: u32
  ew_data :: u64

record epoll_instance =
  ep_fd :: int
  ep_watched_fds :: "(int, epoll_watch) omap"

record sock_state =
  sockets :: "(int, socket) omap"
  udp_recv_buffers :: "(int, udp_datagram list) omap"
  tcp_connections :: "(int, tcp_connection) omap"
  epoll_instances :: "(int, epoll_instance) omap"

definition new_sock_state :: sock_state where
  "new_sock_state = \<lparr>sockets = [], udp_recv_buffers = [], tcp_connections = [], epoll_instances = []\<rparr>"

section \<open>The global state\<close>

text \<open>The arrays of \<open>NP\<close> processes are lists of equal length; \<open>pt_memory\<close> is the memory of the guests.\<close>

record 'm ptmc =
  pt_cursor :: nat
  pt_n_choose :: int
  pt_choose :: int
  pt_sock_states :: "sock_state list"
  pt_fd_managers :: "fd_manager list"
  pt_fs_states :: "fs_state list"
  pt_pids :: "int list"
  pt_addrs :: "string list"
  pt_error_bound :: int
  pt_memory :: 'm

type_synonym 'm net_result = "(exn + int) \<times> 'm ptmc"

definition own :: "'m ptmc \<Rightarrow> sock_state" where
  "own w = pt_sock_states w ! pt_cursor w"

definition own_fdm :: "'m ptmc \<Rightarrow> fd_manager" where
  "own_fdm w = pt_fd_managers w ! pt_cursor w"

definition set_own :: "sock_state \<Rightarrow> 'm ptmc \<Rightarrow> 'm ptmc" where
  "set_own s w = w\<lparr>pt_sock_states := (pt_sock_states w)[pt_cursor w := s]\<rparr>"

definition set_own_fdm :: "fd_manager \<Rightarrow> 'm ptmc \<Rightarrow> 'm ptmc" where
  "set_own_fdm m w = w\<lparr>pt_fd_managers := (pt_fd_managers w)[pt_cursor w := m]\<rparr>"

definition put_socket :: "int \<Rightarrow> socket \<Rightarrow> sock_state \<Rightarrow> sock_state" where
  "put_socket fd sock s = s\<lparr>sockets := om_put fd sock (sockets s)\<rparr>"

definition put_connection :: "int \<Rightarrow> tcp_connection \<Rightarrow> sock_state \<Rightarrow> sock_state" where
  "put_connection fd c s = s\<lparr>tcp_connections := om_put fd c (tcp_connections s)\<rparr>"

definition on_node :: "nat \<Rightarrow> (sock_state \<Rightarrow> sock_state) \<Rightarrow> 'm ptmc \<Rightarrow> 'm ptmc" where
  "on_node n f w = w\<lparr>pt_sock_states := (pt_sock_states w)[n := f (pt_sock_states w ! n)]\<rparr>"

text \<open>Copies from and to the memory of the running process.\<close>

definition guest_in :: "'m guest \<Rightarrow> u64 \<Rightarrow> nat \<Rightarrow> 'm ptmc \<Rightarrow> byte list option" where
  "guest_in G address n w = guest_read_exact G (pt_pids w ! pt_cursor w) address n (pt_memory w)"

definition guest_out :: "'m guest \<Rightarrow> u64 \<Rightarrow> byte list \<Rightarrow> 'm ptmc \<Rightarrow> bool \<times> 'm ptmc" where
  "guest_out G address bs w =
     (case guest_write_exact G (pt_pids w ! pt_cursor w) address bs (pt_memory w) of
        (ok, m) \<Rightarrow> (ok, w\<lparr>pt_memory := m\<rparr>))"

definition consume_model_budget :: "int \<Rightarrow> 'm ptmc \<Rightarrow> 'm ptmc" where
  "consume_model_budget cost w =
     (if cost \<le> 0 then w
      else w\<lparr>pt_error_bound := (if cost < pt_error_bound w then pt_error_bound w - cost else 0)\<rparr>)"

text \<open>The first entry of an ordered map that satisfies a condition: a loop that breaks or returns.\<close>

fun om_find :: "('k \<Rightarrow> 'v \<Rightarrow> bool) \<Rightarrow> ('k, 'v) omap \<Rightarrow> 'k option" where
  "om_find P [] = None"
| "om_find P ((k, v) # m) = (if P k v then Some k else om_find P m)"

end
