(* ===== verification/Sock_Tcp.thy ===== *)
theory Sock_Tcp
  imports Sock
begin

text \<open>
  The stream socket operations of \<open>SockState\<close> (\<open>src/src/subsys/net/sockstate.cpp\<close>): creation, binding,
  connection, transfer and closing. They run on the state of the process under the cursor and reach
  into the states of the other processes.
\<close>

section \<open>Creation and names\<close>

definition get_socket :: "int \<Rightarrow> sock_state \<Rightarrow> socket option" where
  "get_socket fd s = map_of (sockets s) fd"

definition is_valid_socket :: "int \<Rightarrow> sock_state \<Rightarrow> bool" where
  "is_valid_socket fd s \<longleftrightarrow> om_mem fd (sockets s)"

definition invalid_socket_error :: "int \<Rightarrow> 'm ptmc \<Rightarrow> int" where
  "invalid_socket_error fd w = (if is_allocated fd (own_fdm w) then - ENOTSOCK else - EBADF)"

definition find_socket_by_local_addr :: "sockaddr_in \<Rightarrow> sock_state \<Rightarrow> int" where
  "find_socket_by_local_addr a s =
     (case om_find (\<lambda>fd k. sk_bound k \<and> s_addr (sk_local_addr k) = s_addr a \<and>
              sin_port (sk_local_addr k) = sin_port a) (sockets s) of
        None \<Rightarrow> - 1 | Some fd \<Rightarrow> fd)"

definition find_socket_by_port :: "u16 \<Rightarrow> sock_state \<Rightarrow> int" where
  "find_socket_by_port port s =
     (case om_find (\<lambda>fd k. sk_bound k \<and> sin_port (sk_local_addr k) = port) (sockets s) of
        None \<Rightarrow> - 1 | Some fd \<Rightarrow> fd)"

definition do_socket :: "int \<Rightarrow> int \<Rightarrow> int \<Rightarrow> 'm ptmc \<Rightarrow> 'm net_result" where
  "do_socket domain type protocol w =
     (if domain \<noteq> AF_INET then (Inr (- EAFNOSUPPORT), w)
      else
        (let type_flags = type AND (SOCK_NONBLOCK OR SOCK_CLOEXEC);
             base_type = type AND NOT (SOCK_NONBLOCK OR SOCK_CLOEXEC);
             effective_protocol = (if base_type = SOCK_STREAM then IPPROTO_TCP else IPPROTO_UDP)
         in if base_type \<noteq> SOCK_STREAM \<and> base_type \<noteq> SOCK_DGRAM then (Inr (- EPROTONOSUPPORT), w)
            else if protocol \<noteq> 0 \<and> protocol \<noteq> effective_protocol then (Inr (- EPROTONOSUPPORT), w)
            else (case allocate_fd FT_SOCKET (O_RDWR OR (if has_flag type_flags SOCK_NONBLOCK then O_NONBLOCK else 0))
                         (if has_flag type_flags SOCK_CLOEXEC then FD_CLOEXEC else 0) (own_fdm w) of
              (Inl e, fdm) \<Rightarrow> (Inl e, set_own_fdm fdm w)
            | (Inr fd, fdm) \<Rightarrow>
                if fd < 0 then (Inr (- EMFILE), set_own_fdm fdm w)
                else (Inr fd, set_own (put_socket fd
                       (new_socket\<lparr>sk_fd := fd, sk_domain := domain, sk_type := base_type,
                                   sk_protocol := effective_protocol\<rparr>) (own w)) (set_own_fdm fdm w)))))"

definition bind_conflict :: "int \<Rightarrow> socket \<Rightarrow> sockaddr_in \<Rightarrow> int \<times> socket \<Rightarrow> bool" where
  "bind_conflict fd sock sin = (\<lambda>(other_fd, other).
     \<not> (other_fd = fd \<or> \<not> sk_bound other \<or> sk_type other \<noteq> sk_type sock \<or>
        sin_port (sk_local_addr other) \<noteq> sin_port sin \<or> sin_port sin = 0) \<and>
     (s_addr sin = INADDR_ANY \<or> s_addr (sk_local_addr other) = INADDR_ANY \<or>
      s_addr sin = s_addr (sk_local_addr other)))"

definition do_bind :: "'m guest \<Rightarrow> int \<Rightarrow> u64 \<Rightarrow> nat \<Rightarrow> 'm ptmc \<Rightarrow> 'm net_result" where
  "do_bind G fd address addrlen w =
     (case get_socket fd (own w) of
        None \<Rightarrow> (Inr (invalid_socket_error fd w), w)
      | Some sock \<Rightarrow>
          if sk_bound sock then (Inr (- EINVAL), w)
          else if addrlen < 16 then (Inr (- EINVAL), w)
          else (case guest_in G address 16 w of
                  None \<Rightarrow> (Inr (- EFAULT), w)
                | Some bs \<Rightarrow>
                    (let sin = sockaddr_of bs
                     in if sin_family sin \<noteq> 2 then (Inr (- EAFNOSUPPORT), w)
                        else if list_ex (bind_conflict fd sock sin) (sockets (own w)) then (Inr (- EADDRINUSE), w)
                        else (Inr 0, set_own (put_socket fd (sock\<lparr>sk_local_addr := sin, sk_bound := True\<rparr>) (own w)) w))))"

definition copy_socket_address :: "'m guest \<Rightarrow> sockaddr_in \<Rightarrow> u64 \<Rightarrow> u64 \<Rightarrow> 'm ptmc \<Rightarrow> int \<times> 'm ptmc" where
  "copy_socket_address G address output len w =
     (case guest_in G len 4 w of
        None \<Rightarrow> (- EFAULT, w)
      | Some bs \<Rightarrow>
          (let capacity = le_int bs
           in if INT_MAX < capacity then (- EINVAL, w)
              else (case guest_out G output (take (nat (min capacity 16)) (sockaddr_bytes address)) w of
                      (False, w) \<Rightarrow> (- EFAULT, w)
                    | (True, w) \<Rightarrow>
                        (case guest_out G len (le_bytes 4 16) w of
                           (True, w) \<Rightarrow> (0, w) | (False, w) \<Rightarrow> (- EFAULT, w)))))"

definition do_getsockname :: "'m guest \<Rightarrow> int \<Rightarrow> u64 \<Rightarrow> u64 \<Rightarrow> 'm ptmc \<Rightarrow> int \<times> 'm ptmc" where
  "do_getsockname G fd address len w =
     (case get_socket fd (own w) of
        None \<Rightarrow> (invalid_socket_error fd w, w)
      | Some k \<Rightarrow> copy_socket_address G ((sk_local_addr k)\<lparr>sin_family := 2\<rparr>) address len w)"

definition do_getpeername :: "'m guest \<Rightarrow> int \<Rightarrow> u64 \<Rightarrow> u64 \<Rightarrow> 'm ptmc \<Rightarrow> int \<times> 'm ptmc" where
  "do_getpeername G fd address len w =
     (case get_socket fd (own w) of
        None \<Rightarrow> (invalid_socket_error fd w, w)
      | Some k \<Rightarrow> if \<not> sk_connected k then (- ENOTCONN, w)
                  else copy_socket_address G (sk_peer_addr k) address len w)"

definition do_listen :: "int \<Rightarrow> int \<Rightarrow> 'm ptmc \<Rightarrow> int \<times> 'm ptmc" where
  "do_listen fd backlog w =
     (case get_socket fd (own w) of
        None \<Rightarrow> (invalid_socket_error fd w, w)
      | Some k \<Rightarrow>
          if sk_type k \<noteq> SOCK_STREAM then (- EOPNOTSUPP, w)
          else if \<not> sk_bound k then (- EDESTADDRREQ, w)
          else (0, set_own (put_socket fd (k\<lparr>sk_listening := True, sk_backlog := max 0 backlog\<rparr>) (own w)) w))"

section \<open>Connecting\<close>

definition endpoint_key :: "u32 \<Rightarrow> u16 \<Rightarrow> u64" where
  "endpoint_key a port = push_bit 32 (ucast a) OR ucast port"

definition reciprocal_tuple :: "sockaddr_in \<Rightarrow> sockaddr_in \<Rightarrow> socket \<Rightarrow> bool" where
  "reciprocal_tuple local_addr peer_addr candidate \<longleftrightarrow>
     sk_type candidate = SOCK_STREAM \<and> sk_connected candidate \<and>
     s_addr (sk_local_addr candidate) = s_addr peer_addr \<and>
     sin_port (sk_local_addr candidate) = sin_port peer_addr \<and>
     s_addr (sk_peer_addr candidate) = s_addr local_addr"

definition pending_tuple :: "sockaddr_in \<Rightarrow> sockaddr_in \<Rightarrow> tcp_connection \<Rightarrow> bool" where
  "pending_tuple local_addr peer_addr c \<longleftrightarrow>
     s_addr (tc_local_addr c) = s_addr local_addr \<and> s_addr (tc_peer_addr c) = s_addr peer_addr \<and>
     sin_port (tc_peer_addr c) = sin_port peer_addr"

definition all_sockets :: "'m ptmc \<Rightarrow> socket list" where
  "all_sockets w = concat (map (\<lambda>s. map snd (sockets s)) (pt_sock_states w))"

text \<open>The ports that the source marks in \<open>used\<close>, in network byte order.\<close>

definition reserved_ports :: "sockaddr_in \<Rightarrow> sockaddr_in \<Rightarrow> 'm ptmc \<Rightarrow> u16 list" where
  "reserved_ports local_addr peer_addr w =
     map (\<lambda>k. sin_port (sk_local_addr k)) (filter sk_bound (map snd (sockets (own w)))) @
     concat (map (\<lambda>remote.
       (if reciprocal_tuple local_addr peer_addr remote then [sin_port (sk_peer_addr remote)] else []) @
       (if \<not> sk_listening remote then []
        else map (\<lambda>c. sin_port (tc_local_addr c))
               (filter (pending_tuple local_addr peer_addr) (map snd (sk_established_connections remote)))))
       (all_sockets w))"

abbreviation (input) first_port :: int where "first_port \<equiv> 10000"
abbreviation (input) port_count :: int where "port_count \<equiv> 50000"

definition port_used :: "u16 list \<Rightarrow> int \<Rightarrow> bool" where
  "port_used ports index \<longleftrightarrow> first_port + index \<in> set (map (\<lambda>p. uint (ntohs p)) ports)"

function free_index :: "(int \<Rightarrow> bool) \<Rightarrow> int \<Rightarrow> int" where
  "free_index used index = (if index < port_count \<and> used index then free_index used (index + 1) else index)"
  by pat_completeness auto
termination
  by (relation "measure (\<lambda>(used, index). nat (port_count - index))") auto

declare free_index.simps [simp del]

definition choose_port :: "socket \<Rightarrow> sockaddr_in \<Rightarrow> sockaddr_in \<Rightarrow> 'm ptmc \<Rightarrow> sockaddr_in option" where
  "choose_port sock local_addr peer_addr w =
     (if \<not> sk_bound sock \<or> sin_port local_addr = 0
      then
        (let index = free_index (port_used (reserved_ports local_addr peer_addr w)) 0
         in if index = port_count then None
            else Some (local_addr\<lparr>sin_port := ntohs (word_of_int (first_port + index))\<rparr>))
      else Some local_addr)"

fun endpoint_reuse :: "sockaddr_in \<Rightarrow> sockaddr_in \<Rightarrow> socket list \<Rightarrow> exn option" where
  "endpoint_reuse local_addr peer_addr [] = None"
| "endpoint_reuse local_addr peer_addr (remote # rest) =
     (if reciprocal_tuple local_addr peer_addr remote \<and> sin_port (sk_peer_addr remote) = sin_port local_addr
      then Some (Runtime_error ''TCP bound endpoint reuse with a surviving peer is unsupported'')
      else if sk_listening remote \<and>
              list_ex (\<lambda>(key, c). pending_tuple local_addr peer_addr c \<and>
                 sin_port (tc_local_addr c) = sin_port local_addr) (sk_established_connections remote)
      then Some (Runtime_error ''TCP bound endpoint reuse with a pending peer is unsupported'')
      else endpoint_reuse local_addr peer_addr rest)"

definition effective_addr :: "'m ptmc \<Rightarrow> nat \<Rightarrow> u32 \<Rightarrow> u32 option" where
  "effective_addr w node a = (if a = INADDR_ANY then inet_pton (pt_addrs w ! node) else Some a)"

definition listens_at :: "'m ptmc \<Rightarrow> nat \<Rightarrow> sockaddr_in \<Rightarrow> socket \<Rightarrow> bool" where
  "listens_at w node peer_addr candidate \<longleftrightarrow>
     sk_listening candidate \<and> sk_type candidate = SOCK_STREAM \<and>
     sin_port (sk_local_addr candidate) = sin_port peer_addr \<and>
     effective_addr w node (s_addr (sk_local_addr candidate)) = Some (s_addr peer_addr)"

definition listeners :: "sockaddr_in \<Rightarrow> 'm ptmc \<Rightarrow> (nat \<times> int) list" where
  "listeners peer_addr w =
     concat (map (\<lambda>node. map (\<lambda>(fd, k). (node, fd))
       (filter (\<lambda>(fd, k). listens_at w node peer_addr k) (sockets (pt_sock_states w ! node))))
       [0..<length (pt_sock_states w)])"

definition connection_of :: "int \<Rightarrow> sockaddr_in \<Rightarrow> sockaddr_in \<Rightarrow> tcp_connection" where
  "connection_of fd local_addr peer_addr =
     \<lparr>tc_local_fd = fd, tc_local_addr = local_addr, tc_peer_addr = peer_addr, tc_recv_buffer = []\<rparr>"

text \<open>The source address of a connection: the bound one, or that of the process when it is \<open>ANY\<close>.\<close>

definition source_addr :: "socket \<Rightarrow> 'm ptmc \<Rightarrow> sockaddr_in option" where
  "source_addr sock w =
     (let local_addr = (if sk_bound sock then sk_local_addr sock else no_address)\<lparr>sin_family := 2\<rparr>
      in if s_addr local_addr = INADDR_ANY
         then (case inet_pton (pt_addrs w ! pt_cursor w) of
                 None \<Rightarrow> None
               | Some a \<Rightarrow> if a = INADDR_ANY then None else Some (local_addr\<lparr>s_addr := a\<rparr>))
         else Some local_addr)"

definition connect_commit ::
  "int \<Rightarrow> socket \<Rightarrow> sockaddr_in \<Rightarrow> sockaddr_in \<Rightarrow> nat \<Rightarrow> int \<Rightarrow> 'm ptmc \<Rightarrow> 'm ptmc" where
  "connect_commit fd sock local_addr peer_addr node listen_fd w =
     (let client_key = endpoint_key (s_addr local_addr) (sin_port local_addr);
          w1 = set_own (put_socket fd (sock\<lparr>sk_bound := True, sk_local_addr := local_addr,
                 sk_connected := True, sk_peer_addr := peer_addr\<rparr>) (own w)) w;
          w2 = on_node node (\<lambda>s. case map_of (sockets s) listen_fd of
                 None \<Rightarrow> s
               | Some l \<Rightarrow> put_socket listen_fd
                   (l\<lparr>sk_pending_connections := sk_pending_connections l @ [client_key],
                      sk_established_connections := om_emplace client_key (connection_of fd local_addr peer_addr)
                        (sk_established_connections l)\<rparr>) s) w1
      in set_own (put_connection fd (connection_of fd local_addr peer_addr) (own w2)) w2)"

definition connect_listener ::
  "int \<Rightarrow> socket \<Rightarrow> sockaddr_in \<Rightarrow> sockaddr_in \<Rightarrow> 'm ptmc \<Rightarrow> 'm net_result" where
  "connect_listener fd sock local_addr peer_addr w =
     (case (if sk_bound sock \<and> sin_port (sk_local_addr sock) \<noteq> 0
            then endpoint_reuse local_addr peer_addr (all_sockets w) else None) of
        Some e \<Rightarrow> (Inl e, w)
      | None \<Rightarrow>
          (case listeners peer_addr w of
             [] \<Rightarrow> (Inr (- ECONNREFUSED), w)
           | [(node, listen_fd)] \<Rightarrow>
               (case map_of (sockets (pt_sock_states w ! node)) listen_fd of
                  None \<Rightarrow> (Inr (- ECONNREFUSED), w)
                | Some l \<Rightarrow>
                    if sk_backlog l \<le> int (length (sk_established_connections l))
                    then (Inl (Runtime_error ''TCP backlog overflow requires unsupported blocking/connect state''), w)
                    else if om_mem (endpoint_key (s_addr local_addr) (sin_port local_addr)) (sk_established_connections l)
                    then (Inl (Runtime_error
                           ''TCP endpoint reuse while an older connection is pending is unsupported''), w)
                    else (Inr 0, connect_commit fd sock local_addr peer_addr node listen_fd w))
           | _ # _ # _ \<Rightarrow> (Inl (Runtime_error ''Ambiguous TCP listener endpoint''), w)))"

definition do_connect :: "'m guest \<Rightarrow> int \<Rightarrow> u64 \<Rightarrow> nat \<Rightarrow> 'm ptmc \<Rightarrow> 'm net_result" where
  "do_connect G fd address addrlen w =
     (case get_socket fd (own w) of
        None \<Rightarrow> (Inr (invalid_socket_error fd w), w)
      | Some sock \<Rightarrow>
          if sk_type sock \<noteq> SOCK_STREAM then (Inr (- EOPNOTSUPP), w)
          else if sk_connected sock then (Inr (- EISCONN), w)
          else if sk_listening sock then (Inr (- EINVAL), w)
          else if addrlen < 16 then (Inr (- EINVAL), w)
          else (case guest_in G address 16 w of
            None \<Rightarrow> (Inr (- EFAULT), w)
          | Some bs \<Rightarrow>
              (let peer_addr = sockaddr_of bs
               in if sin_family peer_addr \<noteq> 2 then (Inr (- EAFNOSUPPORT), w)
                  else (case source_addr sock w of
                    None \<Rightarrow> (Inr (- EADDRNOTAVAIL), w)
                  | Some local_addr \<Rightarrow>
                      (case choose_port sock local_addr peer_addr w of
                         None \<Rightarrow> (Inr (- EADDRNOTAVAIL), w)
                       | Some local_addr \<Rightarrow> connect_listener fd sock local_addr peer_addr w)))))"

end
