(* ===== verification/Sock_Stream.thy ===== *)
theory Sock_Stream
  imports Sock_Tcp
begin

text \<open>
  Accepting a connection, the transfer of bytes over it and its end:
  \<open>do_accept\<close>, \<open>do_send\<close>, \<open>do_send_buffer\<close>, \<open>do_recv\<close> and \<open>do_close\<close> of
  \<open>src/src/subsys/net/sockstate.cpp\<close>, and the handlers that call them.
\<close>

section \<open>Accepting\<close>

definition accepted_socket :: "socket \<Rightarrow> tcp_connection \<Rightarrow> socket" where
  "accepted_socket l pending =
     new_socket\<lparr>sk_domain := sk_domain l, sk_type := SOCK_STREAM, sk_protocol := sk_protocol l,
       sk_bound := True, sk_connected := True, sk_reuse_address := sk_reuse_address l,
       sk_no_delay := sk_no_delay l, sk_keep_alive := sk_keep_alive l, sk_keep_idle := sk_keep_idle l,
       sk_keep_interval := sk_keep_interval l, sk_keep_count := sk_keep_count l,
       sk_local_addr := tc_peer_addr pending, sk_peer_addr := tc_local_addr pending\<rparr>"

definition accept_copyout ::
  "'m guest \<Rightarrow> sockaddr_in \<Rightarrow> u64 \<Rightarrow> u64 \<Rightarrow> 'm ptmc \<Rightarrow> int option \<times> 'm ptmc" where
  "accept_copyout G peer address addrlen w =
     (if address = 0 then (None, w)
      else (case guest_in G addrlen 4 w of
        None \<Rightarrow> (Some (- EFAULT), w)
      | Some bs \<Rightarrow>
          if INT_MAX < le_int bs then (Some (- EINVAL), w)
          else (case guest_out G address (take (nat (min (le_int bs) 16)) (sockaddr_bytes peer)) w of
                  (False, w) \<Rightarrow> (Some (- EFAULT), w)
                | (True, w) \<Rightarrow>
                    (case guest_out G addrlen (le_bytes 4 16) w of
                       (False, w) \<Rightarrow> (Some (- EFAULT), w)
                     | (True, w) \<Rightarrow> (None, w)))))"

definition accept_commit :: "int \<Rightarrow> socket \<Rightarrow> u64 \<Rightarrow> tcp_connection \<Rightarrow> int \<Rightarrow> sock_state \<Rightarrow> sock_state" where
  "accept_commit fd l client_key pending new_fd s =
     (let new_sock = (accepted_socket l pending)\<lparr>sk_fd := new_fd\<rparr>;
          s1 = put_socket fd (l\<lparr>sk_pending_connections := tl (sk_pending_connections l)\<rparr>) s;
          s2 = put_socket new_fd new_sock s1;
          s3 = put_connection new_fd (pending\<lparr>tc_local_fd := new_fd, tc_local_addr := sk_local_addr new_sock,
                 tc_peer_addr := sk_peer_addr new_sock\<rparr>) s2
      in put_socket fd (l\<lparr>sk_pending_connections := tl (sk_pending_connections l),
           sk_established_connections := om_del client_key (sk_established_connections l)\<rparr>) s3)"

definition do_accept :: "'m guest \<Rightarrow> int \<Rightarrow> u64 \<Rightarrow> u64 \<Rightarrow> 'm ptmc \<Rightarrow> 'm net_result" where
  "do_accept G fd address addrlen w =
     (case get_socket fd (own w) of
        None \<Rightarrow> (Inr (invalid_socket_error fd w), w)
      | Some l \<Rightarrow>
          if sk_type l \<noteq> SOCK_STREAM then (Inr (- EOPNOTSUPP), w)
          else if \<not> sk_listening l then (Inr (- EINVAL), w)
          else (case sk_pending_connections l of
            [] \<Rightarrow> (Inr (- EAGAIN), w)
          | client_key # rest \<Rightarrow>
              (case map_of (sk_established_connections l) client_key of
                 None \<Rightarrow> (Inr (- ECONNRESET), set_own (put_socket fd (l\<lparr>sk_pending_connections := rest\<rparr>) (own w)) w)
               | Some pending \<Rightarrow>
                   (case accept_copyout G (tc_local_addr pending) address addrlen w of
                      (Some err, w) \<Rightarrow> (Inr err, w)
                    | (None, w) \<Rightarrow>
                        (case allocate_fd FT_SOCKET O_RDWR 0 (own_fdm w) of
                           (Inl e, fdm) \<Rightarrow> (Inl e, set_own_fdm fdm w)
                         | (Inr new_fd, fdm) \<Rightarrow>
                             if new_fd < 0 then (Inr (- EMFILE), set_own_fdm fdm w)
                             else (Inr new_fd, set_own (accept_commit fd l client_key pending new_fd (own w))
                                     (set_own_fdm fdm w)))))))"

definition emu_accept4 :: "'m guest \<Rightarrow> int \<Rightarrow> u64 \<Rightarrow> u64 \<Rightarrow> int \<Rightarrow> 'm ptmc \<Rightarrow> 'm net_result" where
  "emu_accept4 G sockfd address addrlen flags w =
     (if has_flag flags (NOT (SOCK_NONBLOCK OR SOCK_CLOEXEC)) then (Inr (- EINVAL), w)
      else (case do_accept G sockfd address addrlen w of
              (Inl e, w) \<Rightarrow> (Inl e, w)
            | (Inr fd, w) \<Rightarrow>
                if fd < 0 then (Inr fd, w)
                else
                  (let step = (\<lambda>enabled cmd arg w.
                         if enabled then (case do_fcntl fd cmd arg (own_fdm w) of
                                            (Inl e, fdm) \<Rightarrow> (Some e, set_own_fdm fdm w)
                                          | (Inr _, fdm) \<Rightarrow> (None, set_own_fdm fdm w))
                         else (None, w))
                   in case step (has_flag flags SOCK_NONBLOCK) F_SETFL O_NONBLOCK w of
                        (Some e, w) \<Rightarrow> (Inl e, w)
                      | (None, w) \<Rightarrow>
                          (case step (has_flag flags SOCK_CLOEXEC) F_SETFD FD_CLOEXEC w of
                             (Some e, w) \<Rightarrow> (Inl e, w)
                           | (None, w) \<Rightarrow> (Inr fd, w)))))"

section \<open>Sending\<close>

text \<open>
  A payload goes to the first endpoint that matches: node by node, first an accepted or connected
  socket with a connection, then a connection that waits at a listener.
\<close>

datatype route = To_Connection nat int | To_Pending nat int

definition configured_addr :: "'m ptmc \<Rightarrow> nat \<Rightarrow> u32 \<Rightarrow> u32" where
  "configured_addr w node a =
     (if a = INADDR_ANY then (case inet_pton (pt_addrs w ! node) of Some c \<Rightarrow> c | None \<Rightarrow> a) else a)"

definition is_peer :: "'m ptmc \<Rightarrow> nat \<Rightarrow> socket \<Rightarrow> socket \<Rightarrow> bool" where
  "is_peer w node sock remote \<longleftrightarrow>
     sk_connected remote \<and>
     configured_addr w node (s_addr (sk_local_addr remote)) = s_addr (sk_peer_addr sock) \<and>
     sin_port (sk_local_addr remote) = sin_port (sk_peer_addr sock) \<and>
     s_addr (sk_peer_addr remote) = s_addr (sk_local_addr sock) \<and>
     sin_port (sk_peer_addr remote) = sin_port (sk_local_addr sock)"

definition holds_pending :: "u64 \<Rightarrow> socket \<Rightarrow> socket \<Rightarrow> bool" where
  "holds_pending key sock remote \<longleftrightarrow>
     sk_listening remote \<and>
     (case map_of (sk_established_connections remote) key of
        None \<Rightarrow> False
      | Some c \<Rightarrow> s_addr (tc_peer_addr c) = s_addr (sk_peer_addr sock) \<and>
                   sin_port (tc_peer_addr c) = sin_port (sk_peer_addr sock))"

definition socket_key :: "socket \<Rightarrow> u64" where
  "socket_key sock = endpoint_key (s_addr (sk_local_addr sock)) (sin_port (sk_local_addr sock))"

definition route_in :: "'m ptmc \<Rightarrow> socket \<Rightarrow> nat \<Rightarrow> route option" where
  "route_in w sock node =
     (let s = pt_sock_states w ! node
      in case om_find (\<lambda>fd remote. is_peer w node sock remote \<and> om_mem fd (tcp_connections s)) (sockets s) of
           Some fd \<Rightarrow> Some (To_Connection node fd)
         | None \<Rightarrow> map_option (To_Pending node)
                     (om_find (\<lambda>fd remote. holds_pending (socket_key sock) sock remote) (sockets s)))"

fun first_route :: "'m ptmc \<Rightarrow> socket \<Rightarrow> nat list \<Rightarrow> route option" where
  "first_route w sock [] = None"
| "first_route w sock (node # rest) =
     (case route_in w sock node of Some r \<Rightarrow> Some r | None \<Rightarrow> first_route w sock rest)"

definition push_chunk :: "byte list \<Rightarrow> tcp_connection \<Rightarrow> tcp_connection" where
  "push_chunk data c = c\<lparr>tc_recv_buffer := tc_recv_buffer c @ [data]\<rparr>"

definition deliver :: "route \<Rightarrow> u64 \<Rightarrow> byte list \<Rightarrow> 'm ptmc \<Rightarrow> 'm ptmc" where
  "deliver r key data w =
     (if data = [] then w
      else (case r of
        To_Connection node fd \<Rightarrow>
          on_node node (\<lambda>s. case map_of (tcp_connections s) fd of
            None \<Rightarrow> s | Some c \<Rightarrow> put_connection fd (push_chunk data c) s) w
      | To_Pending node fd \<Rightarrow>
          on_node node (\<lambda>s. case map_of (sockets s) fd of
            None \<Rightarrow> s
          | Some l \<Rightarrow> (case map_of (sk_established_connections l) key of
              None \<Rightarrow> s
            | Some c \<Rightarrow> put_socket fd (l\<lparr>sk_established_connections :=
                om_put key (push_chunk data c) (sk_established_connections l)\<rparr>) s)) w))"

definition do_send_buffer :: "int \<Rightarrow> byte list \<Rightarrow> 'm ptmc \<Rightarrow> 'm net_result" where
  "do_send_buffer fd data w =
     (case get_socket fd (own w) of
        None \<Rightarrow> (Inl (Runtime_error ''TCP payload route has no validated socket''), w)
      | Some sock \<Rightarrow>
          (case first_route w sock [0..<length (pt_sock_states w)] of
             Some r \<Rightarrow> (Inr (int (length data)), deliver r (socket_key sock) data w)
           | None \<Rightarrow> (Inr (- ECONNRESET), w)))"

definition do_send :: "'m guest \<Rightarrow> int \<Rightarrow> u64 \<Rightarrow> nat \<Rightarrow> int \<Rightarrow> 'm ptmc \<Rightarrow> 'm net_result" where
  "do_send G fd buf len flags w =
     (if has_flag flags (NOT (MSG_DONTWAIT OR MSG_NOSIGNAL))
      then (Inl (Runtime_error ''Unsupported TCP send flags''), w)
      else (case get_socket fd (own w) of
        None \<Rightarrow> (Inr (invalid_socket_error fd w), w)
      | Some sock \<Rightarrow>
          if \<not> sk_connected sock then (Inr (- ENOTCONN), w)
          else if len = 0 then (Inr 0, w)
          else (case guest_in G buf len w of
                  None \<Rightarrow> (Inr (- EFAULT), w)
                | Some data \<Rightarrow> do_send_buffer fd data w)))"

section \<open>Receiving\<close>

definition do_recv :: "'m guest \<Rightarrow> int \<Rightarrow> u64 \<Rightarrow> nat \<Rightarrow> int \<Rightarrow> 'm ptmc \<Rightarrow> 'm net_result" where
  "do_recv G fd buf len flags w =
     (if has_flag flags (NOT (MSG_DONTWAIT OR MSG_PEEK))
      then (Inl (Runtime_error ''Unsupported TCP receive flags''), w)
      else (case get_socket fd (own w) of
        None \<Rightarrow> (Inr (invalid_socket_error fd w), w)
      | Some sock \<Rightarrow>
          if \<not> sk_connected sock then (Inr (- ENOTCONN), w)
          else (case map_of (tcp_connections (own w)) fd of
            None \<Rightarrow> (Inr (- ECONNRESET), w)
          | Some conn \<Rightarrow>
              if len = 0 then (Inr 0, w)
              else (case tc_recv_buffer conn of
                [] \<Rightarrow> (Inr (- EAGAIN), w)
              | data # rest \<Rightarrow>
                  if data = [] then (Inr 0, w)
                  else
                    (let to_copy = min len (length data)
                     in case guest_out G buf (take to_copy data) w of
                          (False, w) \<Rightarrow> (Inr (- EFAULT), w)
                        | (True, w) \<Rightarrow>
                            if has_flag flags MSG_PEEK then (Inr (int to_copy), w)
                            else
                              (let buffer = (if to_copy < length data then drop to_copy data # rest else rest)
                               in (Inr (int to_copy),
                                   set_own (put_connection fd (conn\<lparr>tc_recv_buffer := buffer\<rparr>) (own w)) w)))))))"

section \<open>Closing\<close>

definition forget_fd :: "int \<Rightarrow> sock_state \<Rightarrow> sock_state" where
  "forget_fd fd s =
     s\<lparr>epoll_instances := map (\<lambda>(epfd, i). (epfd, i\<lparr>ep_watched_fds := om_del fd (ep_watched_fds i)\<rparr>)) (epoll_instances s)\<rparr>"

definition mark_pending :: "u64 \<Rightarrow> socket \<Rightarrow> sock_state \<Rightarrow> sock_state" where
  "mark_pending key sock s =
     s\<lparr>sockets := map (\<lambda>(fd, l).
         (fd, if holds_pending key sock l
              then l\<lparr>sk_established_connections :=
                     (case map_of (sk_established_connections l) key of
                        None \<Rightarrow> sk_established_connections l
                      | Some c \<Rightarrow> om_put key (push_chunk [] c) (sk_established_connections l))\<rparr>
              else l)) (sockets s)\<rparr>"

definition notify_peer :: "u32 \<Rightarrow> socket \<Rightarrow> sock_state \<Rightarrow> sock_state" where
  "notify_peer local_addr sock s =
     (case om_find (\<lambda>fd remote. sk_connected remote \<and>
              s_addr (sk_peer_addr remote) = local_addr \<and>
              sin_port (sk_peer_addr remote) = sin_port (sk_local_addr sock) \<and>
              s_addr (sk_local_addr remote) = s_addr (sk_peer_addr sock) \<and>
              sin_port (sk_local_addr remote) = sin_port (sk_peer_addr sock)) (sockets s) of
        None \<Rightarrow> s
      | Some fd \<Rightarrow> (case map_of (tcp_connections s) fd of
                      None \<Rightarrow> s | Some c \<Rightarrow> put_connection fd (push_chunk [] c) s))"

definition notify_close :: "socket \<Rightarrow> 'm ptmc \<Rightarrow> 'm ptmc" where
  "notify_close sock w =
     (if sk_connected sock \<and> sk_type sock = SOCK_STREAM
      then
        (let local_addr = configured_addr w (pt_cursor w) (s_addr (sk_local_addr sock));
             key = endpoint_key local_addr (sin_port (sk_local_addr sock));
             w = w\<lparr>pt_sock_states := map (mark_pending key sock) (pt_sock_states w)\<rparr>
         in w\<lparr>pt_sock_states := map (notify_peer local_addr sock) (pt_sock_states w)\<rparr>)
      else w)"

definition sock_do_close :: "int \<Rightarrow> 'm ptmc \<Rightarrow> int \<times> 'm ptmc" where
  "sock_do_close fd w =
     (case map_of (sockets (own w)) fd of
        None \<Rightarrow> (- EBADF, w)
      | Some sock \<Rightarrow>
          (let w = notify_close sock w;
               s = own w;
               s = s\<lparr>udp_recv_buffers := om_del fd (udp_recv_buffers s),
                     tcp_connections := om_del fd (tcp_connections s), sockets := om_del fd (sockets s)\<rparr>
           in (0, set_own_fdm (release_fd fd (own_fdm w)) (set_own (forget_fd fd s) w))))"

end
