(* ===== verification/Sock_Udp.thy ===== *)
theory Sock_Udp
  imports Sock_Stream
begin

text \<open>
  Datagrams of \<open>SockState\<close> (\<open>src/src/subsys/net/sockstate.cpp\<close>): routing by node and port, the bounded
  receive buffers, and the choices by which the search postpones and reorders datagrams.
\<close>

section \<open>Sending\<close>

fun node_with_addr :: "u32 \<Rightarrow> int \<Rightarrow> string list \<Rightarrow> int" where
  "node_with_addr a i [] = - 1"
| "node_with_addr a i (s # rest) = (if inet_pton s = Some a then i else node_with_addr a (i + 1) rest)"

definition addr_to_node :: "sockaddr_in \<Rightarrow> 'm ptmc \<Rightarrow> int" where
  "addr_to_node a w =
     (if s_addr a = 0xff000001 \<or> s_addr a = 0 then int (pt_cursor w)
      else node_with_addr (s_addr a) 0 (pt_addrs w))"

abbreviation (input) MAX_UDP_BUFFER :: nat where "MAX_UDP_BUFFER \<equiv> 3"

definition udp_buffer :: "int \<Rightarrow> sock_state \<Rightarrow> udp_datagram list" where
  "udp_buffer fd s = (case map_of (udp_recv_buffers s) fd of None \<Rightarrow> [] | Some q \<Rightarrow> q)"

definition get_udp_buffer_size :: "int \<Rightarrow> sock_state \<Rightarrow> nat" where
  "get_udp_buffer_size fd s = (case map_of (udp_recv_buffers s) fd of None \<Rightarrow> 0 | Some q \<Rightarrow> length q)"

definition deliver_udp_datagram :: "nat \<Rightarrow> int \<Rightarrow> udp_datagram \<Rightarrow> 'm ptmc \<Rightarrow> 'm ptmc" where
  "deliver_udp_datagram node recv_fd dg w =
     (let q = udp_buffer recv_fd (pt_sock_states w ! node)
      in if MAX_UDP_BUFFER \<le> length q then consume_model_budget 1 w
         else on_node node (\<lambda>s. s\<lparr>udp_recv_buffers := om_put recv_fd (q @ [dg]) (udp_recv_buffers s)\<rparr>) w)"

definition udp_receiver :: "sockaddr_in \<Rightarrow> sock_state \<Rightarrow> int option" where
  "udp_receiver dest s =
     om_find (\<lambda>fd rs. sk_type rs = SOCK_DGRAM \<and> sk_bound rs \<and> sin_port (sk_local_addr rs) = sin_port dest \<and>
        (s_addr (sk_local_addr rs) = INADDR_ANY \<or> s_addr (sk_local_addr rs) = s_addr dest)) (sockets s)"

definition sendto_routed ::
  "'m guest \<Rightarrow> socket \<Rightarrow> u64 \<Rightarrow> nat \<Rightarrow> sockaddr_in \<Rightarrow> 'm ptmc \<Rightarrow> 'm net_result" where
  "sendto_routed G sock buf len dest w =
     (let node = addr_to_node dest w
      in if node < 0 then (Inr (- ENETUNREACH), w)
         else if sin_port dest = 0 then (Inr (- EINVAL), w)
         else (case guest_in G buf len w of
           None \<Rightarrow> (Inr (- EFAULT), w)
         | Some data \<Rightarrow>
             (case udp_receiver dest (pt_sock_states w ! nat node) of
                None \<Rightarrow> (Inr (int len), w)
              | Some recvfd \<Rightarrow>
                  (let port = (if sk_bound sock then sin_port (sk_local_addr sock) else 0);
                       a = s_addr (sk_local_addr sock);
                       source = (if a = INADDR_ANY then inet_pton (pt_addrs w ! pt_cursor w) else Some a)
                   in case source of
                        None \<Rightarrow> (Inr (- EADDRNOTAVAIL), w)
                      | Some a \<Rightarrow>
                          (Inr (int len),
                           deliver_udp_datagram (nat node) recvfd
                             \<lparr>ud_content = data, ud_from = \<lparr>sin_family = 2, sin_port = port, s_addr = a\<rparr>\<rparr> w)))))"

definition do_sendto ::
  "'m guest \<Rightarrow> int \<Rightarrow> u64 \<Rightarrow> nat \<Rightarrow> int \<Rightarrow> u64 \<Rightarrow> nat \<Rightarrow> 'm ptmc \<Rightarrow> 'm net_result" where
  "do_sendto G fd buf len flags dest_addr addrlen w =
     (if has_flag flags (NOT (MSG_DONTWAIT OR MSG_NOSIGNAL))
      then (Inl (Runtime_error ''Unsupported UDP send flags''), w)
      else (case get_socket fd (own w) of
        None \<Rightarrow> (Inr (invalid_socket_error fd w), w)
      | Some sock \<Rightarrow>
          if sk_type sock = SOCK_STREAM
          then
            if dest_addr \<noteq> 0 then (Inl (Runtime_error ''TCP sendto with explicit destination is unsupported''), w)
            else do_send G fd buf len flags w
          else if sk_type sock \<noteq> SOCK_DGRAM then (Inr (- EOPNOTSUPP), w)
          else if dest_addr \<noteq> 0
          then
            if addrlen < 16 then (Inr (- EINVAL), w)
            else (case guest_in G dest_addr 16 w of
                    None \<Rightarrow> (Inr (- EFAULT), w)
                  | Some bs \<Rightarrow>
                      if sin_family (sockaddr_of bs) \<noteq> 2 then (Inr (- EAFNOSUPPORT), w)
                      else sendto_routed G sock buf len (sockaddr_of bs) w)
          else if sk_connected sock then sendto_routed G sock buf len (sk_peer_addr sock) w
          else (Inr (- EDESTADDRREQ), w)))"

definition emu_send :: "'m guest \<Rightarrow> int \<Rightarrow> u64 \<Rightarrow> nat \<Rightarrow> int \<Rightarrow> 'm ptmc \<Rightarrow> 'm net_result" where
  "emu_send G sockfd buf len flags w =
     (case get_socket sockfd (own w) of
        None \<Rightarrow> (Inr (if is_allocated sockfd (own_fdm w) then - ENOTSOCK else - EBADF), w)
      | Some sock \<Rightarrow> if sk_type sock = SOCK_STREAM then do_send G sockfd buf len flags w
                     else do_sendto G sockfd buf len flags 0 0 w)"

section \<open>Receiving\<close>

text \<open>The copies of a chosen datagram to the caller: data, source address and its length.\<close>

definition recvfrom_copyout ::
  "'m guest \<Rightarrow> udp_datagram \<Rightarrow> u64 \<Rightarrow> nat \<Rightarrow> u64 \<Rightarrow> u64 \<Rightarrow> 'm ptmc \<Rightarrow> bool \<times> 'm ptmc" where
  "recvfrom_copyout G dg buf len src_addr addrlen w =
     (case guest_out G buf (take (min len (length (ud_content dg))) (ud_content dg)) w of
        (False, w) \<Rightarrow> (False, w)
      | (True, w) \<Rightarrow>
          if src_addr = 0 then (True, w)
          else (case guest_in G addrlen 4 w of
            None \<Rightarrow> (False, w)
          | Some bs \<Rightarrow>
              (case guest_out G src_addr (take (nat (min (le_int bs) 16)) (sockaddr_bytes (ud_from dg))) w of
                 (False, w) \<Rightarrow> (False, w)
               | (True, w) \<Rightarrow> guest_out G addrlen (le_bytes 4 16) w)))"

definition do_recvfrom_with_choice ::
  "'m guest \<Rightarrow> int \<Rightarrow> u64 \<Rightarrow> nat \<Rightarrow> int \<Rightarrow> u64 \<Rightarrow> u64 \<Rightarrow> int \<Rightarrow> 'm ptmc \<Rightarrow> 'm net_result" where
  "do_recvfrom_with_choice G fd buf len flags src_addr addrlen choice w =
     (if has_flag flags (NOT (MSG_DONTWAIT OR MSG_PEEK OR MSG_TRUNC))
      then (Inl (Runtime_error ''Unsupported UDP receive flags''), w)
      else (case get_socket fd (own w) of
        None \<Rightarrow> (Inr (invalid_socket_error fd w), w)
      | Some sock \<Rightarrow>
          if sk_type sock = SOCK_STREAM
          then
            if src_addr \<noteq> 0 \<or> addrlen \<noteq> 0
            then (Inl (Runtime_error ''TCP recvfrom source address is unsupported''), w)
            else do_recv G fd buf len flags w
          else if sk_type sock \<noteq> SOCK_DGRAM then (Inr (- EOPNOTSUPP), w)
          else
            (let q = udp_buffer fd (own w)
             in if q = [] then (Inr (- EAGAIN), w)
                else if choice < 0 \<or> 1 < choice then (Inr (- EAGAIN), w)
                else if choice = 1 \<and> length q = 1 then (Inr (- EAGAIN), consume_model_budget 1 w)
                else
                  (let i = (if choice = 1 \<and> 2 \<le> length q then 1 else 0);
                       dg = q ! i
                   in case recvfrom_copyout G dg buf len src_addr addrlen w of
                        (False, w) \<Rightarrow> (Inr (- EFAULT), w)
                      | (True, w) \<Rightarrow>
                          (let result = (if has_flag flags MSG_TRUNC then length (ud_content dg)
                                         else min len (length (ud_content dg)));
                               w = (if choice = 1 then consume_model_budget 1 w else w);
                               w = (if has_flag flags MSG_PEEK then w
                                    else set_own ((own w)\<lparr>udp_recv_buffers :=
                                           om_put fd (take i q @ drop (Suc i) q) (udp_recv_buffers (own w))\<rparr>) w)
                           in (Inr (int result), w))))))"

definition do_recvfrom ::
  "'m guest \<Rightarrow> int \<Rightarrow> u64 \<Rightarrow> nat \<Rightarrow> int \<Rightarrow> u64 \<Rightarrow> u64 \<Rightarrow> 'm ptmc \<Rightarrow> 'm net_result" where
  "do_recvfrom G fd buf len flags src_addr addrlen w =
     do_recvfrom_with_choice G fd buf len flags src_addr addrlen 0 w"

definition emu_recvfrom ::
  "'m guest \<Rightarrow> int \<Rightarrow> u64 \<Rightarrow> nat \<Rightarrow> int \<Rightarrow> u64 \<Rightarrow> u64 \<Rightarrow> 'm ptmc \<Rightarrow> 'm net_result" where
  "emu_recvfrom G sockfd buf len flags src_addr addrlen w =
     do_recvfrom_with_choice G sockfd buf len flags src_addr addrlen
       (if 0 < pt_n_choose w then pt_choose w else 0) w"

definition get_recvfrom_choices :: "int \<Rightarrow> sock_state \<Rightarrow> int" where
  "get_recvfrom_choices fd s = (if udp_buffer fd s = [] then 0 else 2)"

end
