(* ===== verification/Sock_Epoll.thy ===== *)
theory Sock_Epoll
  imports Sock_Udp
begin

text \<open>
  The epoll instances and the socket options of \<open>src/src/subsys/net/sockstate.cpp\<close>.
\<close>

section \<open>Epoll\<close>

abbreviation (input) EPOLLIN :: u32 where "EPOLLIN \<equiv> 0x1"
abbreviation (input) EPOLLOUT :: u32 where "EPOLLOUT \<equiv> 0x4"
abbreviation (input) EPOLLERR :: u32 where "EPOLLERR \<equiv> 0x8"
abbreviation (input) EPOLLHUP :: u32 where "EPOLLHUP \<equiv> 0x10"
abbreviation (input) EPOLLRDHUP :: u32 where "EPOLLRDHUP \<equiv> 0x2000"
abbreviation (input) EPOLLEXCLUSIVE :: u32 where "EPOLLEXCLUSIVE \<equiv> 0x10000000"
abbreviation (input) EPOLLWAKEUP :: u32 where "EPOLLWAKEUP \<equiv> 0x20000000"
abbreviation (input) EPOLLONESHOT :: u32 where "EPOLLONESHOT \<equiv> 0x40000000"
abbreviation (input) EPOLLET :: u32 where "EPOLLET \<equiv> 0x80000000"
abbreviation (input) EPOLL_CLOEXEC :: int where "EPOLL_CLOEXEC \<equiv> 0x80000"
abbreviation (input) EPOLL_CTL_ADD :: int where "EPOLL_CTL_ADD \<equiv> 1"
abbreviation (input) EPOLL_CTL_DEL :: int where "EPOLL_CTL_DEL \<equiv> 2"
abbreviation (input) EPOLL_CTL_MOD :: int where "EPOLL_CTL_MOD \<equiv> 3"

definition do_epoll_close :: "int \<Rightarrow> 'm ptmc \<Rightarrow> int \<times> 'm ptmc" where
  "do_epoll_close fd w =
     (if \<not> om_mem fd (epoll_instances (own w)) then (- EBADF, w)
      else (0, set_own_fdm (release_fd fd (own_fdm w))
             (set_own (forget_fd fd ((own w)\<lparr>epoll_instances := om_del fd (epoll_instances (own w))\<rparr>)) w)))"

definition do_epoll_create1 :: "int \<Rightarrow> 'm ptmc \<Rightarrow> 'm net_result" where
  "do_epoll_create1 flags w =
     (if has_flag flags (NOT EPOLL_CLOEXEC) then (Inr (- EINVAL), w)
      else (case allocate_fd FT_EPOLL O_RDWR (if flags \<noteq> 0 then FD_CLOEXEC else 0) (own_fdm w) of
              (Inl e, fdm) \<Rightarrow> (Inl e, set_own_fdm fdm w)
            | (Inr epfd, fdm) \<Rightarrow>
                if epfd < 0 then (Inr (- EMFILE), set_own_fdm fdm w)
                else (Inr epfd, set_own ((own w)\<lparr>epoll_instances :=
                        om_put epfd \<lparr>ep_fd = epfd, ep_watched_fds = []\<rparr> (epoll_instances (own w))\<rparr>)
                       (set_own_fdm fdm w))))"

definition do_epoll_create :: "int \<Rightarrow> 'm ptmc \<Rightarrow> 'm net_result" where
  "do_epoll_create n w = (if n \<le> 0 then (Inr (- EINVAL), w) else do_epoll_create1 0 w)"

definition set_watched :: "int \<Rightarrow> epoll_instance \<Rightarrow> (int, epoll_watch) omap \<Rightarrow> 'm ptmc \<Rightarrow> 'm ptmc" where
  "set_watched epfd i watched w =
     set_own ((own w)\<lparr>epoll_instances := om_put epfd (i\<lparr>ep_watched_fds := watched\<rparr>) (epoll_instances (own w))\<rparr>) w"

definition do_epoll_ctl :: "'m guest \<Rightarrow> int \<Rightarrow> int \<Rightarrow> int \<Rightarrow> u64 \<Rightarrow> 'm ptmc \<Rightarrow> 'm net_result" where
  "do_epoll_ctl G epfd op fd event w =
     (case map_of (epoll_instances (own w)) epfd of
        None \<Rightarrow> (Inr (- EBADF), w)
      | Some i \<Rightarrow>
          (let kind = get_fd_type fd (own_fdm w);
               watched = ep_watched_fds i
           in if \<not> is_allocated fd (own_fdm w) then (Inr (- EBADF), w)
              else if fd = epfd then (Inr (- EINVAL), w)
              else if kind = FT_EPOLL then (Inl (Runtime_error ''Nested epoll is unsupported''), w)
              else if kind \<noteq> FT_SOCKET \<and> kind \<noteq> FT_PIPE then (Inr (- EPERM), w)
              else if op \<noteq> EPOLL_CTL_ADD \<and> op \<noteq> EPOLL_CTL_MOD \<and> op \<noteq> EPOLL_CTL_DEL then (Inr (- EINVAL), w)
              else if op = EPOLL_CTL_ADD \<and> om_mem fd watched then (Inr (- EEXIST), w)
              else if op \<noteq> EPOLL_CTL_ADD \<and> \<not> om_mem fd watched then (Inr (- ENOENT), w)
              else if op = EPOLL_CTL_DEL then (Inr 0, set_watched epfd i (om_del fd watched) w)
              else (case guest_in G event 12 w of
                None \<Rightarrow> (Inr (- EFAULT), w)
              | Some bs \<Rightarrow>
                  (let events = word_of_int (le_int (take 4 bs)) :: u32;
                       data = word_of_int (le_int (drop 4 bs)) :: u64
                   in if events AND (EPOLLET OR EPOLLONESHOT OR EPOLLEXCLUSIVE OR EPOLLWAKEUP) \<noteq> 0
                      then (Inl (Runtime_error ''Unsupported epoll watch mode''), w)
                      else if events AND NOT (EPOLLIN OR EPOLLOUT OR EPOLLERR OR EPOLLHUP OR EPOLLRDHUP) \<noteq> 0
                      then (Inl (Runtime_error ''Unsupported epoll readiness mask''), w)
                      else (Inr 0, set_watched epfd i (om_put fd \<lparr>ew_events = events, ew_data = data\<rparr> watched) w)))))"

definition flag_if :: "bool \<Rightarrow> u32 \<Rightarrow> u32" where
  "flag_if b f = (if b then f else 0)"

definition socket_events :: "sock_state \<Rightarrow> int \<Rightarrow> socket \<Rightarrow> u32" where
  "socket_events s fd k =
     (if sk_type k = SOCK_DGRAM then flag_if (get_udp_buffer_size fd s \<noteq> 0) EPOLLIN OR EPOLLOUT
      else if sk_listening k then flag_if (sk_pending_connections k \<noteq> []) EPOLLIN
      else if sk_connected k
      then (case map_of (tcp_connections s) fd of
              None \<Rightarrow> 0
            | Some c \<Rightarrow>
                (let queue = tc_recv_buffer c
                 in flag_if (queue \<noteq> []) EPOLLIN OR flag_if (queue \<noteq> [] \<and> last queue = []) EPOLLRDHUP OR EPOLLOUT))
      else 0)"

definition pipe_events :: "fs_state \<Rightarrow> int \<Rightarrow> u32" where
  "pipe_events fs fd =
     (case map_of (pipe_fds fs) fd of
        None \<Rightarrow> 0
      | Some end_id \<Rightarrow>
          (case map_of (pipes fs) \<bar>end_id\<bar> of
             None \<Rightarrow> 0
           | Some p \<Rightarrow>
               if 0 < end_id
               then flag_if (pi_buffer p \<noteq> [] \<or> pi_write_closed p) EPOLLIN OR flag_if (pi_write_closed p) EPOLLHUP
               else if pi_read_closed p then EPOLLERR
               else flag_if (int (length (pi_buffer p)) < pipe_capacity) EPOLLOUT))"

definition ready_events :: "sock_state \<Rightarrow> fs_state \<Rightarrow> int \<Rightarrow> u32" where
  "ready_events s fs fd =
     (case get_socket fd s of Some k \<Rightarrow> socket_events s fd k | None \<Rightarrow> pipe_events fs fd)"

definition watch_ready :: "sock_state \<Rightarrow> fs_state \<Rightarrow> int \<Rightarrow> epoll_watch \<Rightarrow> u32" where
  "watch_ready s fs fd watch = ready_events s fs fd AND (ew_events watch OR EPOLLERR OR EPOLLHUP)"

definition epoll_ready :: "sock_state \<Rightarrow> fs_state \<Rightarrow> int \<Rightarrow> bool" where
  "epoll_ready s fs epfd \<longleftrightarrow>
     (case map_of (epoll_instances s) epfd of
        None \<Rightarrow> True
      | Some i \<Rightarrow> list_ex (\<lambda>(fd, watch). watch_ready s fs fd watch \<noteq> 0) (ep_watched_fds i))"

fun epoll_collect ::
  "(int \<Rightarrow> epoll_watch \<Rightarrow> u32) \<Rightarrow> int \<Rightarrow> (u32 \<times> u64) list \<Rightarrow> (int \<times> epoll_watch) list \<Rightarrow> (u32 \<times> u64) list" where
  "epoll_collect ready maxevents output [] = output"
| "epoll_collect ready maxevents output ((fd, watch) # rest) =
     (if maxevents \<le> int (length output) then output
      else if ready fd watch \<noteq> 0 then epoll_collect ready maxevents (output @ [(ready fd watch, ew_data watch)]) rest
      else epoll_collect ready maxevents output rest)"

definition epoll_event_bytes :: "u32 \<times> u64 \<Rightarrow> byte list" where
  "epoll_event_bytes = (\<lambda>(events, data). le_bytes 4 (uint events) @ le_bytes 8 (uint data))"

definition do_epoll_wait :: "'m guest \<Rightarrow> int \<Rightarrow> u64 \<Rightarrow> int \<Rightarrow> int \<Rightarrow> 'm ptmc \<Rightarrow> int \<times> 'm ptmc" where
  "do_epoll_wait G epfd events maxevents timeout w =
     (case map_of (epoll_instances (own w)) epfd of
        None \<Rightarrow> (- EBADF, w)
      | Some i \<Rightarrow>
          if maxevents \<le> 0 \<or> INT_MAX div 12 < maxevents then (- EINVAL, w)
          else
            (let output = epoll_collect (watch_ready (own w) (pt_fs_states w ! pt_cursor w)) maxevents []
                   (ep_watched_fds i)
             in case guest_out G events (concat (map epoll_event_bytes output)) w of
                  (False, w) \<Rightarrow> (- EFAULT, w)
                | (True, w) \<Rightarrow> (int (length output), w)))"

definition emu_epoll_pwait ::
  "'m guest \<Rightarrow> int \<Rightarrow> u64 \<Rightarrow> int \<Rightarrow> int \<Rightarrow> u64 \<Rightarrow> 'm ptmc \<Rightarrow> 'm net_result" where
  "emu_epoll_pwait G epfd events maxevents timeout sigmask w =
     (if sigmask \<noteq> 0 then (Inl (Runtime_error ''epoll_pwait signal masks are unsupported''), w)
      else (case do_epoll_wait G epfd events maxevents timeout w of (n, w) \<Rightarrow> (Inr n, w)))"

definition le_int64 :: "byte list \<Rightarrow> int" where
  "le_int64 bs = sint (word_of_int (le_int bs) :: u64)"

definition timeout_ms_of :: "int \<Rightarrow> int \<Rightarrow> int" where
  "timeout_ms_of sec nsec =
     (if INT_MAX div 1000 < sec then INT_MAX else min INT_MAX (sec * 1000 + (nsec + 999999) div 1000000))"

definition emu_epoll_pwait2 ::
  "'m guest \<Rightarrow> int \<Rightarrow> u64 \<Rightarrow> int \<Rightarrow> u64 \<Rightarrow> u64 \<Rightarrow> 'm ptmc \<Rightarrow> 'm net_result" where
  "emu_epoll_pwait2 G epfd events maxevents timeout sigmask w =
     (let wait = (\<lambda>ms. case do_epoll_wait G epfd events maxevents ms w of (n, w) \<Rightarrow> (Inr n, w))
      in if sigmask \<noteq> 0 then (Inl (Runtime_error ''epoll_pwait2 signal masks are unsupported''), w)
         else if timeout = 0 then wait (- 1)
         else (case guest_in G timeout 16 w of
                 None \<Rightarrow> (Inr (- EFAULT), w)
               | Some bs \<Rightarrow>
                   (let sec = le_int64 (take 8 bs); nsec = le_int64 (drop 8 bs)
                    in if sec < 0 \<or> nsec < 0 \<or> 1000000000 \<le> nsec then (Inr (- EINVAL), w)
                       else wait (timeout_ms_of sec nsec))))"

section \<open>Options\<close>

abbreviation (input) SOL_SOCKET :: int where "SOL_SOCKET \<equiv> 1"
abbreviation (input) SO_REUSEADDR :: int where "SO_REUSEADDR \<equiv> 2"
abbreviation (input) SO_TYPE :: int where "SO_TYPE \<equiv> 3"
abbreviation (input) SO_ERROR :: int where "SO_ERROR \<equiv> 4"
abbreviation (input) SO_KEEPALIVE :: int where "SO_KEEPALIVE \<equiv> 9"
abbreviation (input) SO_ACCEPTCONN :: int where "SO_ACCEPTCONN \<equiv> 30"
abbreviation (input) SO_PROTOCOL :: int where "SO_PROTOCOL \<equiv> 38"
abbreviation (input) SO_DOMAIN :: int where "SO_DOMAIN \<equiv> 39"
abbreviation (input) TCP_NODELAY :: int where "TCP_NODELAY \<equiv> 1"
abbreviation (input) TCP_KEEPIDLE :: int where "TCP_KEEPIDLE \<equiv> 4"
abbreviation (input) TCP_KEEPINTVL :: int where "TCP_KEEPINTVL \<equiv> 5"
abbreviation (input) TCP_KEEPCNT :: int where "TCP_KEEPCNT \<equiv> 6"

text \<open>What \<open>setsockopt\<close> selects: a flag of the socket, or a number with its maximum.\<close>

datatype setting = Flag "bool \<Rightarrow> socket \<Rightarrow> socket" | Number "int \<Rightarrow> socket \<Rightarrow> socket" int

definition setsockopt_setting :: "int \<Rightarrow> int \<Rightarrow> socket \<Rightarrow> setting option" where
  "setsockopt_setting level optname k =
     (if level = SOL_SOCKET \<and> optname = SO_REUSEADDR then Some (Flag (\<lambda>b k. k\<lparr>sk_reuse_address := b\<rparr>))
      else if level = SOL_SOCKET \<and> optname = SO_KEEPALIVE then Some (Flag (\<lambda>b k. k\<lparr>sk_keep_alive := b\<rparr>))
      else if level = IPPROTO_TCP \<and> optname = TCP_NODELAY \<and> sk_type k = SOCK_STREAM
      then Some (Flag (\<lambda>b k. k\<lparr>sk_no_delay := b\<rparr>))
      else if level = IPPROTO_TCP \<and> sk_type k = SOCK_STREAM
      then
        if optname = TCP_KEEPIDLE then Some (Number (\<lambda>n k. k\<lparr>sk_keep_idle := n\<rparr>) 32767)
        else if optname = TCP_KEEPINTVL then Some (Number (\<lambda>n k. k\<lparr>sk_keep_interval := n\<rparr>) 32767)
        else if optname = TCP_KEEPCNT then Some (Number (\<lambda>n k. k\<lparr>sk_keep_count := n\<rparr>) 127)
        else None
      else None)"

definition le_int32 :: "byte list \<Rightarrow> int" where
  "le_int32 bs = sint (word_of_int (le_int bs) :: u32)"

definition emu_setsockopt :: "'m guest \<Rightarrow> int \<Rightarrow> int \<Rightarrow> int \<Rightarrow> u64 \<Rightarrow> nat \<Rightarrow> 'm ptmc \<Rightarrow> 'm net_result" where
  "emu_setsockopt G sockfd level optname optval optlen w =
     (case get_socket sockfd (own w) of
        None \<Rightarrow> (Inr (if is_allocated sockfd (own_fdm w) then - ENOTSOCK else - EBADF), w)
      | Some k \<Rightarrow>
          (case setsockopt_setting level optname k of
             None \<Rightarrow> (Inl (Runtime_error ''Unsupported setsockopt option''), w)
           | Some opt \<Rightarrow>
               if optlen < 4 then (Inr (- EINVAL), w)
               else (case guest_in G optval 4 w of
                 None \<Rightarrow> (Inr (- EFAULT), w)
               | Some bs \<Rightarrow>
                   (case opt of
                      Number f maximum \<Rightarrow>
                        if le_int32 bs < 1 \<or> maximum < le_int32 bs then (Inr (- EINVAL), w)
                        else (Inr 0, set_own (put_socket sockfd (f (le_int32 bs) k) (own w)) w)
                    | Flag f \<Rightarrow> (Inr 0, set_own (put_socket sockfd (f (le_int32 bs \<noteq> 0) k) (own w)) w)))))"

definition sockopt_value :: "int \<Rightarrow> int \<Rightarrow> socket \<Rightarrow> exn + int" where
  "sockopt_value level optname k =
     (if level = IPPROTO_TCP \<and> sk_type k = SOCK_STREAM
      then
        if optname = TCP_NODELAY then Inr (of_bool (sk_no_delay k))
        else if optname = TCP_KEEPIDLE then Inr (sk_keep_idle k)
        else if optname = TCP_KEEPINTVL then Inr (sk_keep_interval k)
        else if optname = TCP_KEEPCNT then Inr (sk_keep_count k)
        else Inl (Runtime_error ''Unsupported getsockopt option'')
      else if level = SOL_SOCKET
      then
        if optname = SO_REUSEADDR then Inr (of_bool (sk_reuse_address k))
        else if optname = SO_KEEPALIVE then Inr (of_bool (sk_keep_alive k))
        else if optname = SO_ACCEPTCONN then Inr (of_bool (sk_listening k))
        else if optname = SO_TYPE then Inr (sk_type k)
        else if optname = SO_DOMAIN then Inr (sk_domain k)
        else if optname = SO_PROTOCOL then Inr (sk_protocol k)
        else if optname = SO_ERROR then Inr 0
        else Inl (Runtime_error ''Unsupported getsockopt option'')
      else Inl (Runtime_error ''Unsupported getsockopt level/option''))"

definition emu_getsockopt :: "'m guest \<Rightarrow> int \<Rightarrow> int \<Rightarrow> int \<Rightarrow> u64 \<Rightarrow> u64 \<Rightarrow> 'm ptmc \<Rightarrow> 'm net_result" where
  "emu_getsockopt G sockfd level optname optval optlen w =
     (case get_socket sockfd (own w) of
        None \<Rightarrow> (Inr (if is_allocated sockfd (own_fdm w) then - ENOTSOCK else - EBADF), w)
      | Some k \<Rightarrow>
          (case sockopt_value level optname k of
             Inl e \<Rightarrow> (Inl e, w)
           | Inr value \<Rightarrow>
               (case guest_in G optlen 4 w of
                  None \<Rightarrow> (Inr (- EFAULT), w)
                | Some bs \<Rightarrow>
                    if INT_MAX < le_int bs then (Inr (- EINVAL), w)
                    else
                      (let actual = min (le_int bs) 4
                       in case guest_out G optval (take (nat actual) (le_bytes 4 (uint (word_of_int value :: u32)))) w of
                            (False, w) \<Rightarrow> (Inr (- EFAULT), w)
                          | (True, w) \<Rightarrow>
                              (case guest_out G optlen (le_bytes 4 actual) w of
                                 (False, w) \<Rightarrow> (Inr (- EFAULT), w)
                               | (True, w) \<Rightarrow> (Inr 0, w))))))"

end
