(* ===== verification/Sock_Inv.thy ===== *)
theory Sock_Inv
  imports Sock_Epoll
begin

text \<open>
  The invariant of the emulated network, and that every operation of \<open>SockState\<close> keeps it: the tables
  of each process are ordered and agree with its descriptors, a socket has a connection exactly when it
  is connected, and the queue of a listener names exactly the connections that wait for it.
\<close>

section \<open>The invariant\<close>

definition socket_ok :: "sock_state \<Rightarrow> int \<Rightarrow> socket \<Rightarrow> bool" where
  "socket_ok s fd k \<longleftrightarrow>
     sk_fd k = fd \<and> (sk_type k = SOCK_STREAM \<or> sk_type k = SOCK_DGRAM) \<and>
     (sk_connected k \<longleftrightarrow> om_mem fd (tcp_connections s)) \<and>
     (sk_connected k \<or> sk_listening k \<longrightarrow> sk_type k = SOCK_STREAM \<and> sk_bound k) \<and>
     om_ok (sk_established_connections k) \<and> distinct (sk_pending_connections k) \<and>
     (\<forall>key. key \<in> set (sk_pending_connections k) \<longleftrightarrow> om_mem key (sk_established_connections k)) \<and>
     (sk_connected k \<longrightarrow> s_addr (sk_local_addr k) \<noteq> INADDR_ANY) \<and>
     (\<forall>key c. map_of (sk_established_connections k) key = Some c \<longrightarrow>
        key = endpoint_key (s_addr (tc_local_addr c)) (sin_port (tc_local_addr c)) \<and> s_addr (tc_peer_addr c) \<noteq> INADDR_ANY)"

definition watchable :: "fd_manager \<Rightarrow> int \<Rightarrow> bool" where
  "watchable m fd \<longleftrightarrow> get_fd_type fd m = FT_SOCKET \<or> get_fd_type fd m = FT_PIPE"

definition watches_ok :: "(int, epoll_instance) omap \<Rightarrow> fd_manager \<Rightarrow> bool" where
  "watches_ok instances m \<longleftrightarrow>
     (\<forall>epfd i. map_of instances epfd = Some i \<longrightarrow> om_ok (ep_watched_fds i) \<and>
        (\<forall>fd. om_mem fd (ep_watched_fds i) \<longrightarrow> watchable m fd))"

definition node_ok :: "sock_state \<Rightarrow> fd_manager \<Rightarrow> bool" where
  "node_ok s m \<longleftrightarrow>
     fd_ok m \<and> om_ok (sockets s) \<and> om_ok (tcp_connections s) \<and> om_ok (udp_recv_buffers s) \<and>
     om_ok (epoll_instances s) \<and>
     (\<forall>fd k. map_of (sockets s) fd = Some k \<longrightarrow> socket_ok s fd k) \<and>
     (\<forall>fd. om_mem fd (sockets s) \<longleftrightarrow> get_fd_type fd m = FT_SOCKET) \<and>
     (\<forall>fd. om_mem fd (epoll_instances s) \<longleftrightarrow> get_fd_type fd m = FT_EPOLL) \<and>
     (\<forall>fd. om_mem fd (tcp_connections s) \<longrightarrow> om_mem fd (sockets s)) \<and>
     (\<forall>fd q. map_of (udp_recv_buffers s) fd = Some q \<longrightarrow> om_mem fd (sockets s) \<and> length q \<le> MAX_UDP_BUFFER) \<and>
     watches_ok (epoll_instances s) m"

definition net_ok :: "'m ptmc \<Rightarrow> bool" where
  "net_ok w \<longleftrightarrow>
     pt_cursor w < length (pt_sock_states w) \<and> length (pt_fd_managers w) = length (pt_sock_states w) \<and>
     length (pt_addrs w) = length (pt_sock_states w) \<and> (\<forall>a \<in> set (pt_addrs w). inet_pton a \<noteq> Some INADDR_ANY) \<and>
     (\<forall>n < length (pt_sock_states w). node_ok (pt_sock_states w ! n) (pt_fd_managers w ! n))"

lemma node_okD:
  assumes "node_ok s m"
  shows "fd_ok m" "om_ok (sockets s)" "om_ok (tcp_connections s)" "om_ok (udp_recv_buffers s)" "om_ok (epoll_instances s)"
    "\<And>fd k. map_of (sockets s) fd = Some k \<Longrightarrow> socket_ok s fd k"
    "\<And>fd. om_mem fd (sockets s) \<longleftrightarrow> get_fd_type fd m = FT_SOCKET"
    "\<And>fd. om_mem fd (epoll_instances s) \<longleftrightarrow> get_fd_type fd m = FT_EPOLL"
    "\<And>fd. om_mem fd (tcp_connections s) \<Longrightarrow> om_mem fd (sockets s)"
    "\<And>fd q. map_of (udp_recv_buffers s) fd = Some q \<Longrightarrow> om_mem fd (sockets s) \<and> length q \<le> MAX_UDP_BUFFER"
    "watches_ok (epoll_instances s) m"
  using assms unfolding node_ok_def by blast+

lemma net_ok_own: "net_ok w \<Longrightarrow> node_ok (own w) (own_fdm w)"
  by (simp add: net_ok_def own_def own_fdm_def)

lemma net_ok_set_own: "net_ok w \<Longrightarrow> node_ok s (own_fdm w) \<Longrightarrow> net_ok (set_own s w)"
  by (auto simp: net_ok_def set_own_def own_fdm_def nth_list_update)

lemma net_ok_set_both: "net_ok w \<Longrightarrow> node_ok s m \<Longrightarrow> net_ok (set_own s (set_own_fdm m w))"
  by (auto simp: net_ok_def set_own_def set_own_fdm_def nth_list_update)

lemma set_own_fdm_set_own: "set_own_fdm m (set_own s w) = set_own s (set_own_fdm m w)"
  by (simp add: set_own_def set_own_fdm_def)

lemma set_own_fdm_id: "net_ok w \<Longrightarrow> set_own_fdm (own_fdm w) w = w"
  by (simp add: net_ok_def set_own_fdm_def own_fdm_def)

lemma own_set_own: "net_ok w \<Longrightarrow> own (set_own s w) = s"
  by (simp add: net_ok_def set_own_def own_def)

lemma own_set_own_fdm [simp]: "own (set_own_fdm m w) = own w" "own_fdm (set_own s w) = own_fdm w"
  by (simp_all add: set_own_fdm_def set_own_def own_def own_fdm_def)

lemma net_ok_memory [simp]: "net_ok (w\<lparr>pt_memory := m\<rparr>) = net_ok w"
  by (simp add: net_ok_def)

lemma net_ok_budget [simp]: "net_ok (consume_model_budget c w) = net_ok w"
  by (simp add: net_ok_def consume_model_budget_def)

lemma net_ok_on_node:
  assumes "net_ok w" "\<And>s m. s = pt_sock_states w ! n \<Longrightarrow> node_ok s m \<Longrightarrow> node_ok (f s) m"
  shows "net_ok (on_node n f w)"
  using assms unfolding net_ok_def on_node_def
  by (cases "n < length (pt_sock_states w)") (simp_all add: nth_list_update list_update_beyond)

section \<open>Changes of one process\<close>

lemma node_okI:
  assumes "fd_ok m" "om_ok (sockets s)" "om_ok (tcp_connections s)" "om_ok (udp_recv_buffers s)" "om_ok (epoll_instances s)"
    "\<And>fd k. map_of (sockets s) fd = Some k \<Longrightarrow> socket_ok s fd k"
    "\<And>fd. om_mem fd (sockets s) \<longleftrightarrow> get_fd_type fd m = FT_SOCKET"
    "\<And>fd. om_mem fd (epoll_instances s) \<longleftrightarrow> get_fd_type fd m = FT_EPOLL"
    "\<And>fd. om_mem fd (tcp_connections s) \<Longrightarrow> om_mem fd (sockets s)"
    "\<And>fd q. map_of (udp_recv_buffers s) fd = Some q \<Longrightarrow> om_mem fd (sockets s) \<and> length q \<le> MAX_UDP_BUFFER"
    "watches_ok (epoll_instances s) m"
  shows "node_ok s m"
  using assms unfolding node_ok_def by blast

declare om_mem_put [simp] om_mem_del [simp] om_put_put [simp]

lemma watches_ok_mono: "watches_ok e m \<Longrightarrow> (\<And>fd. watchable m fd \<Longrightarrow> watchable m' fd) \<Longrightarrow> watches_ok e m'"
  by (auto simp: watches_ok_def)

lemma watches_ok_put:
  "watches_ok e m \<Longrightarrow> om_ok (ep_watched_fds i) \<Longrightarrow> (\<And>fd. om_mem fd (ep_watched_fds i) \<Longrightarrow> watchable m fd) \<Longrightarrow>
    watches_ok (om_put epfd i e) m"
  by (simp add: watches_ok_def)

text \<open>A socket or a connection changed in place.\<close>

lemma node_ok_put_socket:
  assumes "node_ok s m" "map_of (sockets s) fd = Some k" "socket_ok s fd k'"
  shows "node_ok (put_socket fd k' s) m"
proof -
  note D = node_okD [OF assms(1)]
  have fd: "get_fd_type fd m = FT_SOCKET" using D(7) om_memI [OF assms(2)] by blast
  have other: "socket_ok (put_socket fd k' s) = socket_ok s" by (simp add: fun_eq_iff socket_ok_def put_socket_def)
  show ?thesis
  proof (rule node_okI)
    show "socket_ok (put_socket fd k' s) x y" if "map_of (sockets (put_socket fd k' s)) x = Some y" for x y
      using that D(6) assms(3) unfolding other by (auto simp: put_socket_def split: if_splits)
  qed (use D fd in \<open>auto simp: put_socket_def\<close>)
qed

lemma node_ok_put_connection:
  assumes "node_ok s m" "om_mem fd (tcp_connections s)"
  shows "node_ok (put_connection fd c s) m"
proof -
  note D = node_okD [OF assms(1)]
  have other: "socket_ok (put_connection fd c s) = socket_ok s"
    using assms(2) by (auto simp: fun_eq_iff socket_ok_def put_connection_def)
  show ?thesis
  proof (rule node_okI)
    show "socket_ok (put_connection fd c s) x y" if "map_of (sockets (put_connection fd c s)) x = Some y" for x y
      using that D(6) unfolding other by (simp add: put_connection_def)
  qed (use D assms(2) in \<open>auto simp: put_connection_def\<close>)
qed

text \<open>A socket that becomes connected.\<close>

lemma node_ok_connected:
  assumes "node_ok s m" "map_of (sockets s) fd = Some k" "sk_connected k'" "socket_ok s fd (k'\<lparr>sk_connected := sk_connected k\<rparr>)"
    "sk_type k' = SOCK_STREAM" "sk_bound k'" "s_addr (sk_local_addr k') \<noteq> INADDR_ANY"
  shows "node_ok (put_connection fd c (put_socket fd k' s)) m"
proof -
  note D = node_okD [OF assms(1)]
  have fd: "get_fd_type fd m = FT_SOCKET" using D(7) om_memI [OF assms(2)] by blast
  show ?thesis
  proof (rule node_okI)
    show "socket_ok (put_connection fd c (put_socket fd k' s)) x y"
      if "map_of (sockets (put_connection fd c (put_socket fd k' s))) x = Some y" for x y
      using that D(6) [of x y] assms(3-7) by (auto simp: put_connection_def put_socket_def socket_ok_def split: if_splits)
  qed (use D fd in \<open>auto simp: put_connection_def put_socket_def\<close>)
qed

text \<open>A descriptor added with its payload, changed kinds of other descriptors, and a descriptor removed.\<close>

lemma node_ok_kinds:
  assumes "node_ok s m" "fd_ok m'"
    "\<And>fd. get_fd_type fd m' = FT_SOCKET \<longleftrightarrow> get_fd_type fd m = FT_SOCKET"
    "\<And>fd. get_fd_type fd m' = FT_EPOLL \<longleftrightarrow> get_fd_type fd m = FT_EPOLL"
    "\<And>fd. get_fd_type fd m = FT_PIPE \<Longrightarrow> get_fd_type fd m' = FT_PIPE"
  shows "node_ok s m'"
proof -
  note D = node_okD [OF assms(1)]
  have "watchable m fd \<Longrightarrow> watchable m' fd" for fd using assms(3,5) by (auto simp: watchable_def)
  then show ?thesis by (intro node_okI) (use D assms(2-4) in \<open>auto intro: watches_ok_mono\<close>)
qed

lemma node_ok_new_socket:
  assumes "node_ok s m" "fd_ok m'" "get_fd_type fd m = FT_UNKNOWN" "get_fd_type fd m' = FT_SOCKET"
    "\<And>x. x \<noteq> fd \<Longrightarrow> get_fd_type x m' = get_fd_type x m" "socket_ok s fd k"
  shows "node_ok (put_socket fd k s) m'"
proof -
  note D = node_okD [OF assms(1)]
  have other: "socket_ok (put_socket fd k s) = socket_ok s" by (simp add: fun_eq_iff socket_ok_def put_socket_def)
  have kinds: "get_fd_type x m' = FT_SOCKET \<longleftrightarrow> x = fd \<or> get_fd_type x m = FT_SOCKET"
    "get_fd_type x m' = FT_EPOLL \<longleftrightarrow> get_fd_type x m = FT_EPOLL"
    "watchable m x \<Longrightarrow> watchable m' x" for x
    using assms(3-5) by (cases "x = fd"; simp add: watchable_def)+
  show ?thesis
  proof (rule node_okI)
    show "socket_ok (put_socket fd k s) x y" if "map_of (sockets (put_socket fd k s)) x = Some y" for x y
      using that D(6) assms(6) unfolding other by (auto simp: put_socket_def split: if_splits)
  qed (use D(1-5,7-11) assms(2) kinds in \<open>auto simp: put_socket_def intro: watches_ok_mono\<close>)
qed

lemma node_ok_new_epoll:
  assumes "node_ok s m" "fd_ok m'" "get_fd_type fd m = FT_UNKNOWN" "get_fd_type fd m' = FT_EPOLL"
    "\<And>x. x \<noteq> fd \<Longrightarrow> get_fd_type x m' = get_fd_type x m"
  shows "node_ok (s\<lparr>epoll_instances := om_put fd \<lparr>ep_fd = fd, ep_watched_fds = []\<rparr> (epoll_instances s)\<rparr>) m'"
proof -
  note D = node_okD [OF assms(1)]
  have kinds: "get_fd_type x m' = FT_EPOLL \<longleftrightarrow> x = fd \<or> get_fd_type x m = FT_EPOLL"
    "get_fd_type x m' = FT_SOCKET \<longleftrightarrow> get_fd_type x m = FT_SOCKET"
    "watchable m x \<Longrightarrow> watchable m' x" for x
    using assms(3-5) by (cases "x = fd"; simp add: watchable_def)+
  show ?thesis
  proof (rule node_okI)
    show "socket_ok (s\<lparr>epoll_instances := e\<rparr>) x y" if "map_of (sockets (s\<lparr>epoll_instances := e\<rparr>)) x = Some y" for x y e
      using that D(6) by (simp add: socket_ok_def)
  qed (use D(1-5,7-11) assms(2) kinds in \<open>auto intro!: watches_ok_put intro: watches_ok_mono simp: om_mem_def [of _ "[]"]\<close>)
qed

lemma node_ok_watched:
  assumes "node_ok s m" "map_of (epoll_instances s) epfd = Some i" "om_ok watched"
    "\<And>fd. om_mem fd watched \<Longrightarrow> watchable m fd"
  shows "node_ok (s\<lparr>epoll_instances := om_put epfd (i\<lparr>ep_watched_fds := watched\<rparr>) (epoll_instances s)\<rparr>) m"
proof -
  note D = node_okD [OF assms(1)]
  have epfd: "get_fd_type epfd m = FT_EPOLL" using D(8) om_memI [OF assms(2)] by blast
  show ?thesis
  proof (rule node_okI)
    show "socket_ok (s\<lparr>epoll_instances := e\<rparr>) x y" if "map_of (sockets (s\<lparr>epoll_instances := e\<rparr>)) x = Some y" for x y e
      using that D(6) by (simp add: socket_ok_def)
  qed (use D(1-5,7-11) epfd assms(3,4) in \<open>auto intro!: watches_ok_put\<close>)
qed

lemma node_ok_udp:
  assumes "node_ok s m" "om_mem fd (sockets s)" "length q \<le> MAX_UDP_BUFFER"
  shows "node_ok (s\<lparr>udp_recv_buffers := om_put fd q (udp_recv_buffers s)\<rparr>) m"
proof -
  note D = node_okD [OF assms(1)]
  show ?thesis
  proof (rule node_okI)
    show "socket_ok (s\<lparr>udp_recv_buffers := e\<rparr>) x y" if "map_of (sockets (s\<lparr>udp_recv_buffers := e\<rparr>)) x = Some y" for x y e
      using that D(6) by (simp add: socket_ok_def)
  qed (use D assms(2,3) in \<open>auto split: if_splits\<close>)
qed

lemma map_of_forget: "map_of (epoll_instances (forget_fd fd s)) =
    (\<lambda>epfd. map_option (\<lambda>i. i\<lparr>ep_watched_fds := om_del fd (ep_watched_fds i)\<rparr>) (map_of (epoll_instances s) epfd))"
  by (simp add: forget_fd_def map_of_map fun_eq_iff)

lemma om_ok_forget: "om_ok (epoll_instances (forget_fd fd s)) = om_ok (epoll_instances s)"
  by (simp add: forget_fd_def om_ok_def comp_def case_prod_unfold)

lemma forget_fields [simp]:
  "sockets (forget_fd fd s) = sockets s" "tcp_connections (forget_fd fd s) = tcp_connections s"
  "udp_recv_buffers (forget_fd fd s) = udp_recv_buffers s"
  by (simp_all add: forget_fd_def)

text \<open>
  Closing: the payload of the descriptor is gone from every table, then the descriptor itself. Pipes
  and files have no payload here.
\<close>

lemma node_ok_removed:
  assumes "node_ok s m"
    and "\<And>x. om_mem x (sockets s') \<longleftrightarrow> x \<noteq> fd \<and> om_mem x (sockets s)" "om_ok (sockets s')"
    and "\<And>x k. map_of (sockets s') x = Some k \<Longrightarrow> map_of (sockets s) x = Some k"
    and "tcp_connections s' = om_del fd (tcp_connections s)" "udp_recv_buffers s' = om_del fd (udp_recv_buffers s)"
    and "epoll_instances s' = om_del fd (epoll_instances s)"
  shows "node_ok (forget_fd fd s') (release_fd fd m)"
proof -
  note D = node_okD [OF assms(1)]
  show ?thesis
  proof (rule node_okI)
    show "socket_ok (forget_fd fd s') x y" if "map_of (sockets (forget_fd fd s')) x = Some y" for x y
    proof -
      have y: "map_of (sockets s') x = Some y" using that by simp
      have "x \<noteq> fd" "map_of (sockets s) x = Some y" using om_memI [OF y] assms(2) [of x] assms(4) [OF y] by simp_all
      with D(6) [of x y] show ?thesis by (simp add: socket_ok_def assms(5))
    qed
    show "om_ok (epoll_instances (forget_fd fd s'))" using D(5) by (simp add: om_ok_forget assms(7))
    show "om_mem x (epoll_instances (forget_fd fd s')) \<longleftrightarrow> get_fd_type x (release_fd fd m) = FT_EPOLL" for x
      using D(8) [of x] by (auto simp: om_mem_def map_of_forget assms(7) fdm.kind_release)
    show "watches_ok (epoll_instances (forget_fd fd s')) (release_fd fd m)"
    proof -
      have "watchable (release_fd fd m) x \<longleftrightarrow> x \<noteq> fd \<and> watchable m x" for x by (simp add: watchable_def fdm.kind_release)
      then show ?thesis using D(11) by (auto simp: watches_ok_def map_of_forget assms(7))
    qed
    show "om_mem x (sockets (forget_fd fd s')) \<longleftrightarrow> get_fd_type x (release_fd fd m) = FT_SOCKET" for x
      using D(7) [of x] by (simp add: assms(2) fdm.kind_release)
    show "om_mem x (tcp_connections (forget_fd fd s')) \<Longrightarrow> om_mem x (sockets (forget_fd fd s'))" for x
      using D(9) [of x] by (simp add: assms(2,5))
    show "om_mem x (sockets (forget_fd fd s')) \<and> length q \<le> MAX_UDP_BUFFER"
      if "map_of (udp_recv_buffers (forget_fd fd s')) x = Some q" for x q
      using that D(10) [of x q] by (simp add: assms(2,6) split: if_splits)
  qed (use D(1-4) assms(3,5,6) in \<open>simp_all add: fd_ok_release\<close>)
qed

section \<open>The operations\<close>

lemma new_socket_ok:
  assumes "node_ok s m" "get_fd_type fd m = FT_UNKNOWN" "sk_fd k = fd" "sk_type k = SOCK_STREAM \<or> sk_type k = SOCK_DGRAM"
    "\<not> sk_connected k" "\<not> sk_listening k" "sk_established_connections k = []" "sk_pending_connections k = []"
  shows "socket_ok s fd k"
proof -
  have "\<not> om_mem fd (tcp_connections s)" using node_okD(7,9) [OF assms(1)] assms(2) by force
  then show ?thesis using assms(3-8) by (auto simp: socket_ok_def om_mem_def)
qed

text \<open>An allocation for the running process gives a fresh descriptor, or has no effect.\<close>

lemma own_allocate:
  assumes "net_ok w" "allocate_fd k st d (own_fdm w) = (a, m)"
  obtains (fresh) fd where "a = Inr fd" "0 \<le> fd" "fd_ok m" "get_fd_type fd (own_fdm w) = FT_UNKNOWN" "get_fd_type fd m = k"
      "\<And>x. x \<noteq> fd \<Longrightarrow> get_fd_type x m = get_fd_type x (own_fdm w)"
    | (full) "\<And>fd. a = Inr fd \<Longrightarrow> fd < 0" "set_own_fdm m w = w"
proof (cases "\<exists>fd. a = Inr fd \<and> 0 \<le> fd")
  case True
  then obtain fd where fd: "a = Inr fd" "0 \<le> fd" by blast
  note ok = node_okD(1) [OF net_ok_own [OF assms(1)]]
  from fdm.alloc_fresh [OF ok assms(2) [unfolded fd(1)] fd(2)] fd_ok_allocate [OF ok assms(2)] fd
  show thesis by (intro fresh [of fd]) auto
next
  case False
  note ok = node_okD(1) [OF net_ok_own [OF assms(1)]]
  have "m = own_fdm w"
  proof (cases a)
    case (Inl e)
    then show ?thesis using fdm.alloc_error [OF ok] assms(2) by blast
  next
    case (Inr fd)
    then show ?thesis using fdm.alloc_full [OF ok] assms(2) False by force
  qed
  with False set_own_fdm_id [OF assms(1)] show thesis by (intro full) force+
qed

lemma do_socket_ok:
  assumes "net_ok w" "do_socket domain type protocol w = (r, w')"
  shows "net_ok w'"
proof (cases "w' = w")
  case False
  define base where "base = type AND NOT (SOCK_NONBLOCK OR SOCK_CLOEXEC)"
  obtain st d a m where a: "allocate_fd FT_SOCKET st d (own_fdm w) = (a, m)"
    and st: "st = O_RDWR OR (if has_flag (type AND (SOCK_NONBLOCK OR SOCK_CLOEXEC)) SOCK_NONBLOCK then O_NONBLOCK else 0)"
      "d = (if has_flag (type AND (SOCK_NONBLOCK OR SOCK_CLOEXEC)) SOCK_CLOEXEC then FD_CLOEXEC else 0)"
    by fastforce
  note run = assms(2) [unfolded do_socket_def Let_def, folded base_def st, unfolded a]
  have base: "base = SOCK_STREAM \<or> base = SOCK_DGRAM" using run False by (auto split: if_splits)
  from assms(1) a show ?thesis
  proof (cases rule: own_allocate)
    case (fresh fd)
    let ?k = "\<lambda>p. new_socket\<lparr>sk_fd := fd, sk_domain := domain, sk_type := base, sk_protocol := p\<rparr>"
    have "socket_ok (own w) fd (?k p)" for p
      using fresh base by (intro new_socket_ok [OF net_ok_own [OF assms(1)]]) (auto simp: new_socket_def)
    then have "node_ok (put_socket fd (?k p) (own w)) m" for p
      using fresh(4-6) by (intro node_ok_new_socket [OF net_ok_own [OF assms(1)] fresh(3)]) auto
    moreover obtain p where "w' = set_own (put_socket fd (?k p) (own w)) (set_own_fdm m w)"
      using run False fresh(1,2) by (auto split: if_splits)
    ultimately show ?thesis using net_ok_set_both [OF assms(1)] by simp
  next
    case full
    then have "w' = w" using run by (cases a) (auto split: if_splits)
    with False show ?thesis by simp
  qed
qed (use assms(1) in simp)

lemma do_bind_ok: "net_ok w \<Longrightarrow> do_bind G fd address addrlen w = (r, w') \<Longrightarrow> net_ok w'"
proof -
  assume ok: "net_ok w" and run: "do_bind G fd address addrlen w = (r, w')"
  note D = node_okD [OF net_ok_own [OF ok]]
  have "net_ok (set_own (put_socket fd (k\<lparr>sk_local_addr := a, sk_bound := True\<rparr>) (own w)) w)"
    if "get_socket fd (own w) = Some k" "\<not> sk_bound k" for k a
    using that D(6) [of fd k]
    by (intro net_ok_set_own [OF ok] node_ok_put_socket [OF net_ok_own [OF ok]]) (auto simp: get_socket_def socket_ok_def)
  with ok run show "net_ok w'" by (auto simp: do_bind_def Let_def split: option.splits if_splits)
qed

lemma do_listen_ok: "net_ok w \<Longrightarrow> do_listen fd backlog w = (r, w') \<Longrightarrow> net_ok w'"
proof -
  assume ok: "net_ok w" and run: "do_listen fd backlog w = (r, w')"
  note D = node_okD [OF net_ok_own [OF ok]]
  have "net_ok (set_own (put_socket fd (k\<lparr>sk_listening := True, sk_backlog := b\<rparr>) (own w)) w)"
    if "get_socket fd (own w) = Some k" "sk_type k = SOCK_STREAM" "sk_bound k" for k b
    using that D(6) [of fd k]
    by (intro net_ok_set_own [OF ok] node_ok_put_socket [OF net_ok_own [OF ok]]) (auto simp: get_socket_def socket_ok_def)
  with ok run show "net_ok w'" by (auto simp: do_listen_def split: option.splits if_splits)
qed

lemma guest_out_memory: "guest_out G a bs w = (ok, w') \<Longrightarrow> \<exists>m. w' = w\<lparr>pt_memory := m\<rparr>"
  by (auto simp: guest_out_def split: prod.splits)

lemma guest_out_ok: "net_ok w \<Longrightarrow> guest_out G a bs w = (ok, w') \<Longrightarrow> net_ok w'"
  using guest_out_memory by fastforce

lemma copy_socket_address_ok: "net_ok w \<Longrightarrow> copy_socket_address G a out len w = (r, w') \<Longrightarrow> net_ok w'"
  by (auto simp: copy_socket_address_def Let_def split: option.splits if_splits prod.splits bool.splits dest: guest_out_ok)

end
