(* ===== verification/Sock_Keep.thy ===== *)
theory Sock_Keep
  imports Sock_Inv
begin

text \<open>
  Connecting, accepting, transferring and closing keep the invariant of the network, and so do the
  datagram, epoll and option calls; hence every run of network calls of all processes does.
\<close>

section \<open>Connections\<close>

lemma put_socket_connection: "put_socket fd k (put_connection fd' c s) = put_connection fd' c (put_socket fd k s)"
  by (simp add: put_socket_def put_connection_def)

lemma enqueue_ok:
  assumes "socket_ok s fd l" "\<not> om_mem key (sk_established_connections l)"
    "key = endpoint_key (s_addr (tc_local_addr c)) (sin_port (tc_local_addr c))" "s_addr (tc_peer_addr c) \<noteq> INADDR_ANY"
  shows "socket_ok s fd (l\<lparr>sk_pending_connections := sk_pending_connections l @ [key],
    sk_established_connections := om_emplace key c (sk_established_connections l)\<rparr>)"
  using assms by (auto simp: socket_ok_def om_emplace_def om_mem_def)

definition enqueue :: "int \<Rightarrow> u64 \<Rightarrow> tcp_connection \<Rightarrow> sock_state \<Rightarrow> sock_state" where
  "enqueue listen_fd key c s =
     (case map_of (sockets s) listen_fd of
        None \<Rightarrow> s
      | Some l \<Rightarrow> put_socket listen_fd
          (l\<lparr>sk_pending_connections := sk_pending_connections l @ [key],
             sk_established_connections := om_emplace key c (sk_established_connections l)\<rparr>) s)"

lemma enqueue_connection: "enqueue listen_fd key c (put_connection fd c' s) = put_connection fd c' (enqueue listen_fd key c s)"
  by (simp add: enqueue_def put_connection_def put_socket_def split: option.split)

lemma connect_commit_eq:
  assumes "pt_cursor w < length (pt_sock_states w)"
  shows "connect_commit fd sock local_addr peer_addr node listen_fd w =
    on_node node (enqueue listen_fd (endpoint_key (s_addr local_addr) (sin_port local_addr)) (connection_of fd local_addr peer_addr))
      (set_own (put_connection fd (connection_of fd local_addr peer_addr)
        (put_socket fd (sock\<lparr>sk_bound := True, sk_local_addr := local_addr, sk_connected := True, sk_peer_addr := peer_addr\<rparr>)
          (own w))) w)"
  using assms
  by (cases "node = pt_cursor w")
    (simp_all add: connect_commit_def Let_def set_own_def own_def on_node_def enqueue_connection list_update_swap
      flip: enqueue_def)

lemma net_ok_commit:
  assumes ok: "net_ok w" and sock: "get_socket fd (own w) = Some sock" "sk_type sock = SOCK_STREAM" "\<not> sk_connected sock"
    and l: "map_of (sockets (pt_sock_states w ! node)) listen_fd = Some l"
      "\<not> om_mem (endpoint_key (s_addr local_addr) (sin_port local_addr)) (sk_established_connections l)"
      "\<not> sk_listening sock" "sk_listening l"
    and a: "s_addr local_addr \<noteq> INADDR_ANY" "s_addr peer_addr \<noteq> INADDR_ANY"
  shows "net_ok (connect_commit fd sock local_addr peer_addr node listen_fd w)"
proof -
  note own = net_ok_own [OF ok]
  let ?sock = "sock\<lparr>sk_bound := True, sk_local_addr := local_addr, sk_connected := True, sk_peer_addr := peer_addr\<rparr>"
  let ?c = "connection_of fd local_addr peer_addr"
  let ?s = "put_connection fd ?c (put_socket fd ?sock (own w))"
  have k: "map_of (sockets (own w)) fd = Some sock" using sock(1) by (simp add: get_socket_def)
  have "node_ok ?s (own_fdm w)"
    using node_okD(6) [OF own k] sock(2,3) l(3) a(1) by (intro node_ok_connected [OF own k]) (auto simp: socket_ok_def)
  then have ok1: "net_ok (set_own ?s w)" by (rule net_ok_set_own [OF ok])
  have l1: "map_of (sockets (pt_sock_states (set_own ?s w) ! node)) listen_fd = Some l"
  proof (cases "node = pt_cursor w")
    case True
    have "listen_fd \<noteq> fd" using True l(1,3,4) k by (auto simp: own_def)
    then show ?thesis using True l(1) ok by (simp add: set_own_def own_def put_connection_def put_socket_def net_ok_def)
  next
    case False
    then show ?thesis using l(1) by (simp add: set_own_def)
  qed
  show ?thesis unfolding connect_commit_eq [OF conjunct1 [OF ok [unfolded net_ok_def]]]
  proof (rule net_ok_on_node [OF ok1])
    fix s m assume s: "s = pt_sock_states (set_own ?s w) ! node" "node_ok s m"
    have "map_of (sockets s) listen_fd = Some l" using s(1) l1 by simp
    with node_ok_put_socket [OF s(2) this enqueue_ok [OF node_okD(6) [OF s(2) this] l(2), of ?c]] a(2)
    show "node_ok (enqueue listen_fd (endpoint_key (s_addr local_addr) (sin_port local_addr)) ?c s) m"
      by (simp add: enqueue_def connection_of_def)
  qed
qed

text \<open>What a successful connection has passed.\<close>

lemma connect_listener_cases:
  assumes "connect_listener fd sock local_addr peer_addr w = (r, w')"
  obtains (refused) "w' = w" "r \<noteq> Inr 0"
  | (queued) node listen_fd l where "r = Inr 0" "listeners peer_addr w = [(node, listen_fd)]"
      "map_of (sockets (pt_sock_states w ! node)) listen_fd = Some l"
      "int (length (sk_established_connections l)) < sk_backlog l"
      "\<not> om_mem (endpoint_key (s_addr local_addr) (sin_port local_addr)) (sk_established_connections l)"
      "sk_bound sock \<and> sin_port (sk_local_addr sock) \<noteq> 0 \<longrightarrow> endpoint_reuse local_addr peer_addr (all_sockets w) = None"
      "w' = connect_commit fd sock local_addr peer_addr node listen_fd w"
proof -
  note run = assms [unfolded connect_listener_def]
  show thesis
  proof (cases "if sk_bound sock \<and> sin_port (sk_local_addr sock) \<noteq> 0
      then endpoint_reuse local_addr peer_addr (all_sockets w) else None")
    case (Some e)
    then show thesis using run by (intro refused) auto
  next
    case None
    note run = run [unfolded None option.case]
    consider "\<forall>node listen_fd. listeners peer_addr w \<noteq> [(node, listen_fd)]" | node listen_fd where "listeners peer_addr w = [(node, listen_fd)]"
      by blast
    then show thesis
    proof cases
      case 1
      then show thesis using run by (intro refused) (auto split: list.splits)
    next
      case 2
      show thesis
      proof (cases "map_of (sockets (pt_sock_states w ! node)) listen_fd")
        case None
        then show thesis using run 2 by (intro refused) auto
      next
        case (Some l)
        then show thesis using run 2 None
          by (cases "sk_backlog l \<le> int (length (sk_established_connections l)) \<or>
              om_mem (endpoint_key (s_addr local_addr) (sin_port local_addr)) (sk_established_connections l)")
            (auto intro: refused queued [OF _ 2 Some] split: if_splits)
      qed
    qed
  qed
qed

lemma listeners_iff:
  "(node, fd) \<in> set (listeners peer_addr w) \<longleftrightarrow>
    node < length (pt_sock_states w) \<and> (\<exists>k. (fd, k) \<in> set (sockets (pt_sock_states w ! node)) \<and> listens_at w node peer_addr k)"
  by (auto simp: listeners_def)

lemma listener_listens:
  assumes "net_ok w" "listeners peer_addr w = [(node, fd)]" "map_of (sockets (pt_sock_states w ! node)) fd = Some l"
  shows "node < length (pt_sock_states w)" "listens_at w node peer_addr l"
proof -
  have "(node, fd) \<in> set (listeners peer_addr w)" using assms(2) by simp
  then obtain k where k: "node < length (pt_sock_states w)" "(fd, k) \<in> set (sockets (pt_sock_states w ! node))"
      "listens_at w node peer_addr k"
    unfolding listeners_iff by blast
  have "node_ok (pt_sock_states w ! node) (pt_fd_managers w ! node)" using assms(1) k(1) by (simp add: net_ok_def)
  then have "map_of (sockets (pt_sock_states w ! node)) fd = Some k"
    using k(2) om_lookup_iff [OF node_okD(2)] by blast
  with k assms(3) show "node < length (pt_sock_states w)" "listens_at w node peer_addr l" by auto
qed

text \<open>A connect either changes nothing or queues one connection at the only listener.\<close>

lemma do_connect_cases:
  assumes "do_connect G fd address addrlen w = (r, w')"
  obtains (refused) "w' = w" "r \<noteq> Inr 0"
  | (queued) bs sock local_addr node listen_fd l where "r = Inr 0" "guest_in G address 16 w = Some bs"
      "get_socket fd (own w) = Some sock" "sk_type sock = SOCK_STREAM" "\<not> sk_connected sock" "\<not> sk_listening sock"
      "\<exists>a. source_addr sock w = Some a \<and> choose_port sock a (sockaddr_of bs) w = Some local_addr"
      "listeners (sockaddr_of bs) w = [(node, listen_fd)]" "map_of (sockets (pt_sock_states w ! node)) listen_fd = Some l"
      "int (length (sk_established_connections l)) < sk_backlog l"
      "\<not> om_mem (endpoint_key (s_addr local_addr) (sin_port local_addr)) (sk_established_connections l)"
      "sk_bound sock \<and> sin_port (sk_local_addr sock) \<noteq> 0 \<longrightarrow> endpoint_reuse local_addr (sockaddr_of bs) (all_sockets w) = None"
      "w' = connect_commit fd sock local_addr (sockaddr_of bs) node listen_fd w"
proof -
  note run = assms [unfolded do_connect_def]
  show thesis
  proof (cases "\<exists>sock bs a local_addr. get_socket fd (own w) = Some sock \<and> sk_type sock = SOCK_STREAM \<and> \<not> sk_connected sock \<and>
      \<not> sk_listening sock \<and> guest_in G address 16 w = Some bs \<and> source_addr sock w = Some a \<and>
      choose_port sock a (sockaddr_of bs) w = Some local_addr \<and>
      connect_listener fd sock local_addr (sockaddr_of bs) w = (r, w')")
    case True
    then obtain sock bs a local_addr where c: "get_socket fd (own w) = Some sock" "sk_type sock = SOCK_STREAM"
      "\<not> sk_connected sock" "\<not> sk_listening sock" "guest_in G address 16 w = Some bs" "source_addr sock w = Some a"
      "choose_port sock a (sockaddr_of bs) w = Some local_addr"
      "connect_listener fd sock local_addr (sockaddr_of bs) w = (r, w')" by blast
    from c(8) show thesis
    proof (cases rule: connect_listener_cases)
      case refused
      then show thesis by (rule that(1))
    next
      case q: (queued node listen_fd l)
      have "\<exists>a. source_addr sock w = Some a \<and> choose_port sock a (sockaddr_of bs) w = Some local_addr" using c(6,7) by blast
      from that(2) [OF q(1) c(5,1-4) this q(2-7)] show thesis .
    qed
  next
    case False
    have "w' = w \<and> r \<noteq> Inr 0"
    proof (cases "get_socket fd (own w)")
      case None
      then show ?thesis using run by (auto simp: invalid_socket_error_def split: if_splits)
    next
      case (Some sock)
      show ?thesis
      proof (cases "guest_in G address 16 w")
        case None
        then show ?thesis using run Some by (auto split: if_splits)
      next
        case bs: (Some bs)
        note run = run [unfolded Some bs option.case Let_def]
        show ?thesis
        proof (cases "sk_type sock \<noteq> SOCK_STREAM \<or> sk_connected sock \<or> sk_listening sock \<or> addrlen < 16 \<or> sin_family (sockaddr_of bs) \<noteq> 2")
          case True
          then show ?thesis using run by (auto split: if_splits)
        next
          case checked: False
          then have "(case source_addr sock w of None \<Rightarrow> (Inr (- EADDRNOTAVAIL), w)
              | Some a \<Rightarrow> (case choose_port sock a (sockaddr_of bs) w of None \<Rightarrow> (Inr (- EADDRNOTAVAIL), w)
                 | Some b \<Rightarrow> connect_listener fd sock b (sockaddr_of bs) w)) = (r, w')" using run by simp
          with False Some bs checked show ?thesis by (auto split: option.splits)
        qed
      qed
    qed
    then show thesis using that(1) by blast
  qed
qed

text \<open>Both ends of a connection have a concrete address.\<close>

lemma chosen_addr:
  assumes "\<exists>a. source_addr sock w = Some a \<and> choose_port sock a peer_addr w = Some local_addr"
  shows "s_addr local_addr \<noteq> INADDR_ANY"
  using assms by (auto simp: source_addr_def choose_port_def Let_def split: if_splits option.splits)

lemma listener_addr:
  assumes "net_ok w" "node < length (pt_sock_states w)" "listens_at w node peer_addr l"
  shows "s_addr peer_addr \<noteq> INADDR_ANY"
proof -
  have "pt_addrs w ! node \<in> set (pt_addrs w)" using assms(1,2) by (simp add: net_ok_def)
  then have "inet_pton (pt_addrs w ! node) \<noteq> Some INADDR_ANY" using assms(1) by (simp add: net_ok_def)
  then show ?thesis using assms(3) by (auto simp: listens_at_def effective_addr_def split: if_splits)
qed

lemma do_connect_ok:
  assumes "net_ok w" "do_connect G fd address addrlen w = (r, w')"
  shows "net_ok w'"
  using assms(2)
proof (cases rule: do_connect_cases)
  case refused
  with assms(1) show ?thesis by simp
next
  case (queued bs sock local_addr node listen_fd l)
  note l = listener_listens [OF assms(1) queued(8,9)]
  show ?thesis unfolding queued(13)
    by (rule net_ok_commit [OF assms(1) queued(3-5,9,11,6) _ chosen_addr [OF queued(7)] listener_addr [OF assms(1) l]])
      (use l in \<open>simp add: listens_at_def\<close>)
qed

lemma memory_stays: "\<exists>m. w = w\<lparr>pt_memory := m\<rparr>"
  by (rule exI [of _ "pt_memory w"]) simp

lemma accept_copyout_memory: "accept_copyout G peer address addrlen w = (e, w') \<Longrightarrow> \<exists>m. w' = w\<lparr>pt_memory := m\<rparr>"
  by (auto simp: accept_copyout_def memory_stays split: if_splits option.splits prod.splits bool.splits dest!: guest_out_memory)

lemma own_memory [simp]:
  "own (w\<lparr>pt_memory := m\<rparr>) = own w" "own_fdm (w\<lparr>pt_memory := m\<rparr>) = own_fdm w"
  by (simp_all add: own_def own_fdm_def)

text \<open>An accept takes the oldest waiting connection or leaves the network as it was.\<close>

lemma accept_commit_eq:
  assumes "om_ok (sockets s)" "fd \<noteq> new_fd"
  shows "accept_commit fd l key pending new_fd s =
    put_socket fd (l\<lparr>sk_pending_connections := tl (sk_pending_connections l),
        sk_established_connections := om_del key (sk_established_connections l)\<rparr>)
      (put_connection new_fd (pending\<lparr>tc_local_fd := new_fd, tc_local_addr := tc_peer_addr pending,
          tc_peer_addr := tc_local_addr pending\<rparr>)
        (put_socket new_fd ((accepted_socket l pending)\<lparr>sk_fd := new_fd\<rparr>) s))"
  using assms by (simp add: accept_commit_def Let_def put_socket_def put_connection_def accepted_socket_def
      om_put_twist [of "sockets s" new_fd fd])

lemma do_accept_cases:
  assumes "net_ok w" "do_accept G fd address addrlen w = (r, w')"
  obtains (none) m where "w' = w\<lparr>pt_memory := m\<rparr>" "\<And>n. r = Inr n \<Longrightarrow> n < 0"
  | (taken) l key rest pending m fdm n where "get_socket fd (own w) = Some l" "sk_listening l"
      "sk_pending_connections l = key # rest" "map_of (sk_established_connections l) key = Some pending"
      "r = Inr n" "0 \<le> n" "fd_ok fdm" "get_fd_type n (own_fdm w) = FT_UNKNOWN" "get_fd_type n fdm = FT_SOCKET"
      "\<And>x. x \<noteq> n \<Longrightarrow> get_fd_type x fdm = get_fd_type x (own_fdm w)"
      "w' = set_own (accept_commit fd l key pending n (own w)) (set_own_fdm fdm (w\<lparr>pt_memory := m\<rparr>))"
proof -
  note run = assms(2) [unfolded do_accept_def] and D = node_okD [OF net_ok_own [OF assms(1)]]
  have stay: "w = w\<lparr>pt_memory := pt_memory w\<rparr>" by simp
  show thesis
  proof (cases "\<exists>l key rest. get_socket fd (own w) = Some l \<and> sk_type l = SOCK_STREAM \<and> sk_listening l \<and> sk_pending_connections l = key # rest")
    case False
    then have "w' = w \<and> (\<forall>n. r = Inr n \<longrightarrow> n < 0)"
      using run by (auto simp: invalid_socket_error_def split: option.splits if_splits list.splits)
    with stay show thesis by (intro none [of "pt_memory w"]) auto
  next
    case True
    then obtain l key rest where l: "get_socket fd (own w) = Some l" "sk_type l = SOCK_STREAM" "sk_listening l"
      "sk_pending_connections l = key # rest" by blast
    have "socket_ok (own w) fd l" using D(6) l(1) by (simp add: get_socket_def)
    then have "om_mem key (sk_established_connections l)" using l(4) by (auto simp: socket_ok_def)
    then obtain pending where p: "map_of (sk_established_connections l) key = Some pending" by (auto simp: om_mem_def)
    obtain e w1 where c: "accept_copyout G (tc_local_addr pending) address addrlen w = (e, w1)" by fastforce
    obtain m where m: "w1 = w\<lparr>pt_memory := m\<rparr>" using accept_copyout_memory [OF c] by blast
    note run = run [unfolded l(1) option.case if_False l(4) list.case p c prod.case]
    show thesis
    proof (cases e)
      case (Some err)
      moreover have "err < 0" if "accept_copyout G a b d w = (Some err, w1)" for a b d
        using that by (auto simp: accept_copyout_def split: if_splits option.splits prod.splits bool.splits)
      ultimately show thesis using run l(2,3) m c by (intro none [of m]) auto
    next
      case None
      obtain a fdm where a: "allocate_fd FT_SOCKET O_RDWR 0 (own_fdm w1) = (a, fdm)" by fastforce
      note run = run [unfolded None option.case a prod.case]
      have "net_ok w1" using assms(1) m by simp
      from this a show thesis
      proof (cases rule: own_allocate)
        case (fresh n)
        have "w' = set_own (accept_commit fd l key pending n (own w)) (set_own_fdm fdm (w\<lparr>pt_memory := m\<rparr>))" "r = Inr n"
          using run l(2,3) fresh(1,2) m by auto
        with fresh m show thesis by (intro taken [OF l(1,3,4) p, of n fdm m]) auto
      next
        case full
        then have "w' = w1 \<and> (\<forall>n. r = Inr n \<longrightarrow> n < 0)" using run l(2,3) by (cases a) (auto split: if_splits)
        with m show thesis by (intro none [of m]) auto
      qed
    qed
  qed
qed

lemma do_accept_ok:
  assumes "net_ok w" "do_accept G fd address addrlen w = (r, w')"
  shows "net_ok w'"
  using assms
proof (cases rule: do_accept_cases)
  case (none m)
  with assms(1) show ?thesis by simp
next
  case t: (taken l key rest pending m fdm n)
  note own = net_ok_own [OF assms(1)]
  note D = node_okD [OF own]
  have l: "map_of (sockets (own w)) fd = Some l" using t(1) by (simp add: get_socket_def)
  have "fd \<noteq> n" using D(7) [of fd] om_memI [OF l] t(8) by auto
  let ?k = "(accepted_socket l pending)\<lparr>sk_fd := n\<rparr>" and ?fresh = "(accepted_socket l pending)\<lparr>sk_fd := n, sk_connected := False\<rparr>"
  let ?l = "l\<lparr>sk_pending_connections := tl (sk_pending_connections l),
        sk_established_connections := om_del key (sk_established_connections l)\<rparr>"
  let ?base = "put_socket n ?fresh (own w)" and ?c = "pending\<lparr>tc_local_fd := n, tc_local_addr := tc_peer_addr pending,
          tc_peer_addr := tc_local_addr pending\<rparr>"
  have k0: "socket_ok (own w) n ?fresh"
    using t(8) by (intro new_socket_ok [OF own]) (auto simp: accepted_socket_def new_socket_def)
  have s0: "node_ok ?base fdm" by (rule node_ok_new_socket [OF own t(7,8,9,10) k0])
  have n: "map_of (sockets ?base) n = Some ?fresh" by (simp add: put_socket_def)
  have "node_ok (put_connection n ?c (put_socket n ?k ?base)) fdm"
  proof (rule node_ok_connected [OF s0 n])
    have "?k\<lparr>sk_connected := sk_connected ?fresh\<rparr> = ?fresh" by simp
    then show "socket_ok ?base n (?k\<lparr>sk_connected := sk_connected ?fresh\<rparr>)" using node_okD(6) [OF s0 n] by simp
    show "sk_connected ?k" by (simp add: accepted_socket_def)
    show "sk_type ?k = SOCK_STREAM" by (simp add: accepted_socket_def)
    show "sk_bound ?k" by (simp add: accepted_socket_def)
    show "s_addr (sk_local_addr ?k) \<noteq> INADDR_ANY"
      using D(6) [OF l] t(4) by (simp add: accepted_socket_def socket_ok_def)
  qed
  then have s1: "node_ok (put_connection n ?c (put_socket n ?k (own w))) fdm" by (simp add: put_socket_def)
  have l1: "map_of (sockets (put_connection n ?c (put_socket n ?k (own w)))) fd = Some l"
    using l \<open>fd \<noteq> n\<close> by (simp add: put_connection_def put_socket_def)
  have "socket_ok (put_connection n ?c (put_socket n ?k (own w))) fd ?l"
    using node_okD(6) [OF s1 l1] t(3) by (auto simp: socket_ok_def)
  from node_ok_put_socket [OF s1 l1 this] show ?thesis
    unfolding t(11) accept_commit_eq [OF D(2) \<open>fd \<noteq> n\<close>] using assms(1) by (intro net_ok_set_both) auto
qed

end
