(* ===== verification/Sock_Runs.thy ===== *)
theory Sock_Runs
  imports Sock_Keep
begin

text \<open>
  Transfers, closing, datagrams, epoll and options keep the invariant of the network; the step relation
  of all network calls of all processes, and that every run keeps it.
\<close>

section \<open>Transfers\<close>

lemma push_connection_ok:
  "node_ok s m \<Longrightarrow> node_ok (case map_of (tcp_connections s) fd of None \<Rightarrow> s | Some c \<Rightarrow> put_connection fd (f c) s) m"
  by (auto intro: node_ok_put_connection om_memI split: option.split)

lemma socket_ok_established:
  assumes "socket_ok s fd l" "map_of (sk_established_connections l) key = Some c"
  shows "socket_ok s fd (l\<lparr>sk_established_connections := om_put key (push_chunk data c) (sk_established_connections l)\<rparr>)"
proof -
  have "om_mem key (sk_established_connections l)" by (rule om_memI [OF assms(2)])
  moreover have "key = endpoint_key (s_addr (tc_local_addr c)) (sin_port (tc_local_addr c)) \<and> s_addr (tc_peer_addr c) \<noteq> INADDR_ANY"
    using assms by (simp add: socket_ok_def)
  ultimately show ?thesis using assms(1) unfolding socket_ok_def by (auto simp: push_chunk_def)
qed

lemma deliver_ok:
  assumes "net_ok w"
  shows "net_ok (deliver r key data w)"
proof (cases r)
  case (To_Connection node fd)
  then show ?thesis using assms by (auto simp: deliver_def intro!: net_ok_on_node push_connection_ok)
next
  case (To_Pending node fd)
  have "node_ok (case map_of (sockets s) fd of
            None \<Rightarrow> s
          | Some l \<Rightarrow> (case map_of (sk_established_connections l) key of
              None \<Rightarrow> s
            | Some c \<Rightarrow> put_socket fd (l\<lparr>sk_established_connections :=
                om_put key (push_chunk data c) (sk_established_connections l)\<rparr>) s)) m" if s: "node_ok s m" for s m
    using s by (auto intro!: node_ok_put_socket [OF s] socket_ok_established [OF node_okD(6) [OF s]] split: option.split)
  with To_Pending show ?thesis using assms by (auto simp: deliver_def intro!: net_ok_on_node)
qed

lemma do_send_buffer_ok: "net_ok w \<Longrightarrow> do_send_buffer fd data w = (r, w') \<Longrightarrow> net_ok w'"
  by (auto simp: do_send_buffer_def deliver_ok split: option.splits)

lemma do_send_ok: "net_ok w \<Longrightarrow> do_send G fd buf len flags w = (r, w') \<Longrightarrow> net_ok w'"
  by (auto simp: do_send_def split: option.splits if_splits dest: do_send_buffer_ok)

text \<open>A receive takes bytes off the first chunk, and nothing else but memory changes.\<close>

lemma do_recv_cases:
  assumes "do_recv G fd buf len flags w = (r, w')"
  obtains (same) m where "w' = w\<lparr>pt_memory := m\<rparr>" "\<And>n. r = Inr n \<Longrightarrow> 0 < n \<Longrightarrow> has_flag flags MSG_PEEK"
  | (taken) k c data rest m where "get_socket fd (own w) = Some k" "sk_connected k" "map_of (tcp_connections (own w)) fd = Some c"
      "tc_recv_buffer c = data # rest" "data \<noteq> []" "0 < len" "r = Inr (int (min len (length data)))"
      "guest_out G buf (take (min len (length data)) data) w = (True, w\<lparr>pt_memory := m\<rparr>)" "\<not> has_flag flags MSG_PEEK"
      "w' = set_own (put_connection fd (c\<lparr>tc_recv_buffer := (if min len (length data) < length data
              then drop (min len (length data)) data # rest else rest)\<rparr>) (own w)) (w\<lparr>pt_memory := m\<rparr>)"
proof -
  note run = assms [unfolded do_recv_def Let_def]
  have stay: thesis if "w' = w \<and> (\<forall>n. r = Inr n \<longrightarrow> n \<le> 0)" by (rule same [of "pt_memory w"]) (use that in auto)
  show thesis
  proof (cases "\<exists>k c data rest. get_socket fd (own w) = Some k \<and> map_of (tcp_connections (own w)) fd = Some c \<and> tc_recv_buffer c = data # rest")
    case False
    have "w' = w \<and> (\<forall>n. r = Inr n \<longrightarrow> n \<le> 0)" using run False
      by (cases "get_socket fd (own w)"; cases "map_of (tcp_connections (own w)) fd"; (cases "tc_recv_buffer (the (map_of (tcp_connections (own w)) fd))")?)
        (auto simp: invalid_socket_error_def split: if_splits)
    then show thesis by (rule stay)
  next
    case True
    then obtain k c data rest where c: "get_socket fd (own w) = Some k" "map_of (tcp_connections (own w)) fd = Some c"
      "tc_recv_buffer c = data # rest" by blast
    obtain b w1 where o: "guest_out G buf (take (min len (length data)) data) w = (b, w1)" by fastforce
    obtain m where m: "w1 = w\<lparr>pt_memory := m\<rparr>" using guest_out_memory [OF o] by blast
    note run = run [unfolded c option.case list.case o prod.case]
    show thesis
    proof (cases "has_flag flags (NOT (MSG_DONTWAIT OR MSG_PEEK)) \<or> \<not> sk_connected k \<or> len = 0 \<or> data = []")
      case True
      then have "w' = w \<and> (\<forall>n. r = Inr n \<longrightarrow> n \<le> 0)" using run by (elim disjE) (auto split: if_splits)
      then show thesis by (rule stay)
    next
      case False
      note run = run [unfolded if_not_P [OF False [unfolded de_Morgan_disj, THEN conjunct1]]]
      have f: "sk_connected k" "0 < len" "data \<noteq> []" using False by auto
      show thesis
      proof (cases "b \<and> \<not> has_flag flags MSG_PEEK")
        case False
        then have "w' = w1" "\<And>n. r = Inr n \<Longrightarrow> 0 < n \<Longrightarrow> has_flag flags MSG_PEEK" using run f by (cases b; auto split: if_splits)+
        with m show thesis by (intro same [of m]) simp_all
      next
        case True
        then show thesis using run f m o by (intro taken [OF c(1) f(1) c(2,3) f(3,2), of m]) simp_all
      qed
    qed
  qed
qed

lemma do_recv_ok:
  assumes "net_ok w" "do_recv G fd buf len flags w = (r, w')"
  shows "net_ok w'"
  using assms(2)
proof (cases rule: do_recv_cases)
  case (same m)
  with assms(1) show ?thesis by simp
next
  case (taken k c data rest m)
  have "node_ok (put_connection fd x (own w)) (own_fdm w)" for x
    by (rule node_ok_put_connection [OF net_ok_own [OF assms(1)] om_memI [OF taken(3)]])
  then show ?thesis unfolding taken(10) using assms(1) by (intro net_ok_set_own) simp_all
qed

section \<open>Closing\<close>

lemma node_ok_map_sockets:
  assumes "node_ok s m" "\<And>fd k. map_of (sockets s) fd = Some k \<Longrightarrow> socket_ok s fd (g k)"
  shows "node_ok (s\<lparr>sockets := map (\<lambda>(fd, k). (fd, g k)) (sockets s)\<rparr>) m"
proof -
  note D = node_okD [OF assms(1)]
  have look: "map_of (map (\<lambda>(fd, k). (fd, g k)) (sockets s)) = (\<lambda>fd. map_option g (map_of (sockets s) fd))"
    by (simp add: map_of_map fun_eq_iff)
  have mem: "om_mem fd (map (\<lambda>(fd, k). (fd, g k)) (sockets s)) = om_mem fd (sockets s)" for fd
    by (simp add: om_mem_def look)
  have "om_ok (map (\<lambda>(fd, k). (fd, g k)) (sockets s))"
    using D(2) by (simp add: om_ok_def comp_def case_prod_unfold)
  moreover have "socket_ok (s\<lparr>sockets := x\<rparr>) = socket_ok s" for x by (simp add: fun_eq_iff socket_ok_def)
  ultimately show ?thesis by (intro node_okI) (use D assms(2) mem in \<open>auto simp: look\<close>)
qed

lemma mark_pending_ok:
  assumes "node_ok s m"
  shows "node_ok (mark_pending key sock s) m"
  unfolding mark_pending_def
proof (rule node_ok_map_sockets [OF assms])
  fix fd k assume k: "map_of (sockets s) fd = Some k"
  show "socket_ok s fd (if holds_pending key sock k
      then k\<lparr>sk_established_connections := (case map_of (sk_established_connections k) key of
          None \<Rightarrow> sk_established_connections k
        | Some c \<Rightarrow> om_put key (push_chunk [] c) (sk_established_connections k))\<rparr> else k)"
    using node_okD(6) [OF assms k] socket_ok_established [OF node_okD(6) [OF assms k]] by (auto split: option.split)
qed

lemma notify_peer_ok: "node_ok s m \<Longrightarrow> node_ok (notify_peer a sock s) m"
  unfolding notify_peer_def by (auto split: option.split intro!: node_ok_put_connection om_memI)

lemma notify_close_fields:
  "pt_cursor (notify_close sock w) = pt_cursor w" "pt_fd_managers (notify_close sock w) = pt_fd_managers w"
  "length (pt_sock_states (notify_close sock w)) = length (pt_sock_states w)"
  by (simp_all add: notify_close_def Let_def)

lemma notify_close_ok: "net_ok w \<Longrightarrow> net_ok (notify_close sock w)"
  by (auto simp: net_ok_def notify_close_def Let_def intro!: notify_peer_ok mark_pending_ok)

lemma map_keys: "om_mem fd (map (\<lambda>(fd, k). (fd, g fd k)) m) = om_mem fd m"
  by (force simp: om_mem_iff)

lemma notify_keeps_socket:
  assumes "pt_cursor w < length (pt_sock_states w)"
  shows "om_mem fd (sockets (own (notify_close sock w))) = om_mem fd (sockets (own w))"
proof -
  have "sockets (notify_peer a sock s) = sockets s" for a s
    by (simp add: notify_peer_def put_connection_def split: option.split)
  then show ?thesis using assms
    by (simp add: notify_close_def Let_def own_def mark_pending_def map_keys)
qed

lemma sock_do_close_ok:
  assumes "net_ok w" "sock_do_close fd w = (r, w')"
  shows "net_ok w'"
proof (cases "map_of (sockets (own w)) fd")
  case None
  with assms show ?thesis by (simp add: sock_do_close_def)
next
  case (Some sock)
  let ?w = "notify_close sock w"
  have ok: "net_ok ?w" by (rule notify_close_ok [OF assms(1)])
  note own = net_ok_own [OF ok]
  have "om_mem fd (sockets (own ?w))"
    using om_memI [OF Some] notify_keeps_socket [OF conjunct1 [OF assms(1) [unfolded net_ok_def]]] by simp
  then have "\<not> om_mem fd (epoll_instances (own ?w))" using node_okD(7,8) [OF own, of fd] by simp
  then have e: "epoll_instances (own ?w) = om_del fd (epoll_instances (own ?w))" by (simp add: om_del_absent)
  let ?s = "(own ?w)\<lparr>udp_recv_buffers := om_del fd (udp_recv_buffers (own ?w)),
     tcp_connections := om_del fd (tcp_connections (own ?w)), sockets := om_del fd (sockets (own ?w))\<rparr>"
  have "node_ok (forget_fd fd ?s) (release_fd fd (own_fdm ?w))"
    using node_okD(2) [OF own] e by (intro node_ok_removed [OF own]) (auto split: if_splits)
  moreover have "w' = set_own (forget_fd fd ?s) (set_own_fdm (release_fd fd (own_fdm ?w)) ?w)"
    using assms(2) Some by (simp add: sock_do_close_def Let_def set_own_fdm_set_own)
  ultimately show ?thesis using net_ok_set_both [OF ok] by simp
qed

section \<open>Datagrams, epoll and options\<close>

lemma deliver_udp_ok:
  assumes "net_ok w" "om_mem fd (sockets (pt_sock_states w ! node))"
  shows "net_ok (deliver_udp_datagram node fd dg w)"
  using assms unfolding deliver_udp_datagram_def Let_def
  by (auto intro!: net_ok_on_node node_ok_udp)

lemma om_find_mem: "om_find P m = Some k \<Longrightarrow> om_mem k m"
  by (induction P m rule: om_find.induct) (auto simp: om_mem_def split: if_splits)

lemma sendto_routed_ok: "net_ok w \<Longrightarrow> sendto_routed G sock buf len dest w = (r, w') \<Longrightarrow> net_ok w'"
  by (auto simp: sendto_routed_def Let_def udp_receiver_def
      split: if_splits option.splits intro!: deliver_udp_ok dest: om_find_mem)

lemma do_sendto_ok: "net_ok w \<Longrightarrow> do_sendto G fd buf len flags dest addrlen w = (r, w') \<Longrightarrow> net_ok w'"
  by (auto simp: do_sendto_def split: if_splits option.splits dest: sendto_routed_ok do_send_ok)

lemma recvfrom_copyout_memory: "recvfrom_copyout G dg buf len src addrlen w = (ok, w') \<Longrightarrow> \<exists>m. w' = w\<lparr>pt_memory := m\<rparr>"
  by (auto simp: recvfrom_copyout_def memory_stays split: if_splits option.splits prod.splits bool.splits dest!: guest_out_memory)

lemma budget_fields [simp]:
  "own (consume_model_budget c w) = own w" "own_fdm (consume_model_budget c w) = own_fdm w"
  "pt_fs_states (consume_model_budget c w) = pt_fs_states w" "pt_cursor (consume_model_budget c w) = pt_cursor w"
  by (simp_all add: consume_model_budget_def own_def own_fdm_def)

text \<open>A datagram is taken from the queue, or the queues stay; the budget may be used up.\<close>

lemma do_recvfrom_cases:
  assumes "do_recvfrom_with_choice G fd buf len flags src addrlen choice w = (r, w')"
    and "get_socket fd (own w) = Some k" "sk_type k = SOCK_DGRAM"
  obtains (same) m where "w' = w\<lparr>pt_memory := m\<rparr>" | (spent) m where "choice = 1" "w' = consume_model_budget 1 (w\<lparr>pt_memory := m\<rparr>)"
  | (taken) i m where "i < length (udp_buffer fd (own w))" "i = 0 \<and> choice = 0 \<or> i = 1 \<and> choice = 1"
      "\<not> has_flag flags MSG_PEEK"
      "recvfrom_copyout G (udp_buffer fd (own w) ! i) buf len src addrlen w = (True, w\<lparr>pt_memory := m\<rparr>)"
      "r = Inr (int (if has_flag flags MSG_TRUNC then length (ud_content (udp_buffer fd (own w) ! i))
                     else min len (length (ud_content (udp_buffer fd (own w) ! i)))))"
      "w' = set_own ((own w)\<lparr>udp_recv_buffers := om_put fd (take i (udp_buffer fd (own w)) @ drop (Suc i) (udp_buffer fd (own w)))
               (udp_recv_buffers (own w))\<rparr>) (if choice = 1 then consume_model_budget 1 (w\<lparr>pt_memory := m\<rparr>) else w\<lparr>pt_memory := m\<rparr>)"
proof -
  let ?q = "udp_buffer fd (own w)"
  define i :: nat where "i = (if choice = 1 \<and> 2 \<le> length ?q then 1 else 0)"
  note run = assms(1) [unfolded do_recvfrom_with_choice_def Let_def assms(2) option.case]
  have stay: thesis if "w' = w" by (rule same [of "pt_memory w"]) (simp add: that)
  show thesis
  proof (cases "has_flag flags (NOT (MSG_DONTWAIT OR MSG_PEEK OR MSG_TRUNC)) \<or> ?q = [] \<or> choice < 0 \<or> 1 < choice")
    case True
    then show thesis using run assms(3) by (intro stay) (elim disjE; simp split: if_splits)
  next
    case False
    note run = run [unfolded if_not_P [OF False [unfolded de_Morgan_disj, THEN conjunct1]]]
    have q: "?q \<noteq> []" "choice = 0 \<or> choice = 1" using False by auto
    show thesis
    proof (cases "choice = 1 \<and> length ?q = 1")
      case True
      then show thesis using run assms(3) q by (intro spent [of "pt_memory w"]) simp_all
    next
      case long: False
      have i: "i < length ?q" "i = 0 \<and> choice = 0 \<or> i = 1 \<and> choice = 1"
        using q long by (auto simp: i_def neq_Nil_conv Suc_le_eq)
      obtain b w1 where o: "recvfrom_copyout G (?q ! i) buf len src addrlen w = (b, w1)" by fastforce
      obtain m where m: "w1 = w\<lparr>pt_memory := m\<rparr>" using recvfrom_copyout_memory [OF o] by blast
      have checks: "sk_type k \<noteq> SOCK_STREAM" "\<not> sk_type k \<noteq> SOCK_DGRAM" "\<not> (choice < 0 \<or> 1 < choice)"
        using assms(3) q(2) by auto
      note run = run [unfolded if_not_P [OF checks(1)] if_not_P [OF checks(2)] if_not_P [OF q(1)] if_not_P [OF checks(3)]
        if_not_P [OF long], folded i_def, unfolded o prod.case]
      show thesis
      proof (cases "b \<and> \<not> has_flag flags MSG_PEEK")
        case True
        then show thesis using run m o by (intro taken [OF i, of m]) (simp_all del: length_0_conv split: if_splits)
      next
        case False
        then have "w' = w1 \<or> choice = 1 \<and> w' = consume_model_budget 1 w1" using run by (cases b) (auto split: if_splits)
        then show thesis using m same [of m] spent [of m] by blast
      qed
    qed
  qed
qed

lemma do_recvfrom_ok:
  assumes "net_ok w" "do_recvfrom_with_choice G fd buf len flags src addrlen choice w = (r, w')"
  shows "net_ok w'"
proof (cases "\<exists>k. get_socket fd (own w) = Some k \<and> sk_type k = SOCK_DGRAM")
  case False
  then show ?thesis using assms
    by (auto simp: do_recvfrom_with_choice_def Let_def split: if_splits option.splits dest: do_recv_ok)
next
  case True
  then obtain k where k: "get_socket fd (own w) = Some k" "sk_type k = SOCK_DGRAM" by blast
  from assms(2) k show ?thesis
  proof (cases rule: do_recvfrom_cases)
    case (taken i m)
    note own = net_ok_own [OF assms(1)]
    let ?q = "udp_buffer fd (own w)"
    have "om_mem fd (sockets (own w))" using k(1) by (simp add: get_socket_def om_memI)
    moreover have "length ?q \<le> MAX_UDP_BUFFER" using node_okD(10) [OF own, of fd] by (simp add: udp_buffer_def split: option.split)
    ultimately have "node_ok ((own w)\<lparr>udp_recv_buffers := om_put fd (take i ?q @ drop (Suc i) ?q) (udp_recv_buffers (own w))\<rparr>) (own_fdm w)"
      using taken(1) by (intro node_ok_udp [OF own]) auto
    then show ?thesis unfolding taken(6) using assms(1) by (intro net_ok_set_own) simp_all
  qed (use assms(1) in simp_all)
qed

lemma do_epoll_create1_ok:
  assumes "net_ok w" "do_epoll_create1 flags w = (r, w')"
  shows "net_ok w'"
proof -
  obtain a m where a: "allocate_fd FT_EPOLL O_RDWR (if flags \<noteq> 0 then FD_CLOEXEC else 0) (own_fdm w) = (a, m)" by fastforce
  note run = assms(2) [unfolded do_epoll_create1_def a prod.case]
  from assms(1) a show ?thesis
  proof (cases rule: own_allocate)
    case (fresh fd)
    have "node_ok ((own w)\<lparr>epoll_instances := om_put fd \<lparr>ep_fd = fd, ep_watched_fds = []\<rparr> (epoll_instances (own w))\<rparr>) m"
      by (rule node_ok_new_epoll [OF net_ok_own [OF assms(1)] fresh(3-6)])
    from net_ok_set_both [OF assms(1) this] show ?thesis using run fresh(1,2) assms(1) by (simp split: if_splits)
  next
    case full
    then have "w' = w" using run by (cases a) (auto split: if_splits)
    with assms(1) show ?thesis by simp
  qed
qed

lemma do_epoll_create_ok: "net_ok w \<Longrightarrow> do_epoll_create n w = (r, w') \<Longrightarrow> net_ok w'"
  by (auto simp: do_epoll_create_def split: if_splits dest: do_epoll_create1_ok)

lemma set_watched_ok:
  assumes "net_ok w" "map_of (epoll_instances (own w)) epfd = Some i" "om_ok watched"
    "\<And>fd. om_mem fd watched \<Longrightarrow> watchable (own_fdm w) fd"
  shows "net_ok (set_watched epfd i watched w)"
  unfolding set_watched_def
  by (rule net_ok_set_own [OF assms(1) node_ok_watched [OF net_ok_own [OF assms(1)] assms(2-4)]])

lemma do_epoll_ctl_ok:
  assumes "net_ok w" "do_epoll_ctl G epfd op fd event w = (r, w')"
  shows "net_ok w'"
proof (cases "map_of (epoll_instances (own w)) epfd")
  case None
  with assms show ?thesis by (simp add: do_epoll_ctl_def)
next
  case (Some i)
  have i: "om_ok (ep_watched_fds i)" "\<And>fd. om_mem fd (ep_watched_fds i) \<Longrightarrow> watchable (own_fdm w) fd"
    using node_okD(11) [OF net_ok_own [OF assms(1)]] Some by (auto simp: watches_ok_def)
  note run = assms(2) [unfolded do_epoll_ctl_def Some option.case Let_def]
  show ?thesis
  proof (cases "get_fd_type fd (own_fdm w) \<noteq> FT_SOCKET \<and> get_fd_type fd (own_fdm w) \<noteq> FT_PIPE")
    case True
    then have "w' = w" using run by (auto split: if_splits)
    with assms(1) show ?thesis by simp
  next
    case False
    then have "watchable (own_fdm w) fd" by (auto simp: watchable_def)
    with i have "net_ok (set_watched epfd i (om_del fd (ep_watched_fds i)) w)"
      "net_ok (set_watched epfd i (om_put fd e (ep_watched_fds i)) w)" for e
      by (auto intro!: set_watched_ok [OF assms(1) Some])
    then show ?thesis using run assms(1) by (auto split: if_splits option.splits)
  qed
qed

lemma do_epoll_close_ok:
  assumes "net_ok w" "do_epoll_close fd w = (r, w')"
  shows "net_ok w'"
proof (cases "om_mem fd (epoll_instances (own w))")
  case False
  with assms show ?thesis by (simp add: do_epoll_close_def)
next
  case True
  note own = net_ok_own [OF assms(1)]
  let ?s = "(own w)\<lparr>epoll_instances := om_del fd (epoll_instances (own w))\<rparr>"
  have absent: "\<not> om_mem fd (sockets (own w))" using True node_okD(7,8) [OF own, of fd] by simp
  then have "\<not> om_mem fd (tcp_connections (own w))" "\<not> om_mem fd (udp_recv_buffers (own w))"
    using node_okD(9) [OF own, of fd] node_okD(10) [OF own, of fd]
    by (cases "map_of (udp_recv_buffers (own w)) fd"; auto simp: om_mem_def [of _ "udp_recv_buffers (own w)"])+
  then have "node_ok (forget_fd fd ?s) (release_fd fd (own_fdm w))"
    using absent node_okD(2) [OF own] by (intro node_ok_removed [OF own]) (auto simp: om_del_absent)
  from net_ok_set_both [OF assms(1) this] show ?thesis
    using assms(2) True by (auto simp: do_epoll_close_def set_own_fdm_set_own)
qed

lemma do_epoll_wait_ok: "net_ok w \<Longrightarrow> do_epoll_wait G epfd events maxevents timeout w = (r, w') \<Longrightarrow> net_ok w'"
  by (auto simp: do_epoll_wait_def Let_def split: option.splits if_splits prod.splits bool.splits dest: guest_out_ok)

lemma emu_epoll_waits_ok:
  "net_ok w \<Longrightarrow> emu_epoll_pwait G epfd events maxevents timeout sigmask w = (r, w') \<Longrightarrow> net_ok w'"
  "net_ok w \<Longrightarrow> emu_epoll_pwait2 G epfd events maxevents timeout2 sigmask w = (r, w') \<Longrightarrow> net_ok w'"
  by (auto simp: emu_epoll_pwait_def emu_epoll_pwait2_def Let_def split: if_splits prod.splits option.splits dest: do_epoll_wait_ok)

lemma socket_ok_options [simp]:
  "socket_ok s fd (k\<lparr>sk_reuse_address := b\<rparr>) = socket_ok s fd k" "socket_ok s fd (k\<lparr>sk_keep_alive := b\<rparr>) = socket_ok s fd k"
  "socket_ok s fd (k\<lparr>sk_no_delay := b\<rparr>) = socket_ok s fd k" "socket_ok s fd (k\<lparr>sk_keep_idle := n\<rparr>) = socket_ok s fd k"
  "socket_ok s fd (k\<lparr>sk_keep_interval := n\<rparr>) = socket_ok s fd k" "socket_ok s fd (k\<lparr>sk_keep_count := n\<rparr>) = socket_ok s fd k"
  by (simp_all add: socket_ok_def)

lemma setting_ok:
  assumes "setsockopt_setting level optname k = Some opt" "socket_ok s fd k"
  shows "opt = Flag f \<Longrightarrow> socket_ok s fd (f b k)" "opt = Number g maximum \<Longrightarrow> socket_ok s fd (g n k)"
  using assms by (auto simp: setsockopt_setting_def split: if_splits)

lemma emu_setsockopt_ok:
  assumes "net_ok w" "emu_setsockopt G fd level optname optval optlen w = (r, w')"
  shows "net_ok w'"
proof (cases "get_socket fd (own w)")
  case None
  with assms show ?thesis by (simp add: emu_setsockopt_def split: if_splits)
next
  case (Some k)
  have k: "map_of (sockets (own w)) fd = Some k" using Some by (simp add: get_socket_def)
  note put = net_ok_set_own [OF assms(1) node_ok_put_socket [OF net_ok_own [OF assms(1)] k]]
  note run = assms(2) [unfolded emu_setsockopt_def Some option.case]
  show ?thesis
  proof (cases "setsockopt_setting level optname k")
    case None
    with run assms(1) show ?thesis by simp
  next
    case opt: (Some opt)
    note set = setting_ok [OF opt node_okD(6) [OF net_ok_own [OF assms(1)] k]]
    show ?thesis using run opt assms(1) put [OF set(1)] put [OF set(2)]
      by (cases opt; cases "guest_in G optval 4 w") (auto split: if_splits)
  qed
qed

lemma emu_getsockopt_ok:
  assumes "net_ok w" "emu_getsockopt G fd level optname optval optlen w = (r, w')"
  shows "net_ok w'"
proof (cases "get_socket fd (own w)")
  case None
  with assms show ?thesis by (simp add: emu_getsockopt_def split: if_splits)
next
  case (Some k)
  note run = assms(2) [unfolded emu_getsockopt_def Some option.case Let_def]
  show ?thesis
  proof (cases "\<exists>value bs. sockopt_value level optname k = Inr value \<and> guest_in G optlen 4 w = Some bs \<and> \<not> INT_MAX < le_int bs")
    case False
    then have "w' = w"
      using run by (cases "sockopt_value level optname k"; cases "guest_in G optlen 4 w") (simp_all split: if_splits)
    with assms(1) show ?thesis by simp
  next
    case True
    then obtain v bs where v: "sockopt_value level optname k = Inr v" "guest_in G optlen 4 w = Some bs" "\<not> INT_MAX < le_int bs"
      by blast
    obtain b w1 where o: "guest_out G optval (take (nat (min (le_int bs) 4)) (le_bytes 4 (uint (word_of_int v :: u32)))) w = (b, w1)"
      by fastforce
    obtain b2 w2 where o2: "guest_out G optlen (le_bytes 4 (min (le_int bs) 4)) w1 = (b2, w2)" by fastforce
    note run = run [unfolded v(1,2) sum.case option.case if_not_P [OF v(3)] o prod.case o2]
    have "net_ok w1" "net_ok w2" using guest_out_ok [OF assms(1) o] guest_out_ok [OF _ o2] by blast+
    with run show ?thesis by (cases b; cases b2) simp_all
  qed
qed

lemma own_fcntl_ok:
  assumes "net_ok w" "do_fcntl fd cmd arg (own_fdm w) = (r, m)"
  shows "net_ok (set_own_fdm m w)"
proof -
  note own = net_ok_own [OF assms(1)]
  have "node_ok (own w) m"
    using fcntl_kind [OF assms(2)] fd_ok_fcntl [OF node_okD(1) [OF own] assms(2)] by (intro node_ok_kinds [OF own]) auto
  from net_ok_set_both [OF assms(1) this] show ?thesis
    using assms(1) by (simp add: set_own_def set_own_fdm_def own_def net_ok_def)
qed

lemma emu_accept4_ok:
  assumes "net_ok w" "emu_accept4 G fd address addrlen flags w = (r, w')"
  shows "net_ok w'"
proof -
  obtain a w1 where a: "do_accept G fd address addrlen w = (a, w1)" by fastforce
  have ok: "net_ok w1" by (rule do_accept_ok [OF assms(1) a])
  let ?step = "\<lambda>fd enabled cmd arg w. if enabled
      then (case do_fcntl fd cmd arg (own_fdm w) of (Inl e, fdm) \<Rightarrow> (Some e, set_own_fdm fdm w) | (Inr _, fdm) \<Rightarrow> (None, set_own_fdm fdm w))
      else (None, w)"
  have step: "net_ok w'" if "?step fd enabled cmd arg w = (e, w')" "net_ok w" for fd enabled cmd arg w e w'
    using that own_fcntl_ok [OF that(2)] by (auto split: if_splits prod.splits sum.splits)
  note run = assms(2) [unfolded emu_accept4_def a prod.case Let_def]
  show ?thesis
  proof (cases "\<exists>n. a = Inr n \<and> 0 \<le> n")
    case False
    then have "w' = w \<or> w' = w1" using run by (cases a) (auto split: if_splits)
    with assms(1) ok show ?thesis by blast
  next
    case True
    then obtain n where n: "a = Inr n" "\<not> n < 0" by auto
    obtain e2 w2 where s2: "?step n (has_flag flags SOCK_NONBLOCK) F_SETFL O_NONBLOCK w1 = (e2, w2)" by fastforce
    obtain e3 w3 where s3: "?step n (has_flag flags SOCK_CLOEXEC) F_SETFD FD_CLOEXEC w2 = (e3, w3)" by fastforce
    note run = run [unfolded n(1) sum.case if_not_P [OF n(2)] s2 prod.case s3]
    have "net_ok w2" "net_ok w3" using step [OF s2 ok] step [OF s3] by blast+
    with run assms(1) show ?thesis by (cases e2; cases e3) (simp_all split: if_splits)
  qed
qed

section \<open>Runs of the network\<close>

text \<open>
  One step: a network call of the running process, a switch to another process, a change of the guest
  memory or of the choice by the search, or a change of the descriptors by another component, which
  neither adds nor removes sockets and epoll instances and keeps the pipes.
\<close>

inductive net_step :: "'m guest \<Rightarrow> 'm ptmc \<Rightarrow> 'm ptmc \<Rightarrow> bool" for G where
  socket_call: "do_socket domain type protocol w = (r, w') \<Longrightarrow> net_step G w w'"
| bind_call: "do_bind G fd address addrlen w = (r, w') \<Longrightarrow> net_step G w w'"
| getsockname_call: "do_getsockname G fd address len w = (n, w') \<Longrightarrow> net_step G w w'"
| getpeername_call: "do_getpeername G fd address len w = (n, w') \<Longrightarrow> net_step G w w'"
| listen_call: "do_listen fd backlog w = (n, w') \<Longrightarrow> net_step G w w'"
| connect_call: "do_connect G fd address addrlen w = (r, w') \<Longrightarrow> net_step G w w'"
| accept_call: "do_accept G fd address len w = (r, w') \<Longrightarrow> net_step G w w'"
| accept4_call: "emu_accept4 G fd address len flags w = (r, w') \<Longrightarrow> net_step G w w'"
| send_call: "do_send G fd address addrlen flags w = (r, w') \<Longrightarrow> net_step G w w'"
| send_buffer_call: "do_send_buffer fd data w = (r, w') \<Longrightarrow> net_step G w w'"
| recv_call: "do_recv G fd address addrlen flags w = (r, w') \<Longrightarrow> net_step G w w'"
| sendto_call: "do_sendto G fd address count flags dest addrlen w = (r, w') \<Longrightarrow> net_step G w w'"
| recvfrom_call: "do_recvfrom_with_choice G fd address count flags src len choice w = (r, w') \<Longrightarrow> net_step G w w'"
| close_call: "sock_do_close fd w = (n, w') \<Longrightarrow> net_step G w w'"
| epoll_create_call: "do_epoll_create1 flags w = (r, w') \<Longrightarrow> net_step G w w'"
| epoll_ctl_call: "do_epoll_ctl G epfd op fd event w = (r, w') \<Longrightarrow> net_step G w w'"
| epoll_wait_call: "do_epoll_wait G epfd events maxevents timeout w = (n, w') \<Longrightarrow> net_step G w w'"
| epoll_close_call: "do_epoll_close fd w = (n, w') \<Longrightarrow> net_step G w w'"
| setsockopt_call: "emu_setsockopt G fd level optname optval optlen w = (r, w') \<Longrightarrow> net_step G w w'"
| getsockopt_call: "emu_getsockopt G fd level optname optval len w = (r, w') \<Longrightarrow> net_step G w w'"
| schedule: "n < length (pt_sock_states w) \<Longrightarrow> net_step G w (w\<lparr>pt_cursor := n\<rparr>)"
| guest_runs: "net_step G w (w\<lparr>pt_memory := m\<rparr>)"
| choice: "net_step G w (w\<lparr>pt_n_choose := a, pt_choose := b\<rparr>)"
| descriptors: "fd_ok m \<Longrightarrow> (\<And>fd. get_fd_type fd m = FT_SOCKET \<longleftrightarrow> get_fd_type fd (own_fdm w) = FT_SOCKET) \<Longrightarrow>
    (\<And>fd. get_fd_type fd m = FT_EPOLL \<longleftrightarrow> get_fd_type fd (own_fdm w) = FT_EPOLL) \<Longrightarrow>
    (\<And>fd. get_fd_type fd (own_fdm w) = FT_PIPE \<Longrightarrow> get_fd_type fd m = FT_PIPE) \<Longrightarrow> net_step G w (set_own_fdm m w)"

lemma net_step_ok: "net_step G w w' \<Longrightarrow> net_ok w \<Longrightarrow> net_ok w'"
proof (induction rule: net_step.induct)
  case (getsockname_call fd address len w n w')
  then show ?case by (auto simp: do_getsockname_def split: option.splits dest: copy_socket_address_ok)
next
  case (getpeername_call fd address len w n w')
  then show ?case by (auto simp: do_getpeername_def split: option.splits if_splits dest: copy_socket_address_ok)
next
  case (descriptors m w)
  then have "node_ok (own w) m" by (intro node_ok_kinds [OF net_ok_own]) auto
  from net_ok_set_both [OF descriptors(5) this] show ?case
    using descriptors(5) by (simp add: set_own_def set_own_fdm_def own_def net_ok_def)
next
  case (schedule n w)
  then show ?case by (simp add: net_ok_def)
next
  case (guest_runs w m)
  then show ?case by simp
next
  case (choice w a b)
  then show ?case by (simp add: net_ok_def)
qed (rule do_socket_ok do_bind_ok do_listen_ok do_connect_ok do_accept_ok emu_accept4_ok do_send_ok do_send_buffer_ok do_recv_ok
        do_sendto_ok do_recvfrom_ok sock_do_close_ok do_epoll_create1_ok do_epoll_ctl_ok do_epoll_wait_ok do_epoll_close_ok
        emu_setsockopt_ok emu_getsockopt_ok, assumption, assumption)+

lemma net_run_ok: "(net_step G)\<^sup>*\<^sup>* w w' \<Longrightarrow> net_ok w \<Longrightarrow> net_ok w'"
  by (induction rule: rtranclp_induct) (auto dest: net_step_ok)

end
