(* ===== verification/Sock_Link.thy ===== *)
theory Sock_Link
  imports Sock_Runs
begin

text \<open>
  Which endpoint a payload reaches. The route of a socket depends only on the outline of the network,
  the sockets and connections without the bytes they hold, which sending and receiving keep.
\<close>

section \<open>The outline of a process\<close>

definition bare_connection :: "tcp_connection \<Rightarrow> tcp_connection" where
  "bare_connection c = c\<lparr>tc_recv_buffer := []\<rparr>"

definition bare_socket :: "socket \<Rightarrow> socket" where
  "bare_socket k = k\<lparr>sk_established_connections := map (\<lambda>(key, c). (key, bare_connection c)) (sk_established_connections k)\<rparr>"

definition outline :: "sock_state \<Rightarrow> (int, socket) omap \<times> int list" where
  "outline s = (map (\<lambda>(fd, k). (fd, bare_socket k)) (sockets s), map fst (tcp_connections s))"

definition outlines :: "'m ptmc \<Rightarrow> ((int, socket) omap \<times> int list) list \<times> string list" where
  "outlines w = (map outline (pt_sock_states w), pt_addrs w)"

lemma om_find_map: "om_find P (map (\<lambda>(k, v). (k, f v)) m) = om_find (\<lambda>k v. P k (f v)) m"
  by (induction m) auto

lemma om_find_cong: "(\<And>k v. (k, v) \<in> set m \<Longrightarrow> P k v = Q k v) \<Longrightarrow> om_find P m = om_find Q m"
  by (induction m) auto

lemma om_find_None: "om_find P m = None \<longleftrightarrow> (\<forall>(k, v) \<in> set m. \<not> P k v)"
  by (induction m) (auto split: if_splits)

lemma om_find_Some: "om_ok m \<Longrightarrow> om_find P m = Some k \<Longrightarrow> \<exists>v. map_of m k = Some v \<and> P k v"
  by (induction m) (auto split: if_splits dest: om_above)

lemma om_find_unique:
  assumes "om_ok m" "map_of m k = Some v" "P k v" "\<And>k' v'. map_of m k' = Some v' \<Longrightarrow> P k' v' \<Longrightarrow> k' = k"
  shows "om_find P m = Some k"
proof (cases "om_find P m")
  case None
  then show ?thesis using assms(1-3) by (auto simp: om_find_None om_lookup_iff)
next
  case (Some x)
  then show ?thesis using om_find_Some [OF assms(1) Some] assms(4) by blast
qed

lemma bare_socket_fields [simp]:
  "sk_connected (bare_socket k) = sk_connected k" "sk_local_addr (bare_socket k) = sk_local_addr k"
  "sk_peer_addr (bare_socket k) = sk_peer_addr k" "sk_listening (bare_socket k) = sk_listening k"
  by (simp_all add: bare_socket_def)

lemma bare_routing:
  "is_peer w n sock (bare_socket k) = is_peer w n sock k" "is_peer w n (bare_socket sock) k = is_peer w n sock k"
  "holds_pending key sock (bare_socket k) = holds_pending key sock k"
  "holds_pending key (bare_socket sock) k = holds_pending key sock k" "socket_key (bare_socket sock) = socket_key sock"
  by (auto simp: is_peer_def holds_pending_def socket_key_def bare_socket_def bare_connection_def map_of_map split: option.split)

lemma route_in_outline:
  "route_in w sock n =
     (let l = outline (pt_sock_states w ! n)
      in case om_find (\<lambda>fd remote. is_peer w n sock remote \<and> fd \<in> set (snd l)) (fst l) of
           Some fd \<Rightarrow> Some (To_Connection n fd)
         | None \<Rightarrow> map_option (To_Pending n) (om_find (\<lambda>fd remote. holds_pending (socket_key sock) sock remote) (fst l)))"
  unfolding route_in_def outline_def Let_def fst_conv snd_conv om_find_map bare_routing by (simp add: om_mem_iff)

lemma route_in_cong:
  assumes "outline (pt_sock_states w ! n) = outline (pt_sock_states w' ! n)" "pt_addrs w = pt_addrs w'"
    "bare_socket sock = bare_socket sock'"
  shows "route_in w sock n = route_in w' sock' n"
proof -
  have "is_peer w n x k = is_peer w' n x k" for x k using assms(2) by (simp add: is_peer_def configured_addr_def)
  then have "is_peer w n sock k = is_peer w' n sock' k" for k using bare_routing(2) assms(3) by metis
  moreover have "holds_pending (socket_key sock) sock = holds_pending (socket_key sock') sock'"
    using bare_routing(4,5) assms(3) by (intro ext) metis
  ultimately show ?thesis unfolding route_in_outline Let_def assms(1) by (simp cong: option.case_cong)
qed

lemma first_route_outline:
  assumes "outlines w = outlines w'" "bare_socket sock = bare_socket sock'" "set nodes \<subseteq> {..< length (pt_sock_states w)}"
  shows "first_route w sock nodes = first_route w' sock' nodes"
proof -
  have len: "length (pt_sock_states w') = length (pt_sock_states w)"
    using assms(1) by (simp add: outlines_def) (metis length_map)
  have "outline (pt_sock_states w ! n) = outline (pt_sock_states w' ! n)" if "n < length (pt_sock_states w)" for n
    using assms(1) that len by (simp add: outlines_def) (metis nth_map)
  moreover have "pt_addrs w = pt_addrs w'" using assms(1) by (simp add: outlines_def)
  ultimately have "route_in w sock n = route_in w' sock' n" if "n < length (pt_sock_states w)" for n
    using that assms(2) by (intro route_in_cong) auto
  with assms(3) show ?thesis by (induction nodes) (auto split: option.split)
qed

section \<open>Transfers keep the outline\<close>

lemma om_put_map: "om_put k (f v) (map (\<lambda>(k, v). (k, f v)) m) = map (\<lambda>(k, v). (k, f v)) (om_put k v m)"
  by (induction k v m rule: om_put.induct) auto

lemma om_map_same:
  assumes "om_ok m" "map_of m k = Some v" "f v' = f v"
  shows "map (\<lambda>(k, v). (k, f v)) (om_put k v' m) = map (\<lambda>(k, v). (k, f v)) m"
proof -
  have "om_ok (map (\<lambda>(k, v). (k, f v)) m)" using assms(1) by (simp add: om_ok_def comp_def case_prod_unfold)
  moreover have "map_of (map (\<lambda>(k, v). (k, f v)) m) k = Some (f v')" using assms(2,3) by (simp add: map_of_map)
  ultimately show ?thesis using om_put_id om_put_map [of k f v' m] by metis
qed

lemma om_keys_same:
  assumes "om_ok m" "om_mem k m"
  shows "map fst (om_put k v m) = map fst m"
proof -
  obtain x where "map_of m k = Some x" using assms(2) by (auto simp: om_mem_def)
  from om_map_same [OF assms(1) this, of "\<lambda>_. ()" v]
  have "map fst (map (\<lambda>(k, v). (k, ())) (om_put k v m)) = map fst (map (\<lambda>(k, v). (k, ())) m)" by simp
  then show ?thesis by (simp add: comp_def case_prod_unfold)
qed

lemma outline_put_connection:
  assumes "node_ok s m" "om_mem fd (tcp_connections s)"
  shows "outline (put_connection fd c s) = outline s"
  using om_keys_same [OF node_okD(3) [OF assms(1)] assms(2)] by (simp add: outline_def put_connection_def)

lemma outline_put_socket:
  assumes "node_ok s m" "map_of (sockets s) fd = Some k" "bare_socket k' = bare_socket k"
  shows "outline (put_socket fd k' s) = outline s"
  using om_map_same [OF node_okD(2) [OF assms(1)] assms(2,3)] by (simp add: outline_def put_socket_def)

lemma bare_push:
  assumes "om_ok (sk_established_connections l)" "map_of (sk_established_connections l) key = Some c"
  shows "bare_socket (l\<lparr>sk_established_connections := om_put key (push_chunk data c) (sk_established_connections l)\<rparr>) = bare_socket l"
  using om_map_same [OF assms, of bare_connection "push_chunk data c"]
  by (simp add: bare_socket_def bare_connection_def push_chunk_def)

lemma outlines_update:
  assumes "outline s = outline (pt_sock_states w ! n)"
  shows "outlines (w\<lparr>pt_sock_states := (pt_sock_states w)[n := s]\<rparr>) = outlines w"
  using assms by (simp add: outlines_def map_update) (metis list_update_beyond list_update_id map_update not_le_imp_less nth_map length_map)

lemma outlines_on_node:
  assumes "net_ok w" "\<And>m. n < length (pt_sock_states w) \<Longrightarrow> node_ok (pt_sock_states w ! n) m \<Longrightarrow> outline (f (pt_sock_states w ! n)) = outline (pt_sock_states w ! n)"
  shows "outlines (on_node n f w) = outlines w"
proof (cases "n < length (pt_sock_states w)")
  case True
  then show ?thesis using assms unfolding on_node_def by (intro outlines_update) (auto simp: net_ok_def)
next
  case False
  then show ?thesis by (simp add: on_node_def list_update_beyond)
qed

lemma outlines_deliver:
  assumes "net_ok w"
  shows "outlines (deliver r key data w) = outlines w"
proof (cases r)
  case (To_Connection n fd)
  then show ?thesis using assms
    by (auto simp: deliver_def intro!: outlines_on_node outline_put_connection om_memI split: option.split)
next
  case (To_Pending n fd)
  have "om_ok (sk_established_connections l)" if "node_ok s m" "map_of (sockets s) fd = Some l" for s m l
    using node_okD(6) [OF that] by (simp add: socket_ok_def)
  with To_Pending show ?thesis using assms
    by (auto simp: deliver_def intro!: outlines_on_node outline_put_socket bare_push split: option.split)
qed

text \<open>The route does not depend on what was sent or received.\<close>

definition route_of :: "'m ptmc \<Rightarrow> socket \<Rightarrow> route option" where
  "route_of w sock = first_route w sock [0..<length (pt_sock_states w)]"

lemma outlines_length: "outlines w = outlines w' \<Longrightarrow> length (pt_sock_states w) = length (pt_sock_states w')"
  by (simp add: outlines_def) (metis length_map)

lemma route_outlines:
  assumes "outlines w = outlines w'" "bare_socket sock = bare_socket sock'"
  shows "route_of w sock = route_of w' sock'"
  unfolding route_of_def outlines_length [OF assms(1), symmetric] by (rule first_route_outline [OF assms]) auto

lemma outlines_socket:
  assumes "outlines w = outlines w'" "n < length (pt_sock_states w)"
  shows "map_option bare_socket (map_of (sockets (pt_sock_states w ! n)) fd) = map_option bare_socket (map_of (sockets (pt_sock_states w' ! n)) fd)"
proof -
  have "outline (pt_sock_states w ! n) = outline (pt_sock_states w' ! n)"
    using assms outlines_length [OF assms(1)] by (simp add: outlines_def) (metis nth_map)
  then have "map_of (map (\<lambda>(fd, k). (fd, bare_socket k)) (sockets (pt_sock_states w ! n))) =
      map_of (map (\<lambda>(fd, k). (fd, bare_socket k)) (sockets (pt_sock_states w' ! n)))" by (simp add: outline_def)
  then show ?thesis by (simp add: map_of_map fun_eq_iff)
qed

lemma outlines_fields [simp]:
  "outlines (w\<lparr>pt_memory := m\<rparr>) = outlines w" "outlines (w\<lparr>pt_cursor := n\<rparr>) = outlines w"
  by (simp_all add: outlines_def)

lemma set_own_on_node: "set_own s w = on_node (pt_cursor w) (\<lambda>_. s) w"
  by (simp add: set_own_def on_node_def)

text \<open>A send appends its bytes to the endpoint of the route, if there is one.\<close>

lemma do_send_cases:
  assumes "do_send G fd buf len flags w = (r, w')"
  obtains (none) "w' = w" "\<And>n. r = Inr n \<Longrightarrow> n \<le> 0"
  | (sent) sock data to where "get_socket fd (own w) = Some sock" "sk_connected sock" "guest_in G buf len w = Some data" "data \<noteq> []"
      "route_of w sock = Some to" "r = Inr (int (length data))" "w' = deliver to (socket_key sock) data w"
proof (cases "w' = w \<and> (\<forall>n. r = Inr n \<longrightarrow> n \<le> 0)")
  case True
  then show thesis by (intro none) simp_all
next
  case False
  obtain sock where s: "get_socket fd (own w) = Some sock"
    using assms False by (auto simp: do_send_def invalid_socket_error_def split: if_splits option.splits)
  note run = assms [unfolded do_send_def s option.case]
  have c: "sk_connected sock" "len \<noteq> 0" using run False by (auto split: if_splits)
  obtain data where d: "guest_in G buf len w = Some data" using run False by (auto split: if_splits option.splits)
  have len: "length data = len" using d guest_read_length by (fastforce simp: guest_in_def)
  have "do_send_buffer fd data w = (r, w')" using run c d False by (auto split: if_splits)
  note run = this [unfolded do_send_buffer_def s option.case, folded route_of_def]
  show thesis
  proof (cases "route_of w sock")
    case None
    with run False show thesis by auto
  next
    case (Some to)
    with run c len show thesis by (intro sent [OF s c(1) d _ Some]) auto
  qed
qed

lemma send_outlines: "net_ok w \<Longrightarrow> do_send G fd buf len flags w = (r, w') \<Longrightarrow> outlines w' = outlines w"
  by (erule do_send_cases) (simp_all add: outlines_deliver)

lemma recv_outlines:
  assumes "net_ok w" "do_recv G fd buf len flags w = (r, w')"
  shows "outlines w' = outlines w"
  using assms(2)
proof (cases rule: do_recv_cases)
  case (taken k c data rest m)
  have "outline (put_connection fd x (own w)) = outline (own w)" for x
    by (rule outline_put_connection [OF net_ok_own [OF assms(1)] om_memI [OF taken(3)]])
  then show ?thesis unfolding taken(10) set_own_def by (subst outlines_update) (simp_all add: own_def)
qed simp

end
