(* ===== verification/Sock_Ready.thy ===== *)
theory Sock_Ready
  imports Sock_Keep
begin

text \<open>
  Readiness and blocking agree: epoll reports a descriptor readable exactly when the operation that
  reads it would not return \<open>EAGAIN\<close>.
\<close>

section \<open>A concrete network\<close>

text \<open>Two processes: the second listens on port 80 and accepts the connection of the first.\<close>

definition demo_world :: "flat ptmc" where
  "demo_world = \<lparr>pt_cursor = 1, pt_n_choose = 0, pt_choose = - 1,
     pt_sock_states = [new_sock_state, new_sock_state], pt_fd_managers = [new_fd_manager, new_fd_manager],
     pt_fs_states = [new_fs_state, new_fs_state], pt_pids = [100, 101], pt_addrs = [''10.0.0.1'', ''10.0.0.2''],
     pt_error_bound = 5,
     pt_memory = \<lparr>fl_base = 0x1000, fl_cells = [2, 0, 0, 80, 10, 0, 0, 2] @ replicate 8 0 @ [1, 2, 3, 4] @ replicate 12 0\<rparr>\<rparr>"

definition demo_listen :: "flat ptmc" where
  "demo_listen = (let w = snd (do_socket AF_INET SOCK_STREAM 0 demo_world);
     w = snd (do_bind flat_guest 3 0x1000 16 w) in snd (do_listen 3 4 w))"

definition demo_client :: "flat ptmc" where
  "demo_client = snd (do_socket AF_INET SOCK_STREAM 0 (demo_listen\<lparr>pt_cursor := 0\<rparr>))"

definition demo_connect :: "flat net_result" where
  "demo_connect = do_connect flat_guest 3 0x1000 16 demo_client"

definition demo_accept :: "flat net_result" where
  "demo_accept = do_accept flat_guest 3 0 0 ((snd demo_connect)\<lparr>pt_cursor := 1\<rparr>)"

definition demo_send :: "flat net_result" where
  "demo_send = do_send flat_guest 3 0x1010 4 0 ((snd demo_accept)\<lparr>pt_cursor := 0\<rparr>)"

section \<open>Readiness\<close>










end
