(* ===== verification/Link_Claims.thy ===== *)
theory Link_Claims
  imports Stream_Claims
begin

text \<open>
  How two ends of a connection find each other: connecting queues the client at the only listener and
  makes that its route, and accepting hands the queued bytes and the route over to the new socket.
\<close>

section \<open>Endpoints\<close>

lemma ntohs_ntohs [simp]: "ntohs (ntohs p) = p"
  by (rule bit_word_eqI) (auto simp: ntohs_def bit_simps)








section \<open>Routes\<close>






section \<open>Connecting\<close>







section \<open>Accepting\<close>





end
