(* ===== verification/Vfs_Dir.thy ===== *)
theory Vfs_Dir
  imports Vfs_Names Sock
begin

text \<open>
  Listing a directory, \<open>do_getdents64\<close> of \<open>src/src/subsys/fs/fsstate.cpp\<close>. The records are written to the
  guest field by field. The memory map of the guest, which the code reads from \<open>/proc\<close> when a field
  straddles two pages, is the parameter \<open>maps\<close>: its ranges with their write permission in order of
  addresses, or nothing when it cannot be opened.
\<close>

section \<open>Fields that straddle two pages\<close>

type_synonym memory_map = "(int \<times> int \<times> bool) list option"

text \<open>The end of the writable part that starts at \<open>cursor\<close>, up to \<open>stop\<close>: the walk over the memory map.\<close>

fun map_walk :: "int \<Rightarrow> int \<Rightarrow> (int \<times> int \<times> bool) list \<Rightarrow> int" where
  "map_walk stop cursor [] = cursor"
| "map_walk stop cursor ((start, past, writable) # rest) =
     (if past \<le> cursor then map_walk stop cursor rest
      else if cursor < start \<or> \<not> writable then cursor
      else if min past stop = stop then stop
      else map_walk stop (min past stop) rest)"

definition crossing_writable :: "string \<Rightarrow> memory_map \<Rightarrow> u64 \<Rightarrow> nat \<Rightarrow> exn + bool" where
  "crossing_writable what maps address n =
     (if uint address mod 4096 + int n \<le> 4096 then Inr True
      else (case maps of
        None \<Rightarrow> Inl (Runtime_error (''Cannot inspect '' @ what @ '' scalar mappings''))
      | Some [] \<Rightarrow> Inl (Runtime_error (''Cannot read '' @ what @ '' scalar mappings''))
      | Some ms \<Rightarrow> Inr (map_walk (uint (address + of_nat n)) (uint address) ms = uint (address + of_nat n))))"

definition put_scalar :: "'m guest \<Rightarrow> memory_map \<Rightarrow> int \<Rightarrow> u64 \<times> byte list \<Rightarrow> 'm \<Rightarrow> (exn + bool) \<times> 'm" where
  "put_scalar G maps pid = (\<lambda>(address, bs) m.
     if UINTPTR_MAX - uint address < int (length bs) then (Inr False, m)
     else (case crossing_writable ''directory'' maps address (length bs) of
       Inl e \<Rightarrow> (Inl e, m)
     | Inr False \<Rightarrow> (Inr False, m)
     | Inr True \<Rightarrow> (case guest_write_exact G pid address bs m of (ok, m) \<Rightarrow> (Inr ok, m))))"

fun put_scalars :: "'m guest \<Rightarrow> memory_map \<Rightarrow> int \<Rightarrow> (u64 \<times> byte list) list \<Rightarrow> 'm \<Rightarrow> (exn + bool) \<times> 'm" where
  "put_scalars G maps pid [] m = (Inr True, m)"
| "put_scalars G maps pid (x # rest) m =
     (case put_scalar G maps pid x m of
        (Inl e, m) \<Rightarrow> (Inl e, m)
      | (Inr False, m) \<Rightarrow> (Inr False, m)
      | (Inr True, m) \<Rightarrow> put_scalars G maps pid rest m)"

section \<open>The entries of a directory\<close>

definition starts_with :: "string \<Rightarrow> string \<Rightarrow> bool" where
  "starts_with prefix s \<longleftrightarrow> take (length prefix) s = prefix"

text \<open>A directory entry is a name and the path of the node that it names.\<close>

fun child_entries :: "string \<Rightarrow> (string \<times> vfs_node) list \<Rightarrow> exn + (string \<times> string) list" where
  "child_entries prefix [] = Inr []"
| "child_entries prefix ((path, node) # rest) =
     (let name = drop (length prefix) path
      in if name = [] \<or> CHR ''/'' \<in> set name then child_entries prefix rest
         else if NAME_MAX < length name \<or> CHR 0x00 \<in> set name
         then Inl (Runtime_error ''Invalid captured directory entry name'')
         else andthen (child_entries prefix rest) (\<lambda>es. Inr ((name, path) # es)))"

definition directory_prefix :: "string \<Rightarrow> string" where
  "directory_prefix path = (if path = ''/'' then ''/'' else path @ ''/'')"

definition directory_entries :: "string \<Rightarrow> (string, vfs_node) omap \<Rightarrow> exn + (string \<times> string) list" where
  "directory_entries path files =
     (let prefix = directory_prefix path
      in andthen (child_entries prefix
             (takeWhile (\<lambda>(p, _). starts_with prefix p) (dropWhile (\<lambda>(p, _). p < prefix) files)))
           (\<lambda>es. Inr ((''.'', path) # (''..'', parent_of path) # es)))"

section \<open>Writing the records\<close>

abbreviation (input) address_limit :: int where "address_limit \<equiv> 140737488355328"

definition dirent_length :: "string \<Rightarrow> nat" where
  "dirent_length name = (19 + length name + 1 + 7) div 8 * 8"

definition dirent_type :: "u32 \<Rightarrow> byte" where
  "dirent_type mode = (if S_ISDIR mode then 4 else if S_ISREG mode then 8 else if S_ISLNK mode then 10 else 0)"

definition put_dirent ::
  "'m guest \<Rightarrow> memory_map \<Rightarrow> int \<Rightarrow> u64 \<Rightarrow> u64 \<Rightarrow> int \<Rightarrow> u64 \<Rightarrow> u32 \<Rightarrow> string \<Rightarrow> 'm \<Rightarrow> (exn + bool) \<times> 'm" where
  "put_dirent G maps pid address previous cookie inode mode name m =
     (case put_scalars G maps pid
             [(address - previous + 8, le_bytes 8 cookie), (address, le_bytes 8 (uint inode)),
              (address + 16, le_bytes 2 (int (dirent_length name))), (address + 18, [dirent_type mode]),
              (address + 19 + of_nat (length name), [0])] m of
        (Inr True, m) \<Rightarrow>
          (case guest_write_exact G pid (address + 19) (bytes_of_string name) m of (ok, m) \<Rightarrow> (Inr ok, m))
      | r \<Rightarrow> r)"

record dents =
  de_offset :: int
  de_written :: int
  de_previous :: int
  de_error :: int

fun dents_loop ::
  "'m guest \<Rightarrow> memory_map \<Rightarrow> int \<Rightarrow> (string, u64) omap \<Rightarrow> (string, vfs_node) omap \<Rightarrow> u64 \<Rightarrow> int \<Rightarrow>
   (string \<times> string) list \<Rightarrow> dents \<Rightarrow> 'm \<Rightarrow> exn option \<times> dents \<times> 'm" where
  "dents_loop G maps pid inodes files start remaining [] d m = (None, d, m)"
| "dents_loop G maps pid inodes files start remaining ((name, path) # rest) d m =
     (let len = int (dirent_length name); address = start + word_of_int (de_written d)
      in if remaining < len then (None, d\<lparr>de_error := - EINVAL\<rparr>, m)
         else if address < start \<or> address_limit \<le> uint address \<or> address_limit - uint address < len
         then (None, d\<lparr>de_error := - EFAULT\<rparr>, m)
         else (case (map_of inodes path, map_of files path) of
           (Some inode, Some node) \<Rightarrow>
             (case put_dirent G maps pid address (word_of_int (de_previous d)) (de_offset d) inode (vn_mode node) name m of
                (Inl e, m) \<Rightarrow> (Some e, d, m)
              | (Inr False, m) \<Rightarrow> (None, d\<lparr>de_error := - EFAULT\<rparr>, m)
              | (Inr True, m) \<Rightarrow>
                  dents_loop G maps pid inodes files start (remaining - len) rest
                    (d\<lparr>de_offset := de_offset d + 1, de_written := de_written d + len, de_previous := len\<rparr>) m)
         | _ \<Rightarrow> (Some Out_of_range, d, m)))"

abbreviation (input) scratch_page :: u64 where "scratch_page \<equiv> 0x0000600000000000"

definition dents_overlap_scratch :: "u64 \<Rightarrow> u32 \<Rightarrow> bool" where
  "dents_overlap_scratch start count \<longleftrightarrow> count \<noteq> 0 \<and> start < scratch_page + 4096 \<and>
     (UINTPTR_MAX - uint start < uint count \<or> uint scratch_page < uint start + uint count)"

text \<open>The last record keeps the position where the next call continues.\<close>

definition dents_finish :: "'m guest \<Rightarrow> memory_map \<Rightarrow> int \<Rightarrow> u64 \<Rightarrow> dents \<Rightarrow> 'm \<Rightarrow> (exn + int) \<times> 'm" where
  "dents_finish G maps pid start d m =
     (if de_previous d = 0 then (Inr (de_error d), m)
      else (case put_scalar G maps pid
                   (start + word_of_int (de_written d) - word_of_int (de_previous d) + 8, le_bytes 8 (de_offset d)) m of
              (Inl e, m) \<Rightarrow> (Inl e, m)
            | (Inr False, m) \<Rightarrow> (Inr (- EFAULT), m)
            | (Inr True, m) \<Rightarrow> (Inr (de_written d), m)))"

definition do_getdents64 ::
  "'m guest \<Rightarrow> memory_map \<Rightarrow> (string \<Rightarrow> u64) \<Rightarrow> int \<Rightarrow> u64 \<Rightarrow> u32 \<Rightarrow> int \<Rightarrow> fs_state \<Rightarrow> fd_manager \<Rightarrow> 'm \<Rightarrow>
   (exn + int) \<times> fs_state \<times> 'm" where
  "do_getdents64 G maps hash fd buffer count pid fs fdm m =
     (if \<not> is_allocated fd fdm then (Inr (- EBADF), fs, m)
      else (case map_of (open_files fs) fd of
        None \<Rightarrow> (Inr (- ENOTDIR), fs, m)
      | Some description \<Rightarrow>
          (case map_of (filesystem fs) (of_path description) of
             None \<Rightarrow> (Inl (Runtime_error ''Directory descriptor has no captured payload''), fs, m)
           | Some node \<Rightarrow>
               if \<not> S_ISDIR (vn_mode node) then (Inr (- ENOTDIR), fs, m)
               else if of_offset description < 0
               then (Inl (Runtime_error ''Negative captured directory cursor''), fs, m)
               else (case vfs_inodes hash (filesystem fs) of
                 Inl e \<Rightarrow> (Inl e, fs, m)
               | Inr inodes \<Rightarrow>
                   (case directory_entries (of_path description) (filesystem fs) of
                      Inl e \<Rightarrow> (Inl e, fs, m)
                    | Inr entries \<Rightarrow>
                        if int (length entries) \<le> of_offset description then (Inr 0, fs, m)
                        else if dents_overlap_scratch buffer count
                        then (Inl (Runtime_error ''getdents64 output overlaps reserved scratch page''), fs, m)
                        else (case dents_loop G maps pid inodes (filesystem fs) buffer (sint count)
                                     (drop (nat (of_offset description)) entries)
                                     \<lparr>de_offset = of_offset description, de_written = 0, de_previous = 0, de_error = 0\<rparr> m of
                          (e, d, m) \<Rightarrow>
                            (let fs = fs\<lparr>open_files := om_put fd (description\<lparr>of_offset := de_offset d\<rparr>) (open_files fs)\<rparr>
                             in case e of
                                  Some e \<Rightarrow> (Inl e, fs, m)
                                | None \<Rightarrow> (case dents_finish G maps pid buffer d m of (r, m) \<Rightarrow> (r, fs, m)))))))))"

end
