(* ===== verification/Task.thy ===== *)
theory Task
  imports Futex Vfs_Dir Sock_Epoll
begin

text \<open>
  Threads and their unfinished system calls: \<open>src/src/core/engine/pending_syscall.h\<close>, the part of
  \<open>thread_state\<close> and \<open>tracee_state\<close> (\<open>src/src/core/state/state.h\<close>) that they use, and the deadlines of
  \<open>src/src/core/engine/pending_syscall.cpp\<close>. The registers, the name and the signal state of a thread
  take no part and are left out. Times are integers; \<open>int64_t\<close> and \<open>__int128\<close> never wrap here, which the
  bounds below show.
\<close>

section \<open>Numbers of system calls, clocks\<close>

abbreviation (input) SYS_read :: int where "SYS_read \<equiv> 0"
abbreviation (input) SYS_write :: int where "SYS_write \<equiv> 1"
abbreviation (input) SYS_poll :: int where "SYS_poll \<equiv> 7"
abbreviation (input) SYS_nanosleep :: int where "SYS_nanosleep \<equiv> 35"
abbreviation (input) SYS_accept :: int where "SYS_accept \<equiv> 43"
abbreviation (input) SYS_recvfrom :: int where "SYS_recvfrom \<equiv> 45"
abbreviation (input) SYS_futex :: int where "SYS_futex \<equiv> 202"
abbreviation (input) SYS_clock_nanosleep :: int where "SYS_clock_nanosleep \<equiv> 230"
abbreviation (input) SYS_epoll_wait :: int where "SYS_epoll_wait \<equiv> 232"
abbreviation (input) SYS_pselect6 :: int where "SYS_pselect6 \<equiv> 270"
abbreviation (input) SYS_epoll_pwait :: int where "SYS_epoll_pwait \<equiv> 281"
abbreviation (input) SYS_accept4 :: int where "SYS_accept4 \<equiv> 288"
abbreviation (input) SYS_epoll_pwait2 :: int where "SYS_epoll_pwait2 \<equiv> 441"
abbreviation (input) CLOCK_REALTIME :: int where "CLOCK_REALTIME \<equiv> 0"
abbreviation (input) CLOCK_MONOTONIC :: int where "CLOCK_MONOTONIC \<equiv> 1"
abbreviation (input) TIMER_ABSTIME :: int where "TIMER_ABSTIME \<equiv> 1"
abbreviation (input) INT64_MAX :: int where "INT64_MAX \<equiv> 9223372036854775807"
abbreviation (input) MAX_THREADS :: nat where "MAX_THREADS \<equiv> 64"

text \<open>\<open>static_cast<int>\<close> of an argument register.\<close>

definition as_int :: "u64 \<Rightarrow> int" where
  "as_int a = sint (ucast a :: u32)"

section \<open>Data\<close>

datatype pending_phase = Waiting | Retry | Ready
datatype pending_reason = By_Futex | By_Io | By_Timer

record pending_deadline =
  pd_clock_id :: int
  pd_sec :: int
  pd_nsec :: int
  pd_timeout_result :: int

record pending_syscall =
  ps_phase :: pending_phase
  ps_reason :: pending_reason
  ps_nr :: int
  ps_args :: "u64 list"
  ps_result :: int
  ps_deadline :: "pending_deadline option"

record thread_state =
  th_tid :: int
  th_physical_tid :: int
  th_alive :: bool
  th_pending :: "pending_syscall option"

record tracee_state =
  ts_threads :: "thread_state list"
  ts_futex :: "futex_state option"

record syscall_info =
  si_nr :: int
  si_rval :: u64
  si_args :: "u64 list"

text \<open>The first element that satisfies a condition: the loops over the threads.\<close>

fun find_slot :: "('a \<Rightarrow> bool) \<Rightarrow> 'a list \<Rightarrow> nat option" where
  "find_slot P [] = None"
| "find_slot P (x # xs) = (if P x then Some 0 else map_option Suc (find_slot P xs))"

definition find_thread :: "int \<Rightarrow> tracee_state \<Rightarrow> nat option" where
  "find_thread tid ts = find_slot (\<lambda>t. th_tid t = tid \<and> th_alive t) (ts_threads ts)"

lemma find_slot_Some:
  "find_slot P xs = Some i \<Longrightarrow> i < length xs \<and> P (xs ! i) \<and> (\<forall>j < i. \<not> P (xs ! j))"
proof (induction xs arbitrary: i)
  case (Cons x xs)
  show ?case
  proof (cases "P x")
    case False
    then obtain k where k: "i = Suc k" "find_slot P xs = Some k" using Cons.prems by auto
    then show ?thesis using Cons.IH [OF k(2)] False by (auto simp: nth_Cons less_Suc_eq_0_disj split: nat.split)
  qed (use Cons.prems in auto)
qed simp

lemma find_slot_None: "find_slot P xs = None \<longleftrightarrow> (\<forall>x \<in> set xs. \<not> P x)"
  by (induction xs) auto

section \<open>Deadlines\<close>

definition validate_deadline :: "pending_deadline \<Rightarrow> exn + unit" where
  "validate_deadline d =
     (if pd_clock_id d \<noteq> CLOCK_REALTIME \<and> pd_clock_id d \<noteq> CLOCK_MONOTONIC \<or>
         pd_sec d < 0 \<or> pd_nsec d < 0 \<or> 1000000000 \<le> pd_nsec d
      then Inl (Runtime_error ''Invalid pending syscall deadline'') else Inr ())"

definition deadline_ns :: "pending_deadline \<Rightarrow> int" where
  "deadline_ns d = pd_sec d * 1000000000 + pd_nsec d"

definition timed_allowed :: "pending_syscall \<Rightarrow> pending_deadline \<Rightarrow> bool" where
  "timed_allowed p d =
     (case ps_reason p of
        By_Futex \<Rightarrow>
          (let operation = as_int (ps_args p ! 1); command = get_op operation
           in (command = FUTEX_WAIT \<or> command = FUTEX_WAIT_BITSET) \<and>
              (\<not> has_flag operation FUTEX_CLOCK_REALTIME \<or> command = FUTEX_WAIT_BITSET) \<and>
              (command \<noteq> FUTEX_WAIT_BITSET \<or> (ucast (ps_args p ! 5) :: u32) \<noteq> 0) \<and> ps_args p ! 3 \<noteq> 0 \<and>
              pd_timeout_result d = - ETIMEDOUT \<and>
              pd_clock_id d = (if has_flag operation FUTEX_CLOCK_REALTIME then CLOCK_REALTIME else CLOCK_MONOTONIC))
      | By_Timer \<Rightarrow>
          pd_timeout_result d = 0 \<and>
          (if ps_nr p = SYS_nanosleep then ps_args p ! 0 \<noteq> 0 \<and> pd_clock_id d = CLOCK_MONOTONIC
           else if ps_nr p = SYS_clock_nanosleep
           then ps_args p ! 2 \<noteq> 0 \<and> \<not> has_flag (as_int (ps_args p ! 1)) (NOT TIMER_ABSTIME) \<and>
                pd_clock_id d = as_int (ps_args p ! 0)
           else ps_nr p = SYS_pselect6 \<and> ps_args p ! 4 \<noteq> 0 \<and> pd_clock_id d = CLOCK_MONOTONIC)
      | By_Io \<Rightarrow>
          pd_timeout_result d = 0 \<and> pd_clock_id d = CLOCK_MONOTONIC \<and>
          (ps_nr p = SYS_epoll_pwait2 \<and> ps_args p ! 3 \<noteq> 0 \<or>
           (ps_nr p = SYS_epoll_wait \<or> ps_nr p = SYS_epoll_pwait) \<and> 0 < as_int (ps_args p ! 3) \<or>
           ps_nr p = SYS_poll \<and> 0 < as_int (ps_args p ! 2) \<or>
           ps_nr p = SYS_read \<or> ps_nr p = SYS_write \<or> ps_nr p = SYS_recvfrom \<or>
           ps_nr p = SYS_accept \<or> ps_nr p = SYS_accept4))"

definition validate_timed_pending :: "pending_syscall \<Rightarrow> pending_deadline \<Rightarrow> exn + unit" where
  "validate_timed_pending p d =
     (if \<not> timed_allowed p d then Inl (Runtime_error ''Unsupported pending deadline combination'')
      else andthen (validate_deadline d) (\<lambda>_.
        if INT64_MAX < deadline_ns d then Inl (Runtime_error ''Pending deadline exceeds Linux ktime range'')
        else Inr ()))"

definition clock_ok :: "timespec \<Rightarrow> bool" where
  "clock_ok now \<longleftrightarrow> 0 \<le> fst now \<and> 0 \<le> snd now \<and> snd now < 1000000"

definition validate_model_time :: "nat \<Rightarrow> timespec list \<Rightarrow> exn + unit" where
  "validate_model_time node clocks =
     (if length clocks \<le> node then Inl (Runtime_error ''Pending syscall node out of range'')
      else if \<not> clock_ok (clocks ! node) then Inl (Runtime_error ''Invalid modeled clock for pending deadline'')
      else Inr ())"

definition to_ktime :: "int \<Rightarrow> int \<Rightarrow> int" where
  "to_ktime seconds nanos =
     (if INT64_MAX div 1000000000 \<le> seconds then INT64_MAX else seconds * 1000000000 + nanos)"

definition make_pending_deadline ::
  "nat \<Rightarrow> timespec list \<Rightarrow> int \<Rightarrow> int \<Rightarrow> int \<Rightarrow> bool \<Rightarrow> int \<Rightarrow> exn + pending_deadline" where
  "make_pending_deadline node clocks clock_id sec nsec relative timeout_result =
     (let d = \<lparr>pd_clock_id = clock_id, pd_sec = sec, pd_nsec = nsec, pd_timeout_result = timeout_result\<rparr>
      in andthen (validate_deadline d) (\<lambda>_. andthen (validate_model_time node clocks) (\<lambda>_.
        (let absolute = to_ktime sec nsec +
               (if relative then to_ktime (fst (clocks ! node)) (snd (clocks ! node) * 1000) else 0);
             bounded = (if INT64_MAX < absolute then INT64_MAX else absolute)
         in Inr (d\<lparr>pd_sec := bounded div 1000000000, pd_nsec := bounded mod 1000000000\<rparr>)))))"

definition pending_timeout_clock :: "timespec \<Rightarrow> pending_deadline \<Rightarrow> exn + timespec" where
  "pending_timeout_clock source d =
     andthen (validate_deadline d) (\<lambda>_.
       if \<not> clock_ok source \<or> INT64_MAX < deadline_ns d then Inl (Runtime_error ''Invalid pending timeout clock'')
       else
         (let usec = (pd_nsec d + 999) div 1000;
              target = (if usec = 1000000 then (pd_sec d + 1, 0) else (pd_sec d, usec))
          in Inr (if fst target < fst source \<or> fst source = fst target \<and> snd target < snd source
                  then source else target)))"

text \<open>The comparison of the clock with a deadline, in \<open>pending_timeout_due\<close> and the sleeping calls.\<close>

definition deadline_due :: "timespec \<Rightarrow> pending_deadline \<Rightarrow> bool" where
  "deadline_due now d \<longleftrightarrow> pd_sec d < fst now \<or> fst now = pd_sec d \<and> pd_nsec d \<le> snd now * 1000"

end
