(* ===== verification/Task_Claims.thy ===== *)
theory Task_Claims
  imports Task
begin

text \<open>
  What the deadlines of unfinished calls promise: they saturate at the largest time that the emulated
  kernel represents, and the clock that the search jumps to is the earliest one at which a call is due.
\<close>

definition clock_us :: "timespec \<Rightarrow> int" where
  "clock_us t = fst t * 1000000 + snd t"

lemma validate_deadline_iff [simp]:
  "validate_deadline d = Inr u \<longleftrightarrow> (pd_clock_id d = CLOCK_REALTIME \<or> pd_clock_id d = CLOCK_MONOTONIC) \<and>
     0 \<le> pd_sec d \<and> 0 \<le> pd_nsec d \<and> pd_nsec d < 1000000000"
  by (auto simp: validate_deadline_def)

lemma validate_model_time_iff [simp]:
  "validate_model_time node clocks = Inr u \<longleftrightarrow> node < length clocks \<and> clock_ok (clocks ! node)"
  by (auto simp: validate_model_time_def)

text \<open>Lexicographic comparisons of seconds and a fraction, as comparisons of the sum.\<close>

lemma lex_less_eq:
  fixes a b x y k :: int
  assumes "0 \<le> x" "x < k" "0 \<le> y" "y < k"
  shows "a < b \<or> b = a \<and> x \<le> y \<longleftrightarrow> a * k + x \<le> b * k + y" "a < b \<or> b = a \<and> x < y \<longleftrightarrow> a * k + x < b * k + y"
proof -
  consider "a < b" | "a = b" | "b < a" by linarith
  then have "(a < b \<or> b = a \<and> x \<le> y \<longleftrightarrow> a * k + x \<le> b * k + y) \<and> (a < b \<or> b = a \<and> x < y \<longleftrightarrow> a * k + x < b * k + y)"
  proof cases
    case 1
    then have "(a + 1) * k \<le> b * k" using assms by (intro mult_right_mono) auto
    then have "a * k + k \<le> b * k" by (simp add: distrib_right)
    with 1 assms show ?thesis by auto
  next
    case 3
    then have "(b + 1) * k \<le> a * k" using assms by (intro mult_right_mono) auto
    then have "b * k + k \<le> a * k" by (simp add: distrib_right)
    with 3 assms show ?thesis by auto
  qed auto
  then show "a < b \<or> b = a \<and> x \<le> y \<longleftrightarrow> a * k + x \<le> b * k + y" "a < b \<or> b = a \<and> x < y \<longleftrightarrow> a * k + x < b * k + y" by blast+
qed

text \<open>A due deadline, in nanoseconds.\<close>

lemma deadline_due_ns:
  assumes "clock_ok now" "0 \<le> pd_nsec d" "pd_nsec d < 1000000000"
  shows "deadline_due now d \<longleftrightarrow> deadline_ns d \<le> clock_us now * 1000"
proof -
  have now: "0 \<le> snd now * 1000" "snd now * 1000 < 1000000000" using assms(1) by (auto simp: clock_ok_def)
  have "clock_us now * 1000 = fst now * 1000000000 + snd now * 1000" by (simp add: clock_us_def)
  with lex_less_eq(1) [OF assms(2,3) now, of "pd_sec d" "fst now"] show ?thesis by (simp add: deadline_due_def deadline_ns_def)
qed

lemma to_ktime_bounds:
  assumes "0 \<le> sec" "0 \<le> nsec" "nsec < 1000000000"
  shows "0 \<le> to_ktime sec nsec" "to_ktime sec nsec \<le> INT64_MAX" "min INT64_MAX (sec * 1000000000 + nsec) \<le> to_ktime sec nsec"
    "sec < INT64_MAX div 1000000000 \<Longrightarrow> to_ktime sec nsec = sec * 1000000000 + nsec"
  using assms by (auto simp: to_ktime_def)

lemma make_pending_deadlineD:
  assumes "make_pending_deadline node clocks clock_id sec nsec relative timeout_result = Inr d"
  shows "clock_id = CLOCK_REALTIME \<or> clock_id = CLOCK_MONOTONIC" "0 \<le> sec" "0 \<le> nsec" "nsec < 1000000000"
    "node < length clocks" "clock_ok (clocks ! node)" "pd_clock_id d = clock_id" "pd_timeout_result d = timeout_result"
    "deadline_ns d = min INT64_MAX (to_ktime sec nsec +
       (if relative then to_ktime (fst (clocks ! node)) (snd (clocks ! node) * 1000) else 0))"
    "0 \<le> pd_sec d" "0 \<le> pd_nsec d" "pd_nsec d < 1000000000"
proof -
  define t where "t = to_ktime sec nsec + (if relative then to_ktime (fst (clocks ! node)) (snd (clocks ! node) * 1000) else 0)"
  define b where "b = (if INT64_MAX < t then INT64_MAX else t)"
  have b: "b = min INT64_MAX t" by (simp add: b_def)
  have in_ok: "clock_id = CLOCK_REALTIME \<or> clock_id = CLOCK_MONOTONIC" "0 \<le> sec" "0 \<le> nsec" "nsec < 1000000000"
    "node < length clocks" "clock_ok (clocks ! node)"
    and d: "d = \<lparr>pd_clock_id = clock_id, pd_sec = b div 1000000000, pd_nsec = b mod 1000000000, pd_timeout_result = timeout_result\<rparr>"
    using assms unfolding make_pending_deadline_def Let_def t_def [symmetric] b_def [symmetric] by (auto simp: andthen_Inr)
  have "0 \<le> t" unfolding t_def
    using in_ok to_ktime_bounds(1) [of sec nsec] to_ktime_bounds(1) [of "fst (clocks ! node)" "snd (clocks ! node) * 1000"]
    by (auto simp: clock_ok_def)
  then have nonneg: "0 \<le> b" by (simp add: b)
  from in_ok show "clock_id = CLOCK_REALTIME \<or> clock_id = CLOCK_MONOTONIC" "0 \<le> sec" "0 \<le> nsec" "nsec < 1000000000"
    "node < length clocks" "clock_ok (clocks ! node)" by blast+
  show "pd_clock_id d = clock_id" "pd_timeout_result d = timeout_result" "deadline_ns d = min INT64_MAX (to_ktime sec nsec +
       (if relative then to_ktime (fst (clocks ! node)) (snd (clocks ! node) * 1000) else 0))"
    by (simp_all only: d deadline_ns_def pending_deadline.simps b [symmetric] t_def [symmetric] div_mult_mod_eq)
  show "0 \<le> pd_sec d" "0 \<le> pd_nsec d" "pd_nsec d < 1000000000"
    using nonneg by (simp_all add: d pos_imp_zdiv_nonneg_iff)
qed

text \<open>
  C35.deadline_saturates. A deadline that is accepted is in range for the kernel's 64-bit nanoseconds, never
  earlier than the requested instant (or the end of time), exactly that instant when the seconds of
  the request and of the clock are below the kernel's limit, and a relative wait of a positive time is
  not due when it is set.
\<close>

theorem deadline_saturates:
  assumes "make_pending_deadline node clocks clock_id sec nsec relative timeout_result = Inr d"
    and "start = (if relative then clock_us (clocks ! node) * 1000 else 0)"
  shows "0 \<le> deadline_ns d \<and> deadline_ns d \<le> INT64_MAX \<and> 0 \<le> pd_nsec d \<and> pd_nsec d < 1000000000 \<and>
    min INT64_MAX (start + sec * 1000000000 + nsec) \<le> deadline_ns d \<and>
    (sec < INT64_MAX div 1000000000 \<longrightarrow> (relative \<longrightarrow> fst (clocks ! node) < INT64_MAX div 1000000000) \<longrightarrow>
      deadline_ns d = min INT64_MAX (start + sec * 1000000000 + nsec)) \<and>
    (relative \<longrightarrow> 0 < sec * 1000000000 + nsec \<longrightarrow> clock_us (clocks ! node) * 1000 < INT64_MAX \<longrightarrow>
      \<not> deadline_due (clocks ! node) d)"
proof -
  note D = make_pending_deadlineD [OF assms(1)]
  let ?now = "clocks ! node"
  have now: "0 \<le> fst ?now" "0 \<le> snd ?now * 1000" "snd ?now * 1000 < 1000000000"
    "clock_us ?now * 1000 = fst ?now * 1000000000 + snd ?now * 1000"
    using D(6) by (auto simp: clock_ok_def clock_us_def)
  note r = to_ktime_bounds [OF D(2-4)] and n = to_ktime_bounds [OF now(1-3)]
  have range: "0 \<le> deadline_ns d" "deadline_ns d \<le> INT64_MAX"
    using D(9) r(1) n(1) by auto
  have low: "min INT64_MAX (start + sec * 1000000000 + nsec) \<le> deadline_ns d"
    using r(1-3) n(1-3) now(4) D(9) assms(2) by (auto simp: min_def split: if_splits)
  have exact: "sec < INT64_MAX div 1000000000 \<longrightarrow> (relative \<longrightarrow> fst ?now < INT64_MAX div 1000000000) \<longrightarrow>
      deadline_ns d = min INT64_MAX (start + sec * 1000000000 + nsec)"
    using r(4) n(4) now(4) D(9) assms(2) by auto
  have later: "relative \<longrightarrow> 0 < sec * 1000000000 + nsec \<longrightarrow> clock_us ?now * 1000 < INT64_MAX \<longrightarrow> \<not> deadline_due ?now d"
    using low assms(2) deadline_due_ns [OF D(6,11,12)] by (auto simp: min_def split: if_splits)
  from range low exact later D(11,12) show ?thesis by blast
qed

lemma demo_deadline: "make_pending_deadline 0 [(5, 250000)] CLOCK_MONOTONIC 1 0 True 0 =
    Inr \<lparr>pd_clock_id = CLOCK_MONOTONIC, pd_sec = 6, pd_nsec = 250000000, pd_timeout_result = 0\<rparr>"
  by code_simp

theorem deadline_saturates_witness:
  "\<not> deadline_due (5, 250000) \<lparr>pd_clock_id = CLOCK_MONOTONIC, pd_sec = 6, pd_nsec = 250000000, pd_timeout_result = 0\<rparr>"
  using deadline_saturates [OF demo_deadline refl] by (simp add: clock_us_def)

text \<open>
  The clock to which the search advances a process so that a call times out: a valid clock, not before
  the present one, at which the deadline has passed, and the earliest such clock.
\<close>

lemma timeout_clock_earliest:
  assumes "validate_deadline d = Inr ()" and "deadline_ns d \<le> INT64_MAX" and "clock_ok source"
  shows "\<exists>t. pending_timeout_clock source d = Inr t \<and> clock_ok t \<and> clock_us source \<le> clock_us t \<and> deadline_due t d \<and>
    (\<forall>t'. clock_ok t' \<longrightarrow> clock_us source \<le> clock_us t' \<longrightarrow> deadline_due t' d \<longrightarrow> clock_us t \<le> clock_us t')"
proof -
  have d: "0 \<le> pd_sec d" "0 \<le> pd_nsec d" "pd_nsec d < 1000000000" using assms(1) by auto
  define usec where "usec = (pd_nsec d + 999) div 1000"
  have usec: "0 \<le> usec" "usec \<le> 1000000" "pd_nsec d \<le> usec * 1000" "usec * 1000 < pd_nsec d + 1000"
    using d unfolding usec_def by linarith+
  define target where "target = (if usec = 1000000 then (pd_sec d + 1, 0) else (pd_sec d, usec))"
  have target: "clock_ok target" "clock_us target = pd_sec d * 1000000 + usec"
    using usec d by (auto simp: target_def clock_ok_def clock_us_def)
  define t where "t = (if fst target < fst source \<or> fst source = fst target \<and> snd target < snd source then source else target)"
  have run: "pending_timeout_clock source d = Inr t"
    unfolding pending_timeout_clock_def assms(1) andthen.simps Let_def usec_def [symmetric] target_def [symmetric] t_def [symmetric]
    using assms(2,3) by simp
  have t: "clock_ok t" "clock_us t = max (clock_us source) (clock_us target)"
  proof -
    have "(fst target < fst source \<or> fst source = fst target \<and> snd target < snd source) \<longleftrightarrow> clock_us target < clock_us source"
      using lex_less_eq(2) [of "snd target" 1000000 "snd source" "fst target" "fst source"] target(1) assms(3)
      by (simp add: clock_ok_def clock_us_def)
    with target assms(3) show "clock_ok t" "clock_us t = max (clock_us source) (clock_us target)" by (auto simp: t_def)
  qed
  have due: "deadline_due c d \<longleftrightarrow> clock_us target \<le> clock_us c" if "clock_ok c" for c
    using deadline_due_ns [OF that d(2,3)] usec(3,4) unfolding deadline_ns_def target(2) by linarith
  show ?thesis using run t due [OF t(1)] due by (intro exI [of _ t]) auto
qed

end
