(* ===== verification/Io.thy ===== *)
theory Io
  imports Task
begin

text \<open>
  The descriptor boundary of \<open>src/src/subsys/io.cpp\<close>: one entry point for files, standard streams, pipes,
  sockets and epoll instances. Every call looks up the kind of the descriptor and hands over to the
  component that holds the payload. The time stamp of a change, \<open>modeled_fs_time\<close> of the running process,
  is the parameter \<open>now\<close>; the threads whose unfinished calls \<open>require_no_pending_fd\<close>
  (\<open>src/src/subsys/pending_io.cpp\<close>) inspects are the parameter \<open>ts\<close>.
\<close>

section \<open>The files of the running process\<close>

definition own_fs :: "'m ptmc \<Rightarrow> fs_state" where
  "own_fs w = pt_fs_states w ! pt_cursor w"

definition set_own_fs :: "fs_state \<Rightarrow> 'm ptmc \<Rightarrow> 'm ptmc" where
  "set_own_fs fs w = w\<lparr>pt_fs_states := (pt_fs_states w)[pt_cursor w := fs]\<rparr>"

definition own_pid :: "'m ptmc \<Rightarrow> int" where
  "own_pid w = pt_pids w ! pt_cursor w"

abbreviation (input) no_file :: exn where
  "no_file \<equiv> Runtime_error ''Descriptor registry has no corresponding file payload''"

abbreviation (input) no_socket :: exn where
  "no_socket \<equiv> Runtime_error ''Socket descriptor has no payload''"

abbreviation (input) bad_kind :: exn where
  "bad_kind \<equiv> Runtime_error ''Unsupported virtual descriptor kind''"

section \<open>Reading and writing\<close>

text \<open>A read that cannot be copied out restores the offset, which leaves the files as they were.\<close>

definition read_file :: "'m guest \<Rightarrow> int \<Rightarrow> u64 \<Rightarrow> nat \<Rightarrow> 'm ptmc \<Rightarrow> 'm net_result" where
  "read_file G fd destination count w =
     (case map_of (open_files (own_fs w)) fd of
        None \<Rightarrow> (Inl no_file, w)
      | Some d \<Rightarrow>
          (case map_of (filesystem (own_fs w)) (of_path d) of
             None \<Rightarrow> (Inl Out_of_range, w)
           | Some node \<Rightarrow>
               if of_offset d < 0 then (Inl (Runtime_error ''Negative virtual file offset''), w)
               else
                 (let available = (if int (length (vn_content node)) \<le> of_offset d then 0
                                   else length (vn_content node) - nat (of_offset d))
                  in case do_read fd (min count available) (own_fs w) (own_fdm w) of
                       (Inl e, fs) \<Rightarrow> (Inl e, set_own_fs fs w)
                     | (Inr (result, data), fs) \<Rightarrow>
                         if result \<le> 0 then (Inr result, set_own_fs fs w)
                         else (case guest_out G destination data w of
                                 (True, w) \<Rightarrow> (Inr result, set_own_fs fs w)
                               | (False, w) \<Rightarrow>
                                   (Inr (- EFAULT),
                                    set_own_fs (fs\<lparr>open_files := om_put fd (d\<lparr>of_offset := of_offset d\<rparr>) (open_files fs)\<rparr>) w)))))"

definition emu_read :: "'m guest \<Rightarrow> int \<Rightarrow> u64 \<Rightarrow> nat \<Rightarrow> 'm ptmc \<Rightarrow> 'm net_result" where
  "emu_read G fd destination count w =
     (if \<not> is_allocated fd (own_fdm w) then (Inr (- EBADF), w)
      else (case get_fd_type fd (own_fdm w) of
        FT_SOCKET \<Rightarrow>
          (case get_socket fd (own w) of
             None \<Rightarrow> (Inl no_socket, w)
           | Some k \<Rightarrow> if sk_type k = SOCK_DGRAM then do_recvfrom G fd destination count 0 0 0 w
                       else do_recv G fd destination count 0 w)
      | FT_PIPE \<Rightarrow>
          (case do_pipe_read G (own_pid w) fd destination count (own_fs w) (own_fdm w) (pt_memory w) of
             (n, fs, m) \<Rightarrow> (Inr n, set_own_fs fs (w\<lparr>pt_memory := m\<rparr>)))
      | FT_EPOLL \<Rightarrow> (Inr (- EINVAL), w)
      | FT_FILE \<Rightarrow> read_file G fd destination count w
      | FT_STDIO \<Rightarrow> read_file G fd destination count w
      | FT_UNKNOWN \<Rightarrow> (Inl bad_kind, w)))"

definition write_file :: "timespec \<Rightarrow> int \<Rightarrow> byte list \<Rightarrow> 'm ptmc \<Rightarrow> 'm net_result" where
  "write_file now fd data w =
     (case do_write now fd data (own_fs w) (own_fdm w) of (r, fs) \<Rightarrow> (r, set_own_fs fs w))"

definition require_unmapped :: "int \<Rightarrow> 'm ptmc \<Rightarrow> exn option" where
  "require_unmapped fd w =
     (case map_of (open_files (own_fs w)) fd of
        None \<Rightarrow> Some Out_of_range
      | Some d \<Rightarrow> require_unmapped_file (own_fs w) (of_path d))"

definition write_guest_file :: "'m guest \<Rightarrow> timespec \<Rightarrow> int \<Rightarrow> u64 \<Rightarrow> nat \<Rightarrow> 'm ptmc \<Rightarrow> 'm net_result" where
  "write_guest_file G now fd source count w =
     (if \<not> om_mem fd (open_files (own_fs w)) then (Inl no_file, w)
      else if get_status_flags fd (own_fdm w) AND O_ACCMODE = O_RDONLY then (Inr (- EBADF), w)
      else (case (if count = 0 then None else require_unmapped fd w) of
        Some e \<Rightarrow> (Inl e, w)
      | None \<Rightarrow> (case guest_in G source count w of
                   None \<Rightarrow> (Inr (- EFAULT), w)
                 | Some data \<Rightarrow> write_file now fd data w)))"

definition emu_write :: "'m guest \<Rightarrow> timespec \<Rightarrow> int \<Rightarrow> u64 \<Rightarrow> nat \<Rightarrow> 'm ptmc \<Rightarrow> 'm net_result" where
  "emu_write G now fd source count w =
     (if \<not> is_allocated fd (own_fdm w) then (Inr (- EBADF), w)
      else (case get_fd_type fd (own_fdm w) of
        FT_SOCKET \<Rightarrow>
          (case get_socket fd (own w) of
             None \<Rightarrow> (Inl no_socket, w)
           | Some k \<Rightarrow> if sk_type k = SOCK_DGRAM then do_sendto G fd source count 0 0 0 w
                       else do_send G fd source count 0 w)
      | FT_PIPE \<Rightarrow>
          (case do_pipe_write G (own_pid w) fd source count (own_fs w) (own_fdm w) (pt_memory w) of
             (r, fs) \<Rightarrow> (r, set_own_fs fs w))
      | FT_EPOLL \<Rightarrow> (Inr (- EINVAL), w)
      | FT_FILE \<Rightarrow> write_guest_file G now fd source count w
      | FT_STDIO \<Rightarrow> write_guest_file G now fd source count w
      | FT_UNKNOWN \<Rightarrow> (Inl bad_kind, w)))"

section \<open>Gathered writes\<close>

text \<open>A pair of an address and a length, as the guest describes one part of the data.\<close>

type_synonym iovec = "u64 \<times> int"

abbreviation (input) INTPTR_MAX :: int where "INTPTR_MAX \<equiv> 9223372036854775807"
abbreviation (input) max_rw_count :: int where "max_rw_count \<equiv> 0x7ffff000"
abbreviation (input) low_user_limit :: int where "low_user_limit \<equiv> 140737488351232"

definition writev_range_ok :: "u64 \<Rightarrow> int \<Rightarrow> exn + bool" where
  "writev_range_ok address len =
     (if INTPTR_MAX < uint address \<or> INTPTR_MAX - uint address < len then Inr False
      else if low_user_limit \<le> uint address \<or> low_user_limit - uint address < len
      then Inl (Runtime_error ''Unsupported writev high user address range'')
      else Inr True)"

fun import_iovecs :: "'m guest \<Rightarrow> u64 \<Rightarrow> nat \<Rightarrow> 'm ptmc \<Rightarrow> int + iovec list" where
  "import_iovecs G item 0 w = Inr []"
| "import_iovecs G item (Suc n) w =
     (case guest_in G (item + 8) 8 w of
        None \<Rightarrow> Inl (- EFAULT)
      | Some len \<Rightarrow>
          (case guest_in G item 8 w of
             None \<Rightarrow> Inl (- EFAULT)
           | Some base \<Rightarrow>
               if SSIZE_MAX < le_int len then Inl (- EINVAL)
               else (case import_iovecs G (item + 16) n w of
                       Inl e \<Rightarrow> Inl e
                     | Inr rest \<Rightarrow> Inr ((word_of_int (le_int base), le_int len) # rest))))"

fun check_iovecs :: "iovec list \<Rightarrow> exn + bool" where
  "check_iovecs [] = Inr True"
| "check_iovecs ((base, len) # rest) =
     (case writev_range_ok base len of
        Inl e \<Rightarrow> Inl e
      | Inr False \<Rightarrow> Inr False
      | Inr True \<Rightarrow> check_iovecs rest)"

fun clip_iovecs :: "int \<Rightarrow> iovec list \<Rightarrow> iovec list" where
  "clip_iovecs used [] = []"
| "clip_iovecs used ((base, len) # rest) =
     (let len = min len (max_rw_count - used) in (base, len) # clip_iovecs (used + len) rest)"

definition iovecs_total :: "iovec list \<Rightarrow> int" where
  "iovecs_total entries = sum_list (map snd entries)"

fun gather :: "'m guest \<Rightarrow> iovec list \<Rightarrow> 'm ptmc \<Rightarrow> byte list option" where
  "gather G [] w = Some []"
| "gather G ((base, len) # rest) w =
     (case (if len = 0 then Some [] else guest_in G base (nat len) w) of
        None \<Rightarrow> None
      | Some data \<Rightarrow> map_option (append data) (gather G rest w))"

text \<open>The checks that follow the import of the vector: what the call would do to its resource.\<close>

definition writev_admitted :: "int \<Rightarrow> fd_type \<Rightarrow> int \<Rightarrow> 'm ptmc \<Rightarrow> exn option" where
  "writev_admitted fd kind len w =
     (if kind = FT_SOCKET
      then (case get_socket fd (own w) of
              None \<Rightarrow> Some no_socket
            | Some k \<Rightarrow>
                if sk_domain k \<noteq> AF_INET \<or> sk_type k \<noteq> SOCK_STREAM \<or> \<not> sk_connected k
                then Some (Runtime_error ''Unsupported writev socket; requires connected modeled TCP'') else None)
      else if kind = FT_FILE \<or> kind = FT_STDIO
      then (if len = 0 then None else require_unmapped fd w)
      else Some (Runtime_error ''Unsupported writev descriptor kind''))"

definition writev_commit :: "timespec \<Rightarrow> int \<Rightarrow> fd_type \<Rightarrow> byte list \<Rightarrow> 'm ptmc \<Rightarrow> 'm net_result" where
  "writev_commit now fd kind payload w =
     (if kind = FT_SOCKET
      then (case do_send_buffer fd payload w of
              (Inl e, w) \<Rightarrow> (Inl e, w)
            | (Inr result, w) \<Rightarrow>
                if result < 0 then (Inl (Runtime_error ''Unsupported writev non-routable TCP endpoint''), w)
                else (Inr result, w))
      else write_file now fd payload w)"

definition writev_entries ::
  "'m guest \<Rightarrow> timespec \<Rightarrow> int \<Rightarrow> fd_type \<Rightarrow> iovec list \<Rightarrow> 'm ptmc \<Rightarrow> 'm net_result" where
  "writev_entries G now fd kind entries w =
     (let entries = (case entries of [(base, len)] \<Rightarrow> [(base, min len max_rw_count)] | _ \<Rightarrow> entries)
      in case check_iovecs entries of
           Inl e \<Rightarrow> (Inl e, w)
         | Inr False \<Rightarrow> (Inr (- EFAULT), w)
         | Inr True \<Rightarrow>
             (let entries = clip_iovecs 0 entries; len = iovecs_total entries
              in if 67108864 < len then (Inl (Runtime_error ''writev staging exceeds 64MiB model limit''), w)
                 else (case writev_admitted fd kind len w of
                   Some e \<Rightarrow> (Inl e, w)
                 | None \<Rightarrow>
                     (case gather G entries w of
                        None \<Rightarrow> (Inl (Runtime_error ''Unsupported writev payload fault before resource commit''), w)
                      | Some payload \<Rightarrow> writev_commit now fd kind payload w))))"

definition emu_writev :: "'m guest \<Rightarrow> timespec \<Rightarrow> int \<Rightarrow> u64 \<Rightarrow> u64 \<Rightarrow> 'm ptmc \<Rightarrow> 'm net_result" where
  "emu_writev G now fd guest raw_count w =
     (if \<not> is_allocated fd (own_fdm w) then (Inr (- EBADF), w)
      else
        (let kind = get_fd_type fd (own_fdm w); count = uint (ucast raw_count :: u32)
         in if kind = FT_EPOLL then (Inr (- EINVAL), w)
            else if (kind = FT_FILE \<or> kind = FT_STDIO) \<and> \<not> om_mem fd (open_files (own_fs w)) then (Inl no_file, w)
            else if (kind = FT_FILE \<or> kind = FT_STDIO \<or> kind = FT_PIPE) \<and>
                    get_status_flags fd (own_fdm w) AND O_ACCMODE = O_RDONLY
            then (Inr (- EBADF), w)
            else if 1024 < count then (Inr (- EINVAL), w)
            else (case (if count = 0 then Inr True else writev_range_ok guest (count * 16)) of
              Inl e \<Rightarrow> (Inl e, w)
            | Inr False \<Rightarrow> (Inr (- EFAULT), w)
            | Inr True \<Rightarrow>
                (case import_iovecs G guest (nat count) w of
                   Inl err \<Rightarrow> (Inr err, w)
                 | Inr entries \<Rightarrow> writev_entries G now fd kind entries w))))"

end
