(* ===== verification/Io_Ctl.thy ===== *)
theory Io_Ctl
  imports Io
begin

text \<open>
  Closing, status and control of descriptors, and the readiness scans \<open>select\<close> and \<open>poll\<close> of
  \<open>src/src/subsys/io.cpp\<close>, with \<open>require_no_pending_fd\<close> of \<open>src/src/subsys/pending_io.cpp\<close>.
\<close>

section \<open>Descriptors that unfinished calls retain\<close>

definition retains_fd :: "int \<Rightarrow> thread_state \<Rightarrow> bool" where
  "retains_fd fd t \<longleftrightarrow> th_alive t \<and>
     (case th_pending t of
        None \<Rightarrow> False
      | Some p \<Rightarrow> ps_reason p = By_Io \<and> ps_phase p \<noteq> Ready \<and> as_int (ps_args p ! 0) = fd)"

definition require_no_pending_fd :: "thread_state list \<Rightarrow> int \<Rightarrow> exn option" where
  "require_no_pending_fd ts fd =
     (if list_ex (retains_fd fd) ts
      then Some (Runtime_error ''Mutating a descriptor retained by pending I/O is unsupported'') else None)"

section \<open>Closing and status\<close>

definition close_payload :: "int \<Rightarrow> 'm ptmc \<Rightarrow> 'm net_result" where
  "close_payload fd w =
     (case get_fd_type fd (own_fdm w) of
        FT_SOCKET \<Rightarrow> (case sock_do_close fd w of (n, w) \<Rightarrow> (Inr n, w))
      | FT_PIPE \<Rightarrow>
          (case do_pipe_close fd (own_fs w) (own_fdm w) of
             (n, fs, fdm) \<Rightarrow> (Inr n, set_own_fs fs (set_own_fdm fdm w)))
      | FT_EPOLL \<Rightarrow> (case do_epoll_close fd w of (n, w) \<Rightarrow> (Inr n, w))
      | FT_UNKNOWN \<Rightarrow> (Inl bad_kind, w)
      | _ \<Rightarrow>
          if \<not> om_mem fd (open_files (own_fs w)) then (Inl no_file, w)
          else (case do_close fd (own_fs w) (own_fdm w) of
                  (r, fs, fdm) \<Rightarrow> (r, set_own_fs fs (set_own_fdm fdm w))))"

definition emu_close :: "thread_state list \<Rightarrow> int \<Rightarrow> 'm ptmc \<Rightarrow> 'm net_result" where
  "emu_close ts fd w =
     (case require_no_pending_fd ts fd of
        Some e \<Rightarrow> (Inl e, w)
      | None \<Rightarrow>
          if \<not> is_allocated fd (own_fdm w) then (Inr (- EBADF), w)
          else (case close_payload fd w of
                  (Inl e, w) \<Rightarrow> (Inl e, w)
                | (Inr result, w) \<Rightarrow> (Inr result, if result = 0 then set_own (forget_fd fd (own w)) w else w)))"

text \<open>The bytes of a \<open>struct stat\<close> of x86-64, with the fields that the model does not track zero.\<close>

definition stat_bytes :: "stat \<Rightarrow> byte list" where
  "stat_bytes st =
     replicate 8 0 @ le_bytes 8 (uint (st_ino st)) @ replicate 8 0 @ le_bytes 4 (uint (st_mode st)) @ replicate 20 0 @
     le_bytes 8 (st_size st) @ replicate 32 0 @ le_bytes 8 (fst (st_mtim st)) @ le_bytes 8 (snd (st_mtim st)) @ replicate 40 0"

definition blank_stat :: "u32 \<Rightarrow> stat" where
  "blank_stat mode = \<lparr>st_ino = 0, st_mode = mode, st_size = 0, st_mtim = (0, 0)\<rparr>"

definition emu_fstat :: "'m guest \<Rightarrow> (string \<Rightarrow> u64) \<Rightarrow> int \<Rightarrow> u64 \<Rightarrow> 'm ptmc \<Rightarrow> 'm net_result" where
  "emu_fstat G hash fd destination w =
     (let copy = (\<lambda>st. case guest_out G destination (stat_bytes st) w of
            (True, w) \<Rightarrow> (Inr 0, w) | (False, w) \<Rightarrow> (Inr (- EFAULT), w));
          kind = get_fd_type fd (own_fdm w)
      in if \<not> is_allocated fd (own_fdm w) then (Inr (- EBADF), w)
         else if kind = FT_FILE \<or> kind = FT_STDIO
         then
           if \<not> om_mem fd (open_files (own_fs w)) then (Inl no_file, w)
           else (case do_fstat hash fd (own_fs w) (own_fdm w) of
                   Inl e \<Rightarrow> (Inl e, w)
                 | Inr (Inl err) \<Rightarrow> (Inr err, w)
                 | Inr (Inr st) \<Rightarrow> copy (if kind = FT_STDIO then st\<lparr>st_size := 0\<rparr> else st))
         else if kind = FT_SOCKET then copy (blank_stat 0xC180)
         else if kind = FT_PIPE then copy (blank_stat 0x1180)
         else if kind = FT_EPOLL then copy (blank_stat 0x180)
         else (Inl bad_kind, w))"

definition emu_fcntl :: "thread_state list \<Rightarrow> int \<Rightarrow> int \<Rightarrow> int \<Rightarrow> 'm ptmc \<Rightarrow> 'm net_result" where
  "emu_fcntl ts fd command argument w =
     (case (if command = F_SETFL then require_no_pending_fd ts fd else None) of
        Some e \<Rightarrow> (Inl e, w)
      | None \<Rightarrow> (case do_fcntl fd command (sint (word_of_int argument :: u32)) (own_fdm w) of
                   (r, fdm) \<Rightarrow> (r, set_own_fdm fdm w)))"

definition emu_ftruncate :: "timespec \<Rightarrow> int \<Rightarrow> int \<Rightarrow> 'm ptmc \<Rightarrow> 'm net_result" where
  "emu_ftruncate now fd len w =
     (if len < 0 then (Inr (- EINVAL), w)
      else if \<not> is_allocated fd (own_fdm w) then (Inr (- EBADF), w)
      else if get_fd_type fd (own_fdm w) \<noteq> FT_FILE then (Inr (- EINVAL), w)
      else if \<not> om_mem fd (open_files (own_fs w)) then (Inl no_file, w)
      else (case do_ftruncate now fd len (own_fs w) (own_fdm w) of (r, fs) \<Rightarrow> (r, set_own_fs fs w)))"

definition emu_fsync :: "int \<Rightarrow> 'm ptmc \<Rightarrow> exn + int" where
  "emu_fsync fd w =
     (if \<not> is_allocated fd (own_fdm w) then Inr (- EBADF)
      else if get_fd_type fd (own_fdm w) \<noteq> FT_FILE then Inr (- EINVAL)
      else if \<not> om_mem fd (open_files (own_fs w)) then Inl no_file
      else Inr 0)"

definition emu_fdatasync :: "int \<Rightarrow> 'm ptmc \<Rightarrow> exn + int" where
  "emu_fdatasync fd w = emu_fsync fd w"

section \<open>Device control\<close>

abbreviation (input) TCGETS :: u32 where "TCGETS \<equiv> 0x5401"
abbreviation (input) TIOCGWINSZ :: u32 where "TIOCGWINSZ \<equiv> 0x5413"
abbreviation (input) FIONREAD :: u32 where "FIONREAD \<equiv> 0x541B"
abbreviation (input) FIONBIO :: u32 where "FIONBIO \<equiv> 0x5421"
abbreviation (input) FIONCLEX :: u32 where "FIONCLEX \<equiv> 0x5450"
abbreviation (input) FIOCLEX :: u32 where "FIOCLEX \<equiv> 0x5451"

text \<open>The number of bytes that wait, or the error number to return.\<close>

definition socket_readable_bytes :: "int \<Rightarrow> sock_state \<Rightarrow> exn + (int + int)" where
  "socket_readable_bytes fd s =
     (case get_socket fd s of
        None \<Rightarrow> Inl no_socket
      | Some k \<Rightarrow>
          if sk_listening k then Inr (Inl (- EINVAL))
          else if sk_type k = SOCK_DGRAM
          then (case map_of (udp_recv_buffers s) fd of
                  Some (dg # _) \<Rightarrow> Inr (Inr (int (length (ud_content dg)))) | _ \<Rightarrow> Inr (Inr 0))
          else (case map_of (tcp_connections s) fd of
                  None \<Rightarrow> Inr (Inr 0)
                | Some c \<Rightarrow> Inr (Inr (int (sum_list (map length (tc_recv_buffer c)))))))"

definition readable_bytes :: "int \<Rightarrow> 'm ptmc \<Rightarrow> exn + (int + int)" where
  "readable_bytes fd w =
     (case get_fd_type fd (own_fdm w) of
        FT_PIPE \<Rightarrow>
          (case map_of (pipe_fds (own_fs w)) fd of
             None \<Rightarrow> Inl Out_of_range
           | Some i \<Rightarrow>
               (case map_of (pipes (own_fs w)) (if 0 < i then i else - i) of
                  None \<Rightarrow> Inl Out_of_range
                | Some p \<Rightarrow> Inr (Inr (int (length (pi_buffer p))))))
      | FT_SOCKET \<Rightarrow> socket_readable_bytes fd (own w)
      | FT_FILE \<Rightarrow>
          (case map_of (open_files (own_fs w)) fd of
             None \<Rightarrow> Inl no_file
           | Some d \<Rightarrow>
               (case map_of (filesystem (own_fs w)) (of_path d) of
                  None \<Rightarrow> Inl Out_of_range
                | Some node \<Rightarrow>
                    (let n = int (length (vn_content node)); offset = uint (word_of_int (of_offset d) :: u64)
                     in Inr (Inr (if n \<le> offset then 0 else n - offset)))))
      | FT_STDIO \<Rightarrow> Inr (Inl (- ENOTTY))
      | _ \<Rightarrow> Inl (Runtime_error ''Unsupported virtual ioctl descriptor kind''))"

definition fcntl_own :: "int \<Rightarrow> int \<Rightarrow> int \<Rightarrow> 'm ptmc \<Rightarrow> 'm net_result" where
  "fcntl_own fd command argument w =
     (case do_fcntl fd command argument (own_fdm w) of (r, fdm) \<Rightarrow> (r, set_own_fdm fdm w))"

definition emu_ioctl :: "'m guest \<Rightarrow> thread_state list \<Rightarrow> int \<Rightarrow> u64 \<Rightarrow> u64 \<Rightarrow> 'm ptmc \<Rightarrow> 'm net_result" where
  "emu_ioctl G ts fd raw_request argument w =
     (let request = ucast raw_request :: u32
      in if \<not> is_allocated fd (own_fdm w) then (Inr (- EBADF), w)
         else if request = FIOCLEX \<or> request = FIONCLEX
         then fcntl_own fd F_SETFD (if request = FIOCLEX then FD_CLOEXEC else 0) w
         else if request = TCGETS \<or> request = TIOCGWINSZ then (Inr (- ENOTTY), w)
         else if request = FIONBIO
         then (case require_no_pending_fd ts fd of
                 Some e \<Rightarrow> (Inl e, w)
               | None \<Rightarrow>
                   (case guest_in G argument 4 w of
                      None \<Rightarrow> (Inr (- EFAULT), w)
                    | Some bs \<Rightarrow>
                        (let flags = get_status_flags fd (own_fdm w)
                         in fcntl_own fd F_SETFL (if le_int32 bs \<noteq> 0 then flags OR O_NONBLOCK
                              else flags AND NOT O_NONBLOCK) w)))
         else if request = FIONREAD
         then (case readable_bytes fd w of
                 Inl e \<Rightarrow> (Inl e, w)
               | Inr (Inl err) \<Rightarrow> (Inr err, w)
               | Inr (Inr bytes) \<Rightarrow>
                   (case guest_out G argument (le_bytes 4 (min bytes INT_MAX)) w of
                      (True, w) \<Rightarrow> (Inr 0, w) | (False, w) \<Rightarrow> (Inr (- EFAULT), w)))
         else (Inl (Runtime_error ''Unsupported virtual ioctl request''), w))"

end
