(* ===== verification/Io_Poll.thy ===== *)
theory Io_Poll
  imports Io_Ctl
begin

text \<open>
  Readiness of descriptors outside epoll, \<open>src/src/subsys/io.cpp\<close>: the scans behind \<open>pselect6\<close> and \<open>poll\<close>.
  The memory map of the guest, which \<open>emu_poll\<close> reads from \<open>/proc\<close> when a result straddles two pages, is the
  parameter \<open>maps\<close>.
\<close>

section \<open>Readiness\<close>

abbreviation (input) POLLIN :: u32 where "POLLIN \<equiv> 0x1"
abbreviation (input) POLLOUT :: u32 where "POLLOUT \<equiv> 0x4"
abbreviation (input) POLLERR :: u32 where "POLLERR \<equiv> 0x8"
abbreviation (input) POLLHUP :: u32 where "POLLHUP \<equiv> 0x10"
abbreviation (input) POLLNVAL :: u32 where "POLLNVAL \<equiv> 0x20"
abbreviation (input) POLLRDNORM :: u32 where "POLLRDNORM \<equiv> 0x40"
abbreviation (input) POLLWRNORM :: u32 where "POLLWRNORM \<equiv> 0x100"

text \<open>The adjustments that both scans make to the events of a socket and of a pipe.\<close>

definition socket_readiness :: "int \<Rightarrow> 'm ptmc \<Rightarrow> exn + u32" where
  "socket_readiness fd w =
     (case get_socket fd (own w) of
        None \<Rightarrow> Inl no_socket
      | Some k \<Rightarrow>
          Inr (ready_events (own w) (own_fs w) fd OR
               flag_if (sk_type k = SOCK_STREAM \<and> \<not> sk_connected k \<and> \<not> sk_listening k) (POLLOUT OR POLLHUP)))"

definition pipe_readiness :: "int \<Rightarrow> 'm ptmc \<Rightarrow> exn + u32" where
  "pipe_readiness fd w =
     (case map_of (pipe_fds (own_fs w)) fd of
        None \<Rightarrow> Inl Out_of_range
      | Some key \<Rightarrow>
          (case map_of (pipes (own_fs w)) \<bar>key\<bar> of
             None \<Rightarrow> Inl Out_of_range
           | Some p \<Rightarrow>
               (let ready = ready_events (own w) (own_fs w) fd;
                    ready = (if 0 < key \<and> pi_buffer p = [] then ready AND NOT POLLIN else ready)
                in Inr (if key < 0 \<and> int (length (pi_buffer p)) < pipe_capacity then ready OR POLLOUT else ready))))"

definition descriptor_readiness :: "int \<Rightarrow> 'm ptmc \<Rightarrow> exn + u32" where
  "descriptor_readiness fd w =
     (case get_fd_type fd (own_fdm w) of
        FT_EPOLL \<Rightarrow> Inr (flag_if (epoll_ready (own w) (own_fs w) fd) POLLIN)
      | FT_SOCKET \<Rightarrow> socket_readiness fd w
      | FT_PIPE \<Rightarrow> pipe_readiness fd w
      | FT_UNKNOWN \<Rightarrow> Inl (Runtime_error ''Unsupported select descriptor kind'')
      | _ \<Rightarrow> if om_mem fd (open_files (own_fs w)) then Inr (POLLIN OR POLLOUT) else Inl no_file)"

section \<open>Select\<close>

abbreviation (input) FD_SETSIZE :: int where "FD_SETSIZE \<equiv> 1024"
abbreviation (input) select_set_bytes :: nat where "select_set_bytes \<equiv> 128"

definition set_bit_at :: "byte list \<Rightarrow> nat \<Rightarrow> bool" where
  "set_bit_at bits fd = bit (bits ! (fd div 8)) (fd mod 8)"

definition put_bit_at :: "byte list \<Rightarrow> nat \<Rightarrow> byte list" where
  "put_bit_at bits fd = bits[fd div 8 := bits ! (fd div 8) OR push_bit (fd mod 8) 1]"

definition stage_guest_set :: "'m guest \<Rightarrow> u64 \<Rightarrow> 'm ptmc \<Rightarrow> int + byte list option" where
  "stage_guest_set G pointer w =
     (if pointer = 0 then Inr None
      else (case guest_in G pointer select_set_bytes w of
              None \<Rightarrow> Inl (- EFAULT)
            | Some bs \<Rightarrow> Inr (Some bs)))"

definition wants :: "byte list option \<Rightarrow> nat \<Rightarrow> bool" where
  "wants bits fd = (case bits of None \<Rightarrow> False | Some bs \<Rightarrow> set_bit_at bs fd)"

text \<open>The loop over the descriptors, with the sets to return and the count.\<close>

fun select_scan ::
  "'m ptmc \<Rightarrow> byte list option \<Rightarrow> byte list option \<Rightarrow> byte list option \<Rightarrow> nat list \<Rightarrow>
   byte list \<Rightarrow> byte list \<Rightarrow> int \<Rightarrow> exn + (int + (byte list \<times> byte list \<times> int))" where
  "select_scan w rd wr ex [] read_out write_out n = Inr (Inr (read_out, write_out, n))"
| "select_scan w rd wr ex (fd # fds) read_out write_out n =
     (if \<not> wants rd fd \<and> \<not> wants wr fd \<and> \<not> wants ex fd then select_scan w rd wr ex fds read_out write_out n
      else if \<not> is_allocated (int fd) (own_fdm w) then Inr (Inl (- EBADF))
      else (case descriptor_readiness (int fd) w of
        Inl e \<Rightarrow> Inl e
      | Inr ready \<Rightarrow>
          (let can_read = (wants rd fd \<and> ready AND (POLLIN OR POLLHUP OR POLLERR) \<noteq> 0);
               can_write = (wants wr fd \<and> ready AND (POLLOUT OR POLLERR) \<noteq> 0)
           in select_scan w rd wr ex fds
                (if can_read then put_bit_at read_out fd else read_out)
                (if can_write then put_bit_at write_out fd else write_out)
                (if can_read \<or> can_write then n + 1 else n))))"

text \<open>The sets are written back one after the other; a fault leaves the earlier ones written.\<close>

fun put_sets :: "'m guest \<Rightarrow> (u64 \<times> byte list) list \<Rightarrow> 'm ptmc \<Rightarrow> bool \<times> 'm ptmc" where
  "put_sets G [] w = (True, w)"
| "put_sets G ((pointer, bits) # rest) w =
     (if pointer = 0 then put_sets G rest w
      else (case guest_out G pointer bits w of
              (False, w) \<Rightarrow> (False, w)
            | (True, w) \<Rightarrow> put_sets G rest w))"

definition emu_select_scan :: "'m guest \<Rightarrow> int \<Rightarrow> u64 \<Rightarrow> u64 \<Rightarrow> u64 \<Rightarrow> 'm ptmc \<Rightarrow> 'm net_result" where
  "emu_select_scan G nfds readfds writefds exceptfds w =
     (if nfds < 0 then (Inr (- EINVAL), w)
      else (case stage_guest_set G readfds w of
        Inl err \<Rightarrow> (Inr err, w)
      | Inr rd \<Rightarrow>
          (case stage_guest_set G writefds w of
             Inl err \<Rightarrow> (Inr err, w)
           | Inr wr \<Rightarrow>
               (case stage_guest_set G exceptfds w of
                  Inl err \<Rightarrow> (Inr err, w)
                | Inr ex \<Rightarrow>
                    (let clear = replicate select_set_bytes 0
                     in case select_scan w rd wr ex [0..<nat (min nfds FD_SETSIZE)] clear clear 0 of
                          Inl e \<Rightarrow> (Inl e, w)
                        | Inr (Inl err) \<Rightarrow> (Inr err, w)
                        | Inr (Inr (read_out, write_out, n)) \<Rightarrow>
                            (case put_sets G [(readfds, read_out), (writefds, write_out), (exceptfds, clear)] w of
                               (False, w) \<Rightarrow> (Inr (- EFAULT), w)
                             | (True, w) \<Rightarrow> (Inr n, w)))))))"

definition emu_select_clear :: "'m guest \<Rightarrow> u64 \<Rightarrow> u64 \<Rightarrow> u64 \<Rightarrow> 'm ptmc \<Rightarrow> 'm ptmc" where
  "emu_select_clear G readfds writefds exceptfds w =
     fold (\<lambda>pointer w. if pointer = 0 then w else snd (guest_out G pointer (replicate select_set_bytes 0) w))
       [readfds, writefds, exceptfds] w"

section \<open>Poll\<close>

record pollfd =
  pf_fd :: int
  pf_events :: u16
  pf_revents :: u16

definition pollfd_of :: "byte list \<Rightarrow> pollfd" where
  "pollfd_of bs =
     \<lparr>pf_fd = le_int32 (take 4 bs), pf_events = word_of_int (le_int (take 2 (drop 4 bs))), pf_revents = 0\<rparr>"

fun pollfds_of :: "nat \<Rightarrow> byte list \<Rightarrow> pollfd list" where
  "pollfds_of 0 bs = []"
| "pollfds_of (Suc n) bs = pollfd_of (take 8 bs) # pollfds_of n (drop 8 bs)"

definition poll_ready :: "int \<Rightarrow> 'm ptmc \<Rightarrow> exn + u32" where
  "poll_ready fd w =
     (let normal = (\<lambda>ready. (if ready AND POLLIN \<noteq> 0 then ready OR POLLRDNORM else ready) OR
                            (if ready AND POLLOUT \<noteq> 0 then POLLWRNORM else 0))
      in case get_fd_type fd (own_fdm w) of
           FT_EPOLL \<Rightarrow> Inr (flag_if (epoll_ready (own w) (own_fs w) fd) (POLLIN OR POLLRDNORM))
         | FT_SOCKET \<Rightarrow> map_sum id normal (socket_readiness fd w)
         | FT_PIPE \<Rightarrow> map_sum id normal (pipe_readiness fd w)
         | FT_UNKNOWN \<Rightarrow> Inl (Runtime_error ''Unsupported poll descriptor kind'')
         | _ \<Rightarrow> if om_mem fd (open_files (own_fs w)) then Inr (POLLIN OR POLLOUT OR POLLRDNORM OR POLLWRNORM)
                else Inl no_file)"

definition poll_entry :: "'m ptmc \<Rightarrow> pollfd \<Rightarrow> exn + pollfd" where
  "poll_entry w e =
     (if pf_fd e < 0 then Inr (e\<lparr>pf_revents := 0\<rparr>)
      else if \<not> is_allocated (pf_fd e) (own_fdm w) then Inr (e\<lparr>pf_revents := ucast POLLNVAL\<rparr>)
      else map_sum id (\<lambda>ready. e\<lparr>pf_revents := ucast (ready AND (ucast (pf_events e) OR POLLERR OR POLLHUP))\<rparr>)
             (poll_ready (pf_fd e) w))"

fun poll_entries :: "'m ptmc \<Rightarrow> pollfd list \<Rightarrow> exn + pollfd list" where
  "poll_entries w [] = Inr []"
| "poll_entries w (e # rest) =
     andthen (poll_entry w e) (\<lambda>e'. andthen (poll_entries w rest) (\<lambda>rest'. Inr (e' # rest')))"

fun put_revents ::
  "'m guest \<Rightarrow> memory_map \<Rightarrow> u64 \<Rightarrow> pollfd list \<Rightarrow> int \<Rightarrow> 'm ptmc \<Rightarrow> 'm net_result" where
  "put_revents G maps address [] n w = (Inr n, w)"
| "put_revents G maps address (e # rest) n w =
     (case crossing_writable ''poll'' maps address 2 of
        Inl x \<Rightarrow> (Inl x, w)
      | Inr False \<Rightarrow> (Inr (- EFAULT), w)
      | Inr True \<Rightarrow>
          (case guest_out G address (le_bytes 2 (uint (pf_revents e))) w of
             (False, w) \<Rightarrow> (Inr (- EFAULT), w)
           | (True, w) \<Rightarrow> put_revents G maps (address + 8) rest n w))"

definition emu_poll ::
  "'m guest \<Rightarrow> memory_map \<Rightarrow> u64 \<Rightarrow> u32 \<Rightarrow> int \<Rightarrow> 'm ptmc \<Rightarrow> 'm net_result" where
  "emu_poll G maps fds count timeout w =
     (if timeout \<noteq> 0 then (Inl (Runtime_error ''Blocking poll is not modeled''), w)
      else if 65536 < count then (Inl (Runtime_error ''poll descriptor count exceeds model limit''), w)
      else (case guest_in G fds (8 * unat count) w of
        None \<Rightarrow> (Inr (- EFAULT), w)
      | Some bs \<Rightarrow>
          (case poll_entries w (pollfds_of (unat count) bs) of
             Inl e \<Rightarrow> (Inl e, w)
           | Inr entries \<Rightarrow>
               put_revents G maps (fds + 6) entries
                 (int (length (filter (\<lambda>e. pf_revents e \<noteq> 0) entries))) w)))"

end
