(* ===== verification/Pending.thy ===== *)
theory Pending
  imports Io_Poll
begin

text \<open>
  Unfinished system calls: \<open>src/src/subsys/pending_io.cpp\<close> and the operations of
  \<open>src/src/core/engine/pending_syscall.cpp\<close>. A call that would block is retained by its thread until it
  becomes ready, is retried or times out. The state extends the network and the files by the clocks,
  the threads and their blocked flags. The register \<open>rax\<close> of a thread, which \<open>tracee_set_rax\<close> writes
  through the debugger interface, is an entry of \<open>sm_rax\<close>; a failure of that interface is not modelled.
\<close>

section \<open>The state\<close>

record 'm sim =
  sm_pt :: "'m ptmc"
  sm_time :: "timespec list"
  sm_child :: "tracee_state list"
  sm_current :: "int list"
  sm_blocked :: "bool list list"
  sm_dirty :: "bool list"
  sm_rax :: "(int, u64) omap"

type_synonym ('m, 'a) sim_result = "(exn + 'a) \<times> 'm sim"

definition tracee_set_rax :: "int \<Rightarrow> u64 \<Rightarrow> 'm sim \<Rightarrow> 'm sim" where
  "tracee_set_rax tid v s = s\<lparr>sm_rax := om_put tid v (sm_rax s)\<rparr>"

definition threads_of :: "nat \<Rightarrow> 'm sim \<Rightarrow> thread_state list" where
  "threads_of node s = ts_threads (sm_child s ! node)"

definition put_thread :: "nat \<Rightarrow> nat \<Rightarrow> thread_state \<Rightarrow> 'm sim \<Rightarrow> 'm sim" where
  "put_thread node slot t s =
     s\<lparr>sm_child := (sm_child s)[node := (sm_child s ! node)\<lparr>ts_threads := (threads_of node s)[slot := t]\<rparr>]\<rparr>"

definition out_of_range :: exn where
  "out_of_range = Runtime_error ''Pending syscall node out of range''"

definition get_current_tid :: "nat \<Rightarrow> 'm sim \<Rightarrow> int" where
  "get_current_tid node s =
     (if length (sm_child s) \<le> node then - 1
      else
        (let slot = sm_current s ! node; ts = threads_of node s
         in if 0 \<le> slot \<and> slot < int (length ts) \<and> th_alive (ts ! nat slot) \<and> 0 < th_physical_tid (ts ! nat slot)
            then th_physical_tid (ts ! nat slot)
            else if ts = [] then pt_pids (sm_pt s) ! node else - 1))"

definition bound_to :: "int \<Rightarrow> thread_state \<Rightarrow> bool" where
  "bound_to tid t \<longleftrightarrow> th_alive t \<and> th_physical_tid t = tid"

definition actor :: "nat \<Rightarrow> int \<Rightarrow> 'm sim \<Rightarrow> exn + nat" where
  "actor node tid s =
     (if length (sm_child s) \<le> node then Inl out_of_range
      else (case find_slot (bound_to tid) (threads_of node s) of
              None \<Rightarrow> Inl (Runtime_error ''Pending syscall has no live bound actor'')
            | Some slot \<Rightarrow> Inr slot))"

definition logical_actor :: "nat \<Rightarrow> int \<Rightarrow> 'm sim \<Rightarrow> exn + nat option" where
  "logical_actor node tid s =
     (if length (sm_child s) \<le> node then Inl out_of_range else Inr (find_thread tid (sm_child s ! node)))"

definition is_waiting :: "thread_state \<Rightarrow> bool" where
  "is_waiting t \<longleftrightarrow> th_alive t \<and> (case th_pending t of None \<Rightarrow> False | Some p \<Rightarrow> ps_phase p = Waiting)"

definition blocked_flags :: "thread_state list \<Rightarrow> bool list" where
  "blocked_flags ts = map (\<lambda>slot. slot < length ts \<and> is_waiting (ts ! slot)) [0..<MAX_THREADS]"

definition sync_pending_blocked :: "nat \<Rightarrow> 'm sim \<Rightarrow> 'm sim" where
  "sync_pending_blocked node s =
     s\<lparr>sm_blocked := (sm_blocked s)[node := blocked_flags (threads_of node s)]\<rparr>"

section \<open>Granting, timing out and suspending\<close>

definition set_pending_deadline :: "nat \<Rightarrow> int \<Rightarrow> pending_deadline \<Rightarrow> 'm sim \<Rightarrow> ('m, unit) sim_result" where
  "set_pending_deadline node tid d s =
     (case andthen (validate_deadline d) (\<lambda>_.
             if INT64_MAX < deadline_ns d then Inl (Runtime_error ''Pending deadline exceeds Linux ktime range'')
             else logical_actor node tid s) of
        Inl e \<Rightarrow> (Inl e, s)
      | Inr found \<Rightarrow>
          (case map_option (\<lambda>slot. (slot, th_pending (threads_of node s ! slot))) found of
             Some (slot, Some p) \<Rightarrow>
               if ps_phase p = Ready then (Inl (Runtime_error ''Deadline requires an unfinished waiting syscall''), s)
               else (case validate_timed_pending p d of
                 Inl e \<Rightarrow> (Inl e, s)
               | Inr _ \<Rightarrow> (Inr (), put_thread node slot
                   ((threads_of node s ! slot)\<lparr>th_pending := Some (p\<lparr>ps_deadline := Some d\<rparr>)\<rparr>) s))
           | _ \<Rightarrow> (Inl (Runtime_error ''Deadline requires an unfinished waiting syscall''), s)))"

definition pending_timeout_due :: "nat \<Rightarrow> int \<Rightarrow> 'm sim \<Rightarrow> exn + bool" where
  "pending_timeout_due node tid s =
     andthen (logical_actor node tid s) (\<lambda>found.
       (case found of
          None \<Rightarrow> Inr False
        | Some slot \<Rightarrow>
            (case th_pending (threads_of node s ! slot) of
               None \<Rightarrow> Inr False
             | Some p \<Rightarrow>
                 (case ps_deadline p of
                    None \<Rightarrow> Inr False
                  | Some d \<Rightarrow>
                      if ps_phase p = Ready then Inr False
                      else andthen (validate_deadline d) (\<lambda>_. andthen (validate_model_time node (sm_time s)) (\<lambda>_.
                        Inr (deadline_due (sm_time s ! node) d)))))))"

definition ready_syscall :: "nat \<Rightarrow> int \<Rightarrow> int \<Rightarrow> 'm sim \<Rightarrow> ('m, unit) sim_result" where
  "ready_syscall node tid result s =
     (let refused = Runtime_error ''Only a waiting syscall can receive a completion''
      in case logical_actor node tid s of
           Inl e \<Rightarrow> (Inl e, s)
         | Inr None \<Rightarrow> (Inl refused, s)
         | Inr (Some slot) \<Rightarrow>
             (case th_pending (threads_of node s ! slot) of
                None \<Rightarrow> (Inl refused, s)
              | Some p \<Rightarrow>
                  if ps_phase p = Ready then (Inl refused, s)
                  else
                    (let ts = sm_child s ! node;
                         futex = (if ps_reason p = By_Futex
                                  then map_option (\<lambda>f. snd (wake_thread tid f)) (ts_futex ts) else ts_futex ts);
                         s = s\<lparr>sm_child := (sm_child s)[node := ts\<lparr>ts_futex := futex\<rparr>]\<rparr>
                     in (Inr (), sync_pending_blocked node (put_thread node slot
                           ((threads_of node s ! slot)\<lparr>th_pending := Some (p\<lparr>ps_phase := Ready, ps_result := result\<rparr>)\<rparr>) s)))))"

definition expire_pending_syscall :: "nat \<Rightarrow> int \<Rightarrow> 'm sim \<Rightarrow> ('m, bool) sim_result" where
  "expire_pending_syscall node tid s =
     (case pending_timeout_due node tid s of
        Inl e \<Rightarrow> (Inl e, s)
      | Inr False \<Rightarrow> (Inr False, s)
      | Inr True \<Rightarrow>
          (case find_thread tid (sm_child s ! node) of
             None \<Rightarrow> (Inr True, s)
           | Some slot \<Rightarrow>
               (case th_pending (threads_of node s ! slot) of
                  None \<Rightarrow> (Inr True, s)
                | Some p \<Rightarrow>
                    (case ps_deadline p of
                       None \<Rightarrow> (Inr True, s)
                     | Some d \<Rightarrow> map_prod (map_sum id (\<lambda>_. True)) id (ready_syscall node tid (pd_timeout_result d) s)))))"

definition suspend_syscall ::
  "nat \<Rightarrow> int \<Rightarrow> syscall_info \<Rightarrow> pending_reason \<Rightarrow> 'm sim \<Rightarrow> ('m, syscall_info) sim_result" where
  "suspend_syscall node tid info reason s =
     (case actor node tid s of
        Inl e \<Rightarrow> (Inl e, s)
      | Inr slot \<Rightarrow>
          (let t = threads_of node s ! slot;
               replaced = (case th_pending t of
                 None \<Rightarrow> False
               | Some q \<Rightarrow> ps_phase q \<noteq> Retry \<or> ps_reason q \<noteq> reason \<or> ps_nr q \<noteq> si_nr info \<or> ps_args q \<noteq> si_args info)
           in if replaced then (Inl (Runtime_error ''Cannot replace an unfinished syscall''), s)
              else
                (let p = \<lparr>ps_phase = Waiting, ps_reason = reason, ps_nr = si_nr info, ps_args = si_args info,
                          ps_result = 0, ps_deadline = Option.bind (th_pending t) ps_deadline\<rparr>
                 in (Inr (info\<lparr>si_rval := word_of_int (- ENOSYS)\<rparr>),
                     sync_pending_blocked node (put_thread node slot (t\<lparr>th_pending := Some p\<rparr>)
                       (tracee_set_rax tid (word_of_int (- ENOSYS)) s))))))"

section \<open>Blocking input and output\<close>

definition epoll_call :: "int \<Rightarrow> bool" where
  "epoll_call nr \<longleftrightarrow> nr = SYS_epoll_wait \<or> nr = SYS_epoll_pwait \<or> nr = SYS_epoll_pwait2"

definition data_call :: "int \<Rightarrow> bool" where
  "data_call nr \<longleftrightarrow> nr = SYS_read \<or> nr = SYS_write \<or> nr = SYS_recvfrom \<or> nr = SYS_accept \<or> nr = SYS_accept4"

definition supports_pending_io :: "int \<Rightarrow> bool" where
  "supports_pending_io nr \<longleftrightarrow> epoll_call nr \<or> data_call nr"

definition read_timespec :: "'m guest \<Rightarrow> int \<Rightarrow> u64 \<Rightarrow> 'm ptmc \<Rightarrow> (int \<times> int) option" where
  "read_timespec G pid address w =
     map_option (\<lambda>bs. (le_int64 (take 8 bs), le_int64 (drop 8 bs))) (guest_read_exact G pid address 16 (pt_memory w))"

abbreviation (input) lost_timeout :: exn where
  "lost_timeout \<equiv> Runtime_error ''Validated epoll timeout became unreadable''"

definition io_should_suspend :: "'m guest \<Rightarrow> nat \<Rightarrow> syscall_info \<Rightarrow> int \<Rightarrow> 'm ptmc \<Rightarrow> exn + bool" where
  "io_should_suspend G node call result w =
     (let a = si_args call
      in if epoll_call (si_nr call)
         then
           if result \<noteq> 0 then Inr False
           else if si_nr call \<noteq> SYS_epoll_pwait2 then Inr (as_int (a ! 3) \<noteq> 0)
           else if a ! 3 = 0 then Inr True
           else (case read_timespec G (pt_pids w ! node) (a ! 3) w of
                   None \<Rightarrow> Inl lost_timeout
                 | Some (sec, nsec) \<Rightarrow> Inr (sec \<noteq> 0 \<or> nsec \<noteq> 0))
         else if \<not> data_call (si_nr call) \<or> result \<noteq> - EAGAIN then Inr False
         else
           (let fd = as_int (a ! 0); fdm = pt_fd_managers w ! node
            in if \<not> is_allocated fd fdm then Inr False
               else if has_flag (get_status_flags fd fdm) O_NONBLOCK then Inr False
               else Inr (si_nr call \<noteq> SYS_recvfrom \<or> a ! 3 AND word_of_int MSG_DONTWAIT = 0)))"

abbreviation (input) kDefaultIoTimeoutMs :: int where "kDefaultIoTimeoutMs \<equiv> 1000"

text \<open>The time after which a blocked call ends, if any.\<close>

definition io_timeout :: "'m guest \<Rightarrow> nat \<Rightarrow> syscall_info \<Rightarrow> 'm ptmc \<Rightarrow> exn + (int \<times> int) option" where
  "io_timeout G node call w =
     (let a = si_args call
      in if \<not> epoll_call (si_nr call)
         then Inr (Some (kDefaultIoTimeoutMs div 1000, (kDefaultIoTimeoutMs mod 1000) * 1000000))
         else if si_nr call = SYS_epoll_pwait2
         then
           if a ! 3 = 0 then Inr None
           else (case read_timespec G (pt_pids w ! node) (a ! 3) w of
                   None \<Rightarrow> Inl lost_timeout
                 | Some (sec, nsec) \<Rightarrow>
                     if sec < 0 \<or> nsec < 0 \<or> 1000000000 \<le> nsec then Inl (Runtime_error ''Invalid captured epoll timeout'')
                     else Inr (Some (sec, nsec)))
         else if as_int (a ! 3) < 0 then Inr None
         else Inr (Some (as_int (a ! 3) div 1000, (as_int (a ! 3) mod 1000) * 1000000)))"

definition arm_deadline :: "nat \<Rightarrow> int \<Rightarrow> int \<Rightarrow> int \<Rightarrow> string \<Rightarrow> 'm sim \<Rightarrow> ('m, unit) sim_result" where
  "arm_deadline node tid sec nsec missing s =
     (case make_pending_deadline node (sm_time s) CLOCK_MONOTONIC sec nsec True 0 of
        Inl e \<Rightarrow> (Inl e, s)
      | Inr d \<Rightarrow>
          (case find_slot (bound_to tid) (threads_of node s) of
             None \<Rightarrow> (Inl (Runtime_error missing), s)
           | Some slot \<Rightarrow> set_pending_deadline node (th_tid (threads_of node s ! slot)) d s))"

definition configure_pending_io :: "'m guest \<Rightarrow> nat \<Rightarrow> int \<Rightarrow> syscall_info \<Rightarrow> 'm sim \<Rightarrow> ('m, unit) sim_result" where
  "configure_pending_io G node tid call s =
     (case io_timeout G node call (sm_pt s) of
        Inl e \<Rightarrow> (Inl e, s)
      | Inr None \<Rightarrow> (Inr (), s)
      | Inr (Some (sec, nsec)) \<Rightarrow>
          arm_deadline node tid sec nsec ''Pending I/O deadline has no live bound actor'' s)"

text \<open>The three functions \<open>io_retry_ready\<close>: on the parts of a state, and on a process.\<close>

definition pipe_retry_ready :: "fs_state \<Rightarrow> int \<Rightarrow> int \<Rightarrow> u64 \<Rightarrow> bool" where
  "pipe_retry_ready fs nr fd count =
     (case map_of (pipe_fds fs) fd of
        None \<Rightarrow> True
      | Some i \<Rightarrow>
          (case map_of (pipes fs) \<bar>i\<bar> of
             None \<Rightarrow> True
           | Some p \<Rightarrow>
               if nr = SYS_write
               then
                 if 0 < i \<or> pi_read_closed p then True
                 else
                   (let available = (pipe_capacity - int (length (pi_buffer p))) mod 2 ^ 64
                    in if uint count \<le> pipe_atomic_limit then uint count \<le> available else 0 < available)
               else i < 0 \<or> pi_buffer p \<noteq> [] \<or> pi_write_closed p))"

definition io_retry_ready_in :: "fd_manager \<Rightarrow> fs_state \<Rightarrow> sock_state \<Rightarrow> syscall_info \<Rightarrow> exn + bool" where
  "io_retry_ready_in fdm fs net call =
     (let fd = as_int (si_args call ! 0)
      in if \<not> is_allocated fd fdm then Inr True
         else if epoll_call (si_nr call) then Inr (epoll_ready net fs fd)
         else if \<not> data_call (si_nr call) then Inl (Runtime_error ''Unknown pending I/O syscall'')
         else if get_fd_type fd fdm = FT_PIPE then Inr (pipe_retry_ready fs (si_nr call) fd (si_args call ! 2))
         else if get_fd_type fd fdm \<noteq> FT_SOCKET then Inr True
         else Inr (ready_events net fs fd AND (EPOLLIN OR EPOLLERR OR EPOLLHUP OR EPOLLRDHUP) \<noteq> 0))"

definition io_retry_ready :: "nat \<Rightarrow> syscall_info \<Rightarrow> 'm ptmc \<Rightarrow> exn + bool" where
  "io_retry_ready node call w =
     io_retry_ready_in (pt_fd_managers w ! node) (pt_fs_states w ! node) (pt_sock_states w ! node) call"

text \<open>The call that a retry makes again, as a probe that does not block.\<close>

definition io_probe :: "'m guest \<Rightarrow> timespec \<Rightarrow> syscall_info \<Rightarrow> 'm ptmc \<Rightarrow> 'm net_result" where
  "io_probe G now call w =
     (let a = si_args call; fd = as_int (a ! 0); nr = si_nr call
      in if nr = SYS_read then emu_read G fd (a ! 1) (unat (a ! 2)) w
         else if nr = SYS_write then emu_write G now fd (a ! 1) (unat (a ! 2)) w
         else if nr = SYS_recvfrom then do_recvfrom G fd (a ! 1) (unat (a ! 2)) (as_int (a ! 3)) (a ! 4) (a ! 5) w
         else if nr = SYS_accept then do_accept G fd (a ! 1) (a ! 2) w
         else if nr = SYS_accept4 then emu_accept4 G fd (a ! 1) (a ! 2) (as_int (a ! 3)) w
         else if epoll_call nr then (case do_epoll_wait G fd (a ! 1) (as_int (a ! 2)) 0 w of (n, w) \<Rightarrow> (Inr n, w))
         else (Inl (Runtime_error ''Unsupported pending I/O retry''), w))"

definition retry_pending_io ::
  "'m guest \<Rightarrow> nat \<Rightarrow> int \<Rightarrow> syscall_info \<Rightarrow> 'm sim \<Rightarrow> ('m, bool \<times> syscall_info) sim_result" where
  "retry_pending_io G node tid call s =
     (if pt_cursor (sm_pt s) \<noteq> node \<or> get_current_tid node s \<noteq> tid
      then (Inl (Runtime_error ''Pending I/O retry actor mismatch''), s)
      else
        (case io_probe G (modeled_fs_time (int (pt_cursor (sm_pt s))) (sm_time s)) call (sm_pt s) of
           (Inl e, w) \<Rightarrow> (Inl e, s\<lparr>sm_pt := w\<rparr>)
         | (Inr result, w) \<Rightarrow>
             (case (if epoll_call (si_nr call) then Inr (result = 0) else io_should_suspend G node call result w) of
                Inl e \<Rightarrow> (Inl e, s\<lparr>sm_pt := w\<rparr>)
              | Inr True \<Rightarrow> (Inr (False, call), s\<lparr>sm_pt := w\<rparr>)
              | Inr False \<Rightarrow> (Inr (True, call\<lparr>si_rval := word_of_int result\<rparr>), s\<lparr>sm_pt := w\<rparr>))))"

end
