(* ===== verification/Pending_Run.thy ===== *)
theory Pending_Run
  imports Pending
begin

text \<open>
  Completing, refreshing and validating unfinished calls (\<open>src/src/core/engine/pending_syscall.cpp\<close>), the
  end of a process and the \<open>pselect6\<close> timer (\<open>src/src/subsys/pending_io.cpp\<close>), and the handlers that start
  an unfinished call (\<open>src/src/core/syscall/handlers.cpp\<close>).
\<close>

section \<open>Completing\<close>

text \<open>The effects of a granted call on the guest: a timed out \<open>pselect6\<close> clears its time and its sets.\<close>

definition granted_copyout :: "'m guest \<Rightarrow> int \<Rightarrow> pending_syscall \<Rightarrow> 'm sim \<Rightarrow> 'm sim" where
  "granted_copyout G tid p s =
     (if ps_nr p = SYS_pselect6 \<and> ps_result p = 0
      then
        (let w = sm_pt s;
             w = (if ps_args p ! 4 \<noteq> 0
                  then w\<lparr>pt_memory := snd (guest_write_exact G tid (ps_args p ! 4) (replicate 16 0) (pt_memory w))\<rparr> else w)
         in s\<lparr>sm_pt := emu_select_clear G (ps_args p ! 1) (ps_args p ! 2) (ps_args p ! 3) w\<rparr>)
      else s)"

definition set_pending :: "nat \<Rightarrow> nat \<Rightarrow> pending_syscall option \<Rightarrow> 'm sim \<Rightarrow> 'm sim" where
  "set_pending node slot p s = put_thread node slot ((threads_of node s ! slot)\<lparr>th_pending := p\<rparr>) s"

definition finish_pending :: "nat \<Rightarrow> int \<Rightarrow> nat \<Rightarrow> syscall_info \<Rightarrow> 'm sim \<Rightarrow> ('m, bool \<times> syscall_info) sim_result" where
  "finish_pending node tid slot info s =
     (Inr (True, info), sync_pending_blocked node (set_pending node slot None (tracee_set_rax tid (si_rval info) s)))"

definition complete_pending_syscall ::
  "'m guest \<Rightarrow> nat \<Rightarrow> int \<Rightarrow> syscall_info \<Rightarrow> 'm sim \<Rightarrow> ('m, bool \<times> syscall_info) sim_result" where
  "complete_pending_syscall G node tid info s =
     (if length (sm_child s) \<le> node then (Inl out_of_range, s)
      else if threads_of node s = [] then (Inr (False, info), s)
      else (case actor node tid s of
        Inl e \<Rightarrow> (Inl e, s)
      | Inr slot \<Rightarrow>
          (case th_pending (threads_of node s ! slot) of
             None \<Rightarrow> (Inr (False, info), s)
           | Some p \<Rightarrow>
               if ps_phase p = Waiting
               then (Inl (Runtime_error ''Cannot execute a waiting syscall before completion is available''), s)
               else
                 (let s = s\<lparr>sm_dirty := (sm_dirty s)[node := True],
                            sm_pt := (sm_pt s)\<lparr>pt_n_choose := 0, pt_choose := - 1\<rparr>\<rparr>;
                      info = info\<lparr>si_nr := ps_nr p, si_args := ps_args p\<rparr>
                  in if ps_phase p = Retry
                     then
                       if ps_reason p \<noteq> By_Io then (Inl (Runtime_error ''Only I/O pending calls may retry''), s)
                       else (case retry_pending_io G node tid info s of
                         (Inl e, s) \<Rightarrow> (Inl e, s)
                       | (Inr (True, info), s) \<Rightarrow> finish_pending node tid slot info s
                       | (Inr (False, info), s) \<Rightarrow>
                           (case th_pending (threads_of node s ! slot) of
                              None \<Rightarrow> (Inl (Runtime_error ''I/O retry lost its unfinished call''), s)
                            | Some q \<Rightarrow>
                                (let info = info\<lparr>si_rval := word_of_int (- ENOSYS)\<rparr>;
                                     s = set_pending node slot (Some (q\<lparr>ps_phase := Waiting, ps_result := 0\<rparr>)) s
                                 in (Inr (True, info), sync_pending_blocked node (tracee_set_rax tid (si_rval info) s)))))
                     else finish_pending node tid slot (info\<lparr>si_rval := word_of_int (ps_result p)\<rparr>)
                            (granted_copyout G tid p s)))))"

section \<open>Refreshing\<close>

definition queued :: "futex_state option \<Rightarrow> int \<Rightarrow> bool" where
  "queued fx tid = (case fx of None \<Rightarrow> False | Some f \<Rightarrow> is_thread_waiting tid f)"

definition refresh_futex_thread :: "futex_state option \<Rightarrow> thread_state \<Rightarrow> thread_state" where
  "refresh_futex_thread fx t =
     (case th_pending t of
        None \<Rightarrow> t
      | Some p \<Rightarrow>
          if th_alive t \<and> ps_reason p = By_Futex \<and> ps_phase p = Waiting \<and> \<not> queued fx (th_tid t)
          then t\<lparr>th_pending := Some (p\<lparr>ps_phase := Ready, ps_result := 0\<rparr>)\<rparr> else t)"

definition map_threads :: "nat \<Rightarrow> (thread_state \<Rightarrow> thread_state) \<Rightarrow> 'm sim \<Rightarrow> 'm sim" where
  "map_threads node f s =
     s\<lparr>sm_child := (sm_child s)[node := (sm_child s ! node)\<lparr>ts_threads := map f (threads_of node s)\<rparr>]\<rparr>"

definition refresh_futex_pending :: "nat \<Rightarrow> 'm sim \<Rightarrow> 'm sim" where
  "refresh_futex_pending node s =
     sync_pending_blocked node (map_threads node (refresh_futex_thread (ts_futex (sm_child s ! node))) s)"

text \<open>The call that a thread retains.\<close>

definition retained_call :: "pending_syscall \<Rightarrow> syscall_info" where
  "retained_call p = \<lparr>si_nr = ps_nr p, si_rval = 0, si_args = ps_args p\<rparr>"

definition refresh_io_thread :: "nat \<Rightarrow> 'm ptmc \<Rightarrow> thread_state \<Rightarrow> exn + thread_state" where
  "refresh_io_thread node w t =
     (case th_pending t of
        None \<Rightarrow> Inr t
      | Some p \<Rightarrow>
          if \<not> th_alive t \<or> ps_reason p \<noteq> By_Io \<or> ps_phase p = Ready then Inr t
          else map_sum id (\<lambda>ready. t\<lparr>th_pending := Some (p\<lparr>ps_phase := (if ready then Retry else Waiting)\<rparr>)\<rparr>)
                 (io_retry_ready node (retained_call p) w))"

text \<open>The loop over the threads of one process stops at the first exception.\<close>

fun refresh_io_threads :: "nat \<Rightarrow> 'm ptmc \<Rightarrow> thread_state list \<Rightarrow> exn option \<times> thread_state list" where
  "refresh_io_threads node w [] = (None, [])"
| "refresh_io_threads node w (t # ts) =
     (case refresh_io_thread node w t of
        Inl e \<Rightarrow> (Some e, t # ts)
      | Inr t' \<Rightarrow> map_prod id (\<lambda>ts'. t' # ts') (refresh_io_threads node w ts))"

definition refresh_node :: "nat \<Rightarrow> 'm sim \<Rightarrow> ('m, unit) sim_result" where
  "refresh_node node s =
     (let s = refresh_futex_pending node s
      in case refresh_io_threads node (sm_pt s) (threads_of node s) of
           (e, ts) \<Rightarrow>
             (let s = s\<lparr>sm_child := (sm_child s)[node := (sm_child s ! node)\<lparr>ts_threads := ts\<rparr>]\<rparr>
              in case e of Some e \<Rightarrow> (Inl e, s) | None \<Rightarrow> (Inr (), sync_pending_blocked node s)))"

fun refresh_nodes :: "nat list \<Rightarrow> 'm sim \<Rightarrow> ('m, unit) sim_result" where
  "refresh_nodes [] s = (Inr (), s)"
| "refresh_nodes (node # rest) s =
     (case refresh_node node s of (Inl e, s) \<Rightarrow> (Inl e, s) | (Inr _, s) \<Rightarrow> refresh_nodes rest s)"

definition refresh_pending_syscalls :: "'m sim \<Rightarrow> ('m, unit) sim_result" where
  "refresh_pending_syscalls s = refresh_nodes [0..<length (sm_child s)] s"

section \<open>Validating\<close>

abbreviation (input) fails :: "string \<Rightarrow> exn + unit" where
  "fails msg \<equiv> Inl (Runtime_error msg)"

text \<open>Whether the 16 bytes of a time overlap the page that the simulator reserves in the guest.\<close>

definition overlaps_scratch :: "u64 \<Rightarrow> bool" where
  "overlaps_scratch a \<longleftrightarrow> a < scratch_page + 4096 \<and> scratch_page - 16 < a"

definition validate_pending :: "futex_state option \<Rightarrow> thread_state \<Rightarrow> exn + unit" where
  "validate_pending fx t =
     (case th_pending t of
        None \<Rightarrow> if queued fx (th_tid t) then fails ''Futex waiter has no unfinished syscall'' else Inr ()
      | Some p \<Rightarrow>
          if \<not> th_alive t then fails ''Exited thread retains an unfinished syscall''
          else if ps_nr p < 0 \<or> ps_phase p \<noteq> Ready \<and> ps_result p \<noteq> 0 then fails ''Invalid unfinished syscall state''
          else if ps_reason p = By_Futex \<and> (ps_nr p \<noteq> SYS_futex \<or> ps_phase p = Retry)
          then fails ''Invalid unfinished futex syscall''
          else if ps_reason p = By_Timer \<and>
                  (ps_nr p \<noteq> SYS_nanosleep \<and> ps_nr p \<noteq> SYS_clock_nanosleep \<and> ps_nr p \<noteq> SYS_pselect6 \<or>
                   ps_phase p = Retry \<or> ps_deadline p = None \<and> ps_nr p \<noteq> SYS_pselect6)
          then fails ''Invalid pending timer syscall''
          else if ps_nr p = SYS_pselect6 \<and>
                  (ps_reason p \<noteq> By_Timer \<or> as_int (ps_args p ! 0) < 0 \<or>
                   (ps_deadline p \<noteq> None) \<noteq> (ps_args p ! 4 \<noteq> 0) \<or> overlaps_scratch (ps_args p ! 4) \<or>
                   (case ps_deadline p of
                      None \<Rightarrow> False
                    | Some d \<Rightarrow> pd_clock_id d \<noteq> CLOCK_MONOTONIC \<or> pd_timeout_result d \<noteq> 0))
          then fails ''Invalid pending pselect6 timer''
          else if ps_reason p = By_Io \<and> \<not> supports_pending_io (ps_nr p)
          then fails ''Unsupported unfinished I/O syscall''
          else andthen (case ps_deadline p of None \<Rightarrow> Inr () | Some d \<Rightarrow> validate_timed_pending p d) (\<lambda>_.
            if queued fx (th_tid t) \<noteq> (ps_reason p = By_Futex \<and> ps_phase p = Waiting)
            then fails ''Futex queue disagrees with unfinished syscall phase'' else Inr ()))"

fun all_valid :: "('a \<Rightarrow> exn + unit) \<Rightarrow> 'a list \<Rightarrow> exn + unit" where
  "all_valid f [] = Inr ()"
| "all_valid f (x # xs) = andthen (f x) (\<lambda>_. all_valid f xs)"

definition validate_pending_syscalls :: "tracee_state \<Rightarrow> exn + unit" where
  "validate_pending_syscalls ts =
     andthen (all_valid (validate_pending (ts_futex ts)) (ts_threads ts)) (\<lambda>_.
       (case ts_futex ts of
          None \<Rightarrow> Inr ()
        | Some f \<Rightarrow>
            if list_ex (\<lambda>(address, waiters). list_ex (\<lambda>w. find_thread (w_tid w) ts = None) waiters) (fx_waiters f)
            then fails ''Futex queue references a missing live thread'' else Inr ()))"

section \<open>The end of a process\<close>

definition exit_refused :: "sock_state \<Rightarrow> int \<times> socket \<Rightarrow> exn + unit" where
  "exit_refused s = (\<lambda>(fd, k).
     if sk_type k \<noteq> SOCK_STREAM then Inr ()
     else if sk_listening k \<and> (sk_pending_connections k \<noteq> [] \<or> sk_established_connections k \<noteq> [])
     then fails ''Process exit with unaccepted TCP connections requires reset semantics''
     else if \<not> sk_connected k then Inr ()
     else (case map_of (tcp_connections s) fd of
             None \<Rightarrow> fails ''Connected TCP socket has no connection payload at process exit''
           | Some c \<Rightarrow>
               if list_ex (\<lambda>m. m \<noteq> []) (tc_recv_buffer c)
               then fails ''Process exit with unread TCP data requires reset semantics'' else Inr ()))"

definition preflight_process_io_exit :: "nat \<Rightarrow> 'm ptmc \<Rightarrow> exn + unit" where
  "preflight_process_io_exit node w =
     (if length (pt_sock_states w) \<le> node then fails ''I/O exit node out of range''
      else all_valid (exit_refused (pt_sock_states w ! node)) (sockets (pt_sock_states w ! node)))"

fun close_all :: "thread_state list \<Rightarrow> int list \<Rightarrow> 'm ptmc \<Rightarrow> (exn + unit) \<times> 'm ptmc" where
  "close_all ts [] w = (Inr (), w)"
| "close_all ts (fd # fds) w =
     (case emu_close ts fd w of
        (Inl e, w) \<Rightarrow> (Inl e, w)
      | (Inr result, w) \<Rightarrow>
          if result \<noteq> 0 then (fails ''Virtual descriptor close failed during process exit'', w)
          else close_all ts fds w)"

definition close_process_io :: "nat \<Rightarrow> 'm sim \<Rightarrow> ('m, unit) sim_result" where
  "close_process_io node s =
     (if length (pt_sock_states (sm_pt s)) \<le> node then (fails ''Process I/O close node out of range'', s)
      else if list_ex th_alive (threads_of node s) then (fails ''Cannot close process I/O with live logical tasks'', s)
      else (case preflight_process_io_exit node (sm_pt s) of
        Inl e \<Rightarrow> (Inl e, s)
      | Inr _ \<Rightarrow>
          (let previous = pt_cursor (sm_pt s);
               w = (sm_pt s)\<lparr>pt_cursor := node\<rparr>
           in case close_all (threads_of node s) (map fst (pt_fd_managers w ! node)) w of
                (r, w) \<Rightarrow> (r, s\<lparr>sm_pt := w\<lparr>pt_cursor := previous\<rparr>\<rparr>))))"

end
