(* ===== verification/Wake_Claims.thy ===== *)
theory Wake_Claims
  imports Pending_Run Sock_Ready Pipe_Claims
begin

text \<open>
  Waking and blocking agree: the search retries a blocked input or output call exactly when the retry
  would finish.
\<close>

section \<open>Calls that wait\<close>





section \<open>When a probe would block\<close>





lemma flag_if_simps [simp]: "flag_if True f = f" "flag_if False f = 0"
  by (simp_all add: flag_if_def)






section \<open>No lost wakeup\<close>










end
