(* ===== verification/Handlers.thy ===== *)
theory Handlers
  imports Pending_Run
begin

text \<open>
  The handlers of \<open>src/src/core/syscall/handlers.cpp\<close> for the network, the files, futexes and time, with the
  virtual clock of \<open>src/src/subsys/net/emu.cpp\<close> and \<open>start_pselect_timer\<close> of \<open>src/src/subsys/pending_io.cpp\<close>.
  A handler runs in the process under the cursor, in the thread \<open>pid\<close>; it returns the kind of checkpoint and
  the completed record of the call. The handlers that create and end threads need the carriers of
  the host and are not modelled. A plug-in that chooses the time is the parameter \<open>plugin\<close>: the time and the
  result it supplies for a choice, or no outcome.
\<close>

datatype ckpt = CKPT_NO | CKPT_YES | CKPT_EXIT

type_synonym 'm handled = "('m, ckpt \<times> syscall_info) sim_result"

definition cursor_of :: "'m sim \<Rightarrow> nat" where
  "cursor_of s = pt_cursor (sm_pt s)"

definition sim_now :: "'m sim \<Rightarrow> timespec" where
  "sim_now s = modeled_fs_time (int (cursor_of s)) (sm_time s)"

definition cursor_threads :: "'m sim \<Rightarrow> thread_state list" where
  "cursor_threads s = threads_of (cursor_of s) s"

text \<open>The common end of a handler: the result goes to the register and to the record of the call.\<close>

definition finish_call :: "ckpt \<Rightarrow> int \<Rightarrow> syscall_info \<Rightarrow> 'm net_result \<Rightarrow> 'm sim \<Rightarrow> 'm handled" where
  "finish_call c pid info result s =
     (case result of
        (Inl e, w) \<Rightarrow> (Inl e, s\<lparr>sm_pt := w\<rparr>)
      | (Inr n, w) \<Rightarrow>
          (Inr (c, info\<lparr>si_rval := word_of_int n\<rparr>), tracee_set_rax pid (word_of_int n) (s\<lparr>sm_pt := w\<rparr>)))"

definition finish_io_call :: "'m guest \<Rightarrow> int \<Rightarrow> syscall_info \<Rightarrow> 'm net_result \<Rightarrow> 'm sim \<Rightarrow> 'm handled" where
  "finish_io_call G pid info result s =
     (case result of
        (Inl e, w) \<Rightarrow> (Inl e, s\<lparr>sm_pt := w\<rparr>)
      | (Inr n, w) \<Rightarrow>
          (case io_should_suspend G (pt_cursor w) info n w of
             Inl e \<Rightarrow> (Inl e, s\<lparr>sm_pt := w\<rparr>)
           | Inr False \<Rightarrow> finish_call CKPT_YES pid info result s
           | Inr True \<Rightarrow>
               (case suspend_syscall (pt_cursor w) pid info By_Io (s\<lparr>sm_pt := w\<rparr>) of
                  (Inl e, s) \<Rightarrow> (Inl e, s)
                | (Inr info, s) \<Rightarrow>
                    (case configure_pending_io G (cursor_of s) pid info s of
                       (Inl e, s) \<Rightarrow> (Inl e, s)
                     | (Inr _, s) \<Rightarrow> (Inr (CKPT_YES, info), s)))))"

definition plain :: "int \<times> 'm ptmc \<Rightarrow> 'm net_result" where
  "plain = (\<lambda>(n, w). (Inr n, w))"

section \<open>Network\<close>

abbreviation (input) SYS_socket :: int where "SYS_socket \<equiv> 41"
abbreviation (input) SYS_connect :: int where "SYS_connect \<equiv> 42"
abbreviation (input) SYS_sendto :: int where "SYS_sendto \<equiv> 44"
abbreviation (input) SYS_bind :: int where "SYS_bind \<equiv> 49"
abbreviation (input) SYS_listen :: int where "SYS_listen \<equiv> 50"
abbreviation (input) SYS_getsockname :: int where "SYS_getsockname \<equiv> 51"
abbreviation (input) SYS_getpeername :: int where "SYS_getpeername \<equiv> 52"
abbreviation (input) SYS_setsockopt :: int where "SYS_setsockopt \<equiv> 54"
abbreviation (input) SYS_getsockopt :: int where "SYS_getsockopt \<equiv> 55"
abbreviation (input) SYS_epoll_create :: int where "SYS_epoll_create \<equiv> 213"
abbreviation (input) SYS_epoll_ctl :: int where "SYS_epoll_ctl \<equiv> 233"
abbreviation (input) SYS_epoll_create1 :: int where "SYS_epoll_create1 \<equiv> 291"

text \<open>\<open>socklen_t\<close> and \<open>size_t\<close> arguments.\<close>

definition as_len :: "u64 \<Rightarrow> nat" where
  "as_len a = unat (ucast a :: u32)"

definition handle_network ::
  "'m guest \<Rightarrow> memory_map \<Rightarrow> int \<Rightarrow> syscall_info \<Rightarrow> 'm sim \<Rightarrow> 'm handled" where
  "handle_network G maps pid info s =
     (let nr = si_nr info; a = si_args info; w = sm_pt s; i = (\<lambda>k. as_int (a ! k));
          yes = (\<lambda>r. finish_call CKPT_YES pid info r s)
      in if nr = SYS_sendto then yes (do_sendto G (i 0) (a ! 1) (unat (a ! 2)) (i 3) (a ! 4) (as_len (a ! 5)) w)
         else if nr = SYS_recvfrom
         then finish_io_call G pid info (emu_recvfrom G (i 0) (a ! 1) (unat (a ! 2)) (i 3) (a ! 4) (a ! 5) w) s
         else if nr = SYS_socket then yes (do_socket (i 0) (i 1) (i 2) w)
         else if nr = SYS_connect then yes (do_connect G (i 0) (a ! 1) (as_len (a ! 2)) w)
         else if nr = SYS_bind then yes (do_bind G (i 0) (a ! 1) (as_len (a ! 2)) w)
         else if nr = SYS_listen then yes (plain (do_listen (i 0) (i 1) w))
         else if nr = SYS_accept then finish_io_call G pid info (do_accept G (i 0) (a ! 1) (a ! 2) w) s
         else if nr = SYS_accept4 then finish_io_call G pid info (emu_accept4 G (i 0) (a ! 1) (a ! 2) (i 3) w) s
         else if nr = SYS_setsockopt then yes (emu_setsockopt G (i 0) (i 1) (i 2) (a ! 3) (as_len (a ! 4)) w)
         else if nr = SYS_getsockopt then yes (emu_getsockopt G (i 0) (i 1) (i 2) (a ! 3) (a ! 4) w)
         else if nr = SYS_getsockname then finish_call CKPT_NO pid info (plain (do_getsockname G (i 0) (a ! 1) (a ! 2) w)) s
         else if nr = SYS_getpeername then finish_call CKPT_NO pid info (plain (do_getpeername G (i 0) (a ! 1) (a ! 2) w)) s
         else if nr = SYS_poll then yes (emu_poll G maps (a ! 0) (ucast (a ! 1)) (i 2) w)
         else if nr = SYS_epoll_create then yes (do_epoll_create (i 0) w)
         else if nr = SYS_epoll_create1 then yes (do_epoll_create1 (i 0) w)
         else if nr = SYS_epoll_ctl then yes (do_epoll_ctl G (i 0) (i 1) (i 2) (a ! 3) w)
         else if nr = SYS_epoll_wait then finish_io_call G pid info (plain (do_epoll_wait G (i 0) (a ! 1) (i 2) (i 3) w)) s
         else if nr = SYS_epoll_pwait then finish_io_call G pid info (emu_epoll_pwait G (i 0) (a ! 1) (i 2) (i 3) (a ! 4) w) s
         else if nr = SYS_epoll_pwait2
         then finish_io_call G pid info (emu_epoll_pwait2 G (i 0) (a ! 1) (i 2) (a ! 3) (a ! 4) w) s
         else (Inr (CKPT_NO, info), s))"

section \<open>Files\<close>

abbreviation (input) SYS_open :: int where "SYS_open \<equiv> 2"
abbreviation (input) SYS_close :: int where "SYS_close \<equiv> 3"
abbreviation (input) SYS_stat :: int where "SYS_stat \<equiv> 4"
abbreviation (input) SYS_fstat :: int where "SYS_fstat \<equiv> 5"
abbreviation (input) SYS_lstat :: int where "SYS_lstat \<equiv> 6"
abbreviation (input) SYS_getdents64 :: int where "SYS_getdents64 \<equiv> 217"
abbreviation (input) SYS_newfstatat :: int where "SYS_newfstatat \<equiv> 262"
abbreviation (input) SYS_lseek :: int where "SYS_lseek \<equiv> 8"
abbreviation (input) SYS_ioctl :: int where "SYS_ioctl \<equiv> 16"
abbreviation (input) SYS_writev :: int where "SYS_writev \<equiv> 20"
abbreviation (input) SYS_access :: int where "SYS_access \<equiv> 21"
abbreviation (input) SYS_pipe :: int where "SYS_pipe \<equiv> 22"
abbreviation (input) SYS_fcntl :: int where "SYS_fcntl \<equiv> 72"
abbreviation (input) SYS_fsync :: int where "SYS_fsync \<equiv> 74"
abbreviation (input) SYS_fdatasync :: int where "SYS_fdatasync \<equiv> 75"
abbreviation (input) SYS_getcwd :: int where "SYS_getcwd \<equiv> 79"
abbreviation (input) SYS_chdir :: int where "SYS_chdir \<equiv> 80"
abbreviation (input) SYS_readlink :: int where "SYS_readlink \<equiv> 89"
abbreviation (input) SYS_openat :: int where "SYS_openat \<equiv> 257"
abbreviation (input) SYS_readlinkat :: int where "SYS_readlinkat \<equiv> 267"
abbreviation (input) SYS_faccessat :: int where "SYS_faccessat \<equiv> 269"
abbreviation (input) SYS_pipe2 :: int where "SYS_pipe2 \<equiv> 293"
abbreviation (input) SYS_faccessat2 :: int where "SYS_faccessat2 \<equiv> 439"

text \<open>A call of the file system on the files and the descriptors of the running process.\<close>

definition on_files :: "((exn + int) \<times> fs_state) \<Rightarrow> 'm ptmc \<Rightarrow> 'm net_result" where
  "on_files result w = (case result of (r, fs) \<Rightarrow> (r, set_own_fs fs w))"

definition on_files_fds :: "int fs_result \<Rightarrow> 'm ptmc \<Rightarrow> 'm net_result" where
  "on_files_fds result w = (case result of (r, fs, fdm) \<Rightarrow> (r, set_own_fs fs (set_own_fdm fdm w)))"

definition on_memory :: "(exn + int) \<times> 'm \<Rightarrow> 'm ptmc \<Rightarrow> 'm net_result" where
  "on_memory result w = (case result of (r, m) \<Rightarrow> (r, w\<lparr>pt_memory := m\<rparr>))"

definition pipe_call :: "'m guest \<Rightarrow> int \<Rightarrow> thread_state list \<Rightarrow> u64 \<Rightarrow> int \<Rightarrow> 'm ptmc \<Rightarrow> 'm net_result" where
  "pipe_call G pid ts destination flags w =
     (case do_pipe flags (own_fs w) (own_fdm w) of
        (Inl e, fs, fdm) \<Rightarrow> (Inl e, set_own_fs fs (set_own_fdm fdm w))
      | (Inr (n, rd, wr), fs, fdm) \<Rightarrow>
          (let w = set_own_fs fs (set_own_fdm fdm w)
           in if n \<noteq> 0 then (Inr n, w)
              else (case guest_write_exact G pid destination (le_bytes 4 rd @ le_bytes 4 wr) (pt_memory w) of
                      (True, m) \<Rightarrow> (Inr 0, w\<lparr>pt_memory := m\<rparr>)
                    | (False, m) \<Rightarrow>
                        (case emu_close ts rd (w\<lparr>pt_memory := m\<rparr>) of
                           (Inl e, w) \<Rightarrow> (Inl e, w)
                         | (Inr _, w) \<Rightarrow>
                             (case emu_close ts wr w of
                                (Inl e, w) \<Rightarrow> (Inl e, w)
                              | (Inr _, w) \<Rightarrow> (Inr (- EFAULT), w))))))"

definition emu_vfs_statat ::
  "'m guest \<Rightarrow> (string \<Rightarrow> u64) \<Rightarrow> int \<Rightarrow> u64 \<Rightarrow> u64 \<Rightarrow> int \<Rightarrow> 'm ptmc \<Rightarrow> 'm net_result" where
  "emu_vfs_statat G hash dirfd path_ptr destination flags w =
     (let follow = (\<not> has_flag flags AT_SYMLINK_NOFOLLOW);
          stat_path = (\<lambda>path. case resolve_path_checked (own_fs w) (own_fdm w) dirfd path follow False False of
             Inl e \<Rightarrow> (Inl e, w)
           | Inr (Inl err) \<Rightarrow> (Inr err, w)
           | Inr (Inr resolved) \<Rightarrow>
               (case do_stat hash resolved follow (own_fs w) (own_fdm w) of
                  Inl e \<Rightarrow> (Inl e, w)
                | Inr (Inl err) \<Rightarrow> (Inr err, w)
                | Inr (Inr st) \<Rightarrow>
                    (case guest_out G destination (stat_bytes st) w of
                       (True, w) \<Rightarrow> (Inr 0, w) | (False, w) \<Rightarrow> (Inr (- EFAULT), w))))
      in if has_flag flags (NOT (AT_EMPTY_PATH OR AT_SYMLINK_NOFOLLOW OR AT_NO_AUTOMOUNT)) then (Inr (- EINVAL), w)
         else (case read_guest_string G (own_pid w) path_ptr (pt_memory w) of
           Inl copied \<Rightarrow> (Inr copied, w)
         | Inr path \<Rightarrow>
             if path = [] \<and> has_flag flags AT_EMPTY_PATH
             then if dirfd \<noteq> AT_FDCWD then emu_fstat G hash dirfd destination w
                  else stat_path (if cwd (own_fs w) = [] then ''/'' else cwd (own_fs w))
             else stat_path path))"

definition emu_vfs_getdents64 ::
  "'m guest \<Rightarrow> memory_map \<Rightarrow> (string \<Rightarrow> u64) \<Rightarrow> int \<Rightarrow> u64 \<Rightarrow> u32 \<Rightarrow> 'm ptmc \<Rightarrow> 'm net_result" where
  "emu_vfs_getdents64 G maps hash fd buffer count w =
     (case do_getdents64 G maps hash fd buffer count (own_pid w) (own_fs w) (own_fdm w) (pt_memory w) of
        (r, fs, m) \<Rightarrow> (r, set_own_fs fs (w\<lparr>pt_memory := m\<rparr>)))"

text \<open>The handlers of files in two groups: the calls on contents and names, and the others.\<close>

definition handle_fs_ctl :: "'m guest \<Rightarrow> (string \<Rightarrow> u64) \<Rightarrow> int \<Rightarrow> syscall_info \<Rightarrow> 'm sim \<Rightarrow> 'm handled" where
  "handle_fs_ctl G hash pid info s =
     (let nr = si_nr info; a = si_args info; w = sm_pt s; i = (\<lambda>k. as_int (a ! k));
          fs = own_fs w; m = pt_memory w; ts = cursor_threads s;
          yes = (\<lambda>r. finish_call CKPT_YES pid info r s); no = (\<lambda>r. finish_call CKPT_NO pid info r s)
      in if nr = SYS_fsync then yes (emu_fsync (i 0) w, w)
         else if nr = SYS_fdatasync then yes (emu_fdatasync (i 0) w, w)
         else if nr = SYS_fcntl then yes (emu_fcntl ts (i 0) (i 1) (sint (a ! 2)) w)
         else if nr = SYS_ioctl then yes (emu_ioctl G ts (i 0) (a ! 1) (a ! 2) w)
         else if nr = SYS_newfstatat then no (emu_vfs_statat G hash (i 0) (a ! 1) (a ! 2) (i 3) w)
         else if nr = SYS_getcwd then no (on_memory (apfst Inr (emu_getcwd G (own_pid w) (a ! 0) (unat (a ! 1)) fs m)) w)
         else (Inr (CKPT_NO, info), s))"

definition handle_fs ::
  "'m guest \<Rightarrow> memory_map \<Rightarrow> (string \<Rightarrow> u64) \<Rightarrow> int \<Rightarrow> syscall_info \<Rightarrow> 'm sim \<Rightarrow> 'm handled" where
  "handle_fs G maps hash pid info s =
     (let nr = si_nr info; a = si_args info; w = sm_pt s; i = (\<lambda>k. as_int (a ! k));
          fs = own_fs w; fdm = own_fdm w; m = pt_memory w; tid = own_pid w; now = sim_now s; ts = cursor_threads s;
          yes = (\<lambda>r. finish_call CKPT_YES pid info r s); no = (\<lambda>r. finish_call CKPT_NO pid info r s)
      in if nr = SYS_open
         then yes (on_files_fds (emu_vfs_openat G tid now AT_FDCWD (a ! 0) (i 1) (ucast (a ! 2)) fs fdm m) w)
         else if nr = SYS_openat
         then yes (on_files_fds (emu_vfs_openat G tid now (i 0) (a ! 1) (i 2) (ucast (a ! 3)) fs fdm m) w)
         else if nr = SYS_read then finish_io_call G pid info (emu_read G (i 0) (a ! 1) (unat (a ! 2)) w) s
         else if nr = SYS_write then finish_io_call G pid info (emu_write G now (i 0) (a ! 1) (unat (a ! 2)) w) s
         else if nr = SYS_writev then yes (emu_writev G now (i 0) (a ! 1) (a ! 2) w)
         else if nr = SYS_close then yes (emu_close ts (i 0) w)
         else if nr = SYS_lseek then no (on_files (do_lseek (i 0) (sint (a ! 1)) (i 2) fs fdm) w)
         else if nr = SYS_stat \<or> nr = SYS_lstat
         then no (emu_vfs_statat G hash AT_FDCWD (a ! 0) (a ! 1) (if nr = SYS_lstat then AT_SYMLINK_NOFOLLOW else 0) w)
         else if nr = SYS_fstat then no (emu_fstat G hash (i 0) (a ! 1) w)
         else if nr = SYS_chdir then no (on_files (emu_chdir G tid (a ! 0) fs fdm m) w)
         else if nr = SYS_pipe then yes (pipe_call G pid ts (a ! 0) 0 w)
         else if nr = SYS_pipe2 then yes (pipe_call G pid ts (a ! 0) (i 1) w)
         else if nr = SYS_access then yes (emu_vfs_accessat G tid AT_FDCWD (a ! 0) (i 1) 0 fs fdm m, w)
         else if nr = SYS_faccessat then yes (emu_vfs_accessat G tid (i 0) (a ! 1) (i 2) 0 fs fdm m, w)
         else if nr = SYS_faccessat2 then yes (emu_vfs_accessat G tid (i 0) (a ! 1) (i 2) (i 3) fs fdm m, w)
         else if nr = SYS_getdents64 then yes (emu_vfs_getdents64 G maps hash (i 0) (a ! 1) (ucast (a ! 2)) w)
         else if nr = SYS_readlink
         then yes (on_memory (emu_vfs_readlinkat G tid AT_FDCWD (a ! 0) (a ! 1) (a ! 2) fs fdm m) w)
         else if nr = SYS_readlinkat
         then yes (on_memory (emu_vfs_readlinkat G tid (i 0) (a ! 1) (a ! 2) (a ! 3) fs fdm m) w)
         else handle_fs_ctl G hash pid info s)"

end
