(* ===== verification/Handlers_Wait.thy ===== *)
theory Handlers_Wait
  imports Handlers
begin

text \<open>
  The calls that wait for a time or for a futex: the virtual clock (\<open>src/src/subsys/net/emu.cpp\<close>), \<open>pselect6\<close>
  (\<open>src/src/subsys/pending_io.cpp\<close>), and the handlers of futexes and time
  (\<open>src/src/core/syscall/handlers.cpp\<close>).
\<close>

section \<open>The virtual clock\<close>

abbreviation (input) SYS_gettimeofday :: int where "SYS_gettimeofday \<equiv> 96"
abbreviation (input) kDefaultTimeStepUs :: int where "kDefaultTimeStepUs \<equiv> 100"

type_synonym time_plugin = "(int \<Rightarrow> int \<Rightarrow> timespec \<Rightarrow> (timespec option \<times> int) option) option"

definition timeval_bytes :: "timespec \<Rightarrow> byte list" where
  "timeval_bytes t = le_bytes 8 (fst t) @ le_bytes 8 (snd t)"

definition emu_gettimeofday_write :: "'m guest \<Rightarrow> nat \<Rightarrow> timespec \<Rightarrow> u64 \<Rightarrow> u64 \<Rightarrow> 'm sim \<Rightarrow> int \<times> 'm sim" where
  "emu_gettimeofday_write G node result tv tz s =
     (let pid = pt_pids (sm_pt s) ! node;
          put = (\<lambda>a bs m. if a = 0 then (True, m) else guest_write_exact G pid a bs m);
          mem = (\<lambda>m. s\<lparr>sm_pt := (sm_pt s)\<lparr>pt_memory := m\<rparr>\<rparr>)
      in case put tv (timeval_bytes result) (pt_memory (sm_pt s)) of
           (False, m) \<Rightarrow> (- EFAULT, mem m)
         | (True, m) \<Rightarrow>
             (case put tz (replicate 8 0) m of
                (False, m) \<Rightarrow> (- EFAULT, mem m)
              | (True, m) \<Rightarrow> (0, (mem m)\<lparr>sm_time := (sm_time s)[node := result]\<rparr>)))"

definition advance_clock :: "timespec \<Rightarrow> int \<Rightarrow> timespec" where
  "advance_clock current microseconds =
     (let sec = fst current + microseconds div 1000000; usec = snd current + microseconds mod 1000000
      in if 1000000 \<le> usec then (sec + 1, usec - 1000000) else (sec, usec))"

definition emu_gettimeofday :: "'m guest \<Rightarrow> time_plugin \<Rightarrow> u64 \<Rightarrow> u64 \<Rightarrow> 'm sim \<Rightarrow> ('m, int) sim_result" where
  "emu_gettimeofday G plugin tv tz s =
     (let node = cursor_of s; current = sm_time s ! node; n_choose = pt_n_choose (sm_pt s); choice = pt_choose (sm_pt s)
      in if n_choose \<noteq> 0
         then (case plugin of
           Some f \<Rightarrow>
             (case f (pt_pids (sm_pt s) ! node) choice current of
                None \<Rightarrow> (Inl (Runtime_error ''choose_gettimeofday returned no outcome''), s)
              | Some (chosen, rval) \<Rightarrow>
                  (let result = (case chosen of
                         Some t \<Rightarrow> t
                       | None \<Rightarrow> if 0 < choice then advance_clock current (kDefaultTimeStepUs * choice) else current)
                   in case emu_gettimeofday_write G node result tv tz s of
                        (err, s) \<Rightarrow> (Inr (if err \<noteq> 0 then err else rval), s)))
         | None \<Rightarrow>
             (case emu_gettimeofday_write G node
                     (advance_clock current (kDefaultTimeStepUs * ((if choice < 0 then 0 else choice) + 1))) tv tz s of
                (n, s) \<Rightarrow> (Inr n, s)))
         else (case emu_gettimeofday_write G node current tv tz s of (n, s) \<Rightarrow> (Inr n, s)))"

section \<open>Sleeping\<close>

definition finish_sim :: "int \<Rightarrow> syscall_info \<Rightarrow> int \<Rightarrow> 'm sim \<Rightarrow> 'm handled" where
  "finish_sim pid info result s =
     (Inr (CKPT_YES, info\<lparr>si_rval := word_of_int result\<rparr>), tracee_set_rax pid (word_of_int result) s)"

definition bad_time :: "int \<times> int \<Rightarrow> bool" where
  "bad_time = (\<lambda>(sec, nsec). sec < 0 \<or> nsec < 0 \<or> 1000000000 \<le> nsec)"

definition suspend_until ::
  "int \<Rightarrow> syscall_info \<Rightarrow> pending_reason \<Rightarrow> int \<Rightarrow> pending_deadline option \<Rightarrow> 'm sim \<Rightarrow> 'm handled" where
  "suspend_until pid info reason tid deadline s =
     (case suspend_syscall (cursor_of s) pid info reason s of
        (Inl e, s) \<Rightarrow> (Inl e, s)
      | (Inr info, s) \<Rightarrow>
          (case deadline of
             None \<Rightarrow> (Inr (CKPT_YES, info), s)
           | Some d \<Rightarrow>
               (case set_pending_deadline (cursor_of s) tid d s of
                  (Inl e, s) \<Rightarrow> (Inl e, s)
                | (Inr _, s) \<Rightarrow> (Inr (CKPT_YES, info), s))))"

text \<open>The thread at the current index, \<open>threads.at(...)\<close>.\<close>

definition current_thread :: "'m sim \<Rightarrow> exn + thread_state" where
  "current_thread s =
     (let slot = sm_current s ! cursor_of s
      in if 0 \<le> slot \<and> slot < int (length (cursor_threads s)) then Inr (cursor_threads s ! nat slot) else Inl Out_of_range)"

definition sleep_call :: "'m guest \<Rightarrow> int \<Rightarrow> syscall_info \<Rightarrow> int \<Rightarrow> int \<Rightarrow> u64 \<Rightarrow> 'm sim \<Rightarrow> 'm handled" where
  "sleep_call G pid info clock flags request_address s =
     (if clock \<noteq> CLOCK_REALTIME \<and> clock \<noteq> CLOCK_MONOTONIC then (Inl (Runtime_error ''Unsupported sleep clock''), s)
      else if has_flag flags (NOT TIMER_ABSTIME) then finish_sim pid info (- EINVAL) s
      else (case read_timespec G pid request_address (sm_pt s) of
        None \<Rightarrow> finish_sim pid info (- EFAULT) s
      | Some (sec, nsec) \<Rightarrow>
          if bad_time (sec, nsec) then finish_sim pid info (- EINVAL) s
          else (case make_pending_deadline (cursor_of s) (sm_time s) clock sec nsec (\<not> has_flag flags TIMER_ABSTIME) 0 of
            Inl e \<Rightarrow> (Inl e, s)
          | Inr d \<Rightarrow>
              if deadline_due (sm_time s ! cursor_of s) d then finish_sim pid info 0 s
              else (case suspend_syscall (cursor_of s) pid info By_Timer s of
                (Inl e, s) \<Rightarrow> (Inl e, s)
              | (Inr info, s) \<Rightarrow>
                  (case current_thread s of
                     Inl e \<Rightarrow> (Inl e, s)
                   | Inr t \<Rightarrow>
                       (case set_pending_deadline (cursor_of s) (th_tid t) d s of
                          (Inl e, s) \<Rightarrow> (Inl e, s)
                        | (Inr _, s) \<Rightarrow> (Inr (CKPT_YES, info), s)))))))"

section \<open>Select with a timer\<close>

definition validate_pselect_mask_wrapper :: "'m guest \<Rightarrow> int \<Rightarrow> u64 \<Rightarrow> 'm sim \<Rightarrow> exn + unit" where
  "validate_pselect_mask_wrapper G tid wrapper s =
     (case guest_read_exact G tid wrapper 16 (pt_memory (sm_pt s)) of
        None \<Rightarrow> fails ''Unreadable pselect6 signal mask wrapper''
      | Some bs \<Rightarrow> if le_int (take 8 bs) = 0 then Inr () else fails ''Unsupported pselect6 signal mask'')"

definition pselect_wait :: "nat \<Rightarrow> int \<Rightarrow> syscall_info \<Rightarrow> (int \<times> int) option \<Rightarrow> 'm sim \<Rightarrow> ('m, syscall_info) sim_result" where
  "pselect_wait node tid call timeout s =
     (case suspend_syscall node tid call By_Timer s of
        (Inl e, s) \<Rightarrow> (Inl e, s)
      | (Inr call, s) \<Rightarrow>
          (case timeout of
             None \<Rightarrow> (Inr call, s)
           | Some (sec, nsec) \<Rightarrow>
               map_prod (map_sum id (\<lambda>_. call)) id
                 (arm_deadline node tid sec nsec ''Pending pselect6 has no live bound actor'' s)))"

definition start_pselect_timer :: "'m guest \<Rightarrow> nat \<Rightarrow> int \<Rightarrow> syscall_info \<Rightarrow> 'm sim \<Rightarrow> ('m, syscall_info) sim_result" where
  "start_pselect_timer G node tid call s =
     (let a = si_args call; nfds = as_int (a ! 0);
          answer = (\<lambda>result s. (Inr (call\<lparr>si_rval := word_of_int result\<rparr>), tracee_set_rax tid (word_of_int result) s))
      in case (if a ! 5 \<noteq> 0 then validate_pselect_mask_wrapper G tid (a ! 5) s else Inr ()) of
           Inl e \<Rightarrow> (Inl e, s)
         | Inr _ \<Rightarrow>
             if overlaps_scratch (a ! 4) then (Inl (Runtime_error ''pselect6 timeout overlaps reserved control memory''), s)
             else (case (if a ! 4 = 0 then Some (0, 0) else read_timespec G tid (a ! 4) (sm_pt s)) of
               None \<Rightarrow> answer (- EFAULT) s
             | Some timeout \<Rightarrow>
                 if bad_time timeout \<or> nfds < 0 then answer (- EINVAL) s
                 else
                   (let none = (timeout = (0, 0))
                    in case (if nfds = 0 then (Inr 0, sm_pt s) else emu_select_scan G nfds (a ! 1) (a ! 2) (a ! 3) (sm_pt s)) of
                         (Inl e, w) \<Rightarrow> (Inl e, s\<lparr>sm_pt := w\<rparr>)
                       | (Inr ready, w) \<Rightarrow>
                           (let s = s\<lparr>sm_pt := w\<rparr>
                            in if ready \<noteq> 0 \<or> a ! 4 \<noteq> 0 \<and> none then answer ready s
                               else pselect_wait node tid call (if a ! 4 = 0 then None else Some timeout) s))))"

section \<open>Futexes\<close>

text \<open>The waiters of the address that a call removed from the queue are no longer blocked.\<close>

definition unblock_woken :: "nat \<Rightarrow> int list \<Rightarrow> futex_state \<Rightarrow> 'm sim \<Rightarrow> 'm sim" where
  "unblock_woken node previous fx s =
     s\<lparr>sm_blocked := (sm_blocked s)[node := map (\<lambda>(slot, b).
        if slot < length (threads_of node s) \<and>
           list_ex (\<lambda>tid. \<not> is_thread_waiting tid fx \<and> th_tid (threads_of node s ! slot) = tid) previous
        then False else b) (enumerate 0 (sm_blocked s ! node))]\<rparr>"

definition is_wait :: "int \<Rightarrow> bool" where
  "is_wait op \<longleftrightarrow> op = FUTEX_WAIT \<or> op = FUTEX_WAIT_BITSET"

text \<open>The deadline of a timed wait: an error number, or the deadline if the call has one.\<close>

definition futex_deadline :: "'m guest \<Rightarrow> int \<Rightarrow> syscall_info \<Rightarrow> 'm sim \<Rightarrow> exn + (int + pending_deadline option)" where
  "futex_deadline G pid info s =
     (let a = si_args info; futex_op = as_int (a ! 1); op = get_op futex_op
      in if is_wait op \<and> a ! 3 \<noteq> 0
         then (case read_timespec G pid (a ! 3) (sm_pt s) of
                 None \<Rightarrow> Inr (Inl (- EFAULT))
               | Some (sec, nsec) \<Rightarrow>
                   if bad_time (sec, nsec) then Inr (Inl (- EINVAL))
                   else map_sum id (\<lambda>d. Inr (Some d))
                          (make_pending_deadline (cursor_of s) (sm_time s)
                             (if has_flag futex_op FUTEX_CLOCK_REALTIME then CLOCK_REALTIME else CLOCK_MONOTONIC)
                             sec nsec (op = FUTEX_WAIT) (- ETIMEDOUT)))
         else Inr (Inr None))"

definition futex_word :: "'m guest \<Rightarrow> int \<Rightarrow> syscall_info \<Rightarrow> 'm sim \<Rightarrow> u64 option" where
  "futex_word G pid info s =
     (let op = get_op (as_int (si_args info ! 1))
      in if is_wait op \<or> op = FUTEX_CMP_REQUEUE
         then (case vm_readv G pid (si_args info ! 0) 4 (pt_memory (sm_pt s)) of
                 None \<Rightarrow> None
               | Some bs \<Rightarrow> if length bs = 4 then Some (word_of_int (le_int bs)) else None)
         else None)"

definition set_futex :: "nat \<Rightarrow> futex_state \<Rightarrow> 'm sim \<Rightarrow> 'm sim" where
  "set_futex node fx s = s\<lparr>sm_child := (sm_child s)[node := (sm_child s ! node)\<lparr>ts_futex := Some fx\<rparr>]\<rparr>"

definition handle_futex_call :: "'m guest \<Rightarrow> int \<Rightarrow> syscall_info \<Rightarrow> 'm sim \<Rightarrow> 'm handled" where
  "handle_futex_call G pid info s =
     (let node = cursor_of s; a = si_args info; op = get_op (as_int (a ! 1));
          fx = (case ts_futex (sm_child s ! node) of None \<Rightarrow> new_futex_state | Some f \<Rightarrow> f);
          s = set_futex node fx s
      in case current_thread s of
           Inl e \<Rightarrow> (Inl e, s)
         | Inr t \<Rightarrow>
             (case futex_deadline G pid info s of
                Inl e \<Rightarrow> (Inl e, s)
              | Inr (Inl err) \<Rightarrow> finish_sim pid info err s
              | Inr (Inr deadline) \<Rightarrow>
                  (case handle_futex (th_tid t) (a ! 0) (as_int (a ! 1)) (as_int (a ! 2))
                          (if deadline = None then a ! 3 else 0) (a ! 4) (as_int (a ! 5)) (futex_word G pid info s) fx of
                     (Inl e, fx') \<Rightarrow> (Inl e, set_futex node fx' s)
                   | (Inr result, fx') \<Rightarrow>
                       (case (if is_wait op \<and> result = 0
                              then suspend_until pid info By_Futex (th_tid t) deadline (set_futex node fx' s)
                              else finish_sim pid info result (set_futex node fx' s)) of
                          (Inl e, s) \<Rightarrow> (Inl e, s)
                        | (Inr r, s) \<Rightarrow>
                            (Inr r, refresh_futex_pending node (unblock_woken node (get_waiters (a ! 0) fx) fx' s))))))"

section \<open>Time\<close>

definition handle_time :: "'m guest \<Rightarrow> time_plugin \<Rightarrow> int \<Rightarrow> syscall_info \<Rightarrow> 'm sim \<Rightarrow> 'm handled" where
  "handle_time G plugin pid info s =
     (let nr = si_nr info; a = si_args info
      in if nr = SYS_gettimeofday
         then (case emu_gettimeofday G plugin (a ! 0) (a ! 1) s of
                 (Inl e, s) \<Rightarrow> (Inl e, s)
               | (Inr n, s) \<Rightarrow> finish_sim pid info n s)
         else if nr = SYS_nanosleep then sleep_call G pid info CLOCK_MONOTONIC 0 (a ! 0) s
         else if nr = SYS_pselect6
         then (case start_pselect_timer G (cursor_of s) pid info s of
                 (Inl e, s) \<Rightarrow> (Inl e, s)
               | (Inr info, s) \<Rightarrow> (Inr (CKPT_YES, info), s))
         else if nr = SYS_clock_nanosleep then sleep_call G pid info (as_int (a ! 0)) (as_int (a ! 1)) (a ! 2) s
         else (Inr (CKPT_NO, info), s))"

end
