(* ===== verification/Spec2Isabelle.thy ===== *)
theory Spec2Isabelle
  imports Frontier_Claims Fd_Manager Futex_Claims Wire_Claims
    Vfs_Claims Pipe_Claims Link_Claims Task_Claims Wake_Claims Handlers_Wait
begin

text \<open>
  DetSim, a deterministic simulator and model checker for distributed programs.
\<close>

end
